theory Spec2Isabelle
  imports Main "HOL-Library.Word"
begin

section \<open>Data model of the repotracker\<close>

text \<open>
  The development embeds the revision-ingestion pipeline of package \<open>repotracker\<close>:
  \<open>FetchRevisions\<close>, \<open>StoreRevisions\<close>, \<open>GetProjectConfig\<close>,
  \<open>addBuildBreakSubscriptions\<close>, \<open>CreateVersionFromConfig\<close>,
  \<open>shellVersionFromRevision\<close>, \<open>sanityCheckOrderNum\<close> and \<open>createVersionItems\<close>.
  Go structs are records (field names carry a prefix, since record fields share one
  name space), Go errors are values of the datatype \<open>err\<close>, a nil pointer is \<open>None\<close>,
  and a nil-pointer dereference is an explicit outcome.  Instants are integers counting
  nanoseconds; a \<open>time.Duration\<close> is a signed 64-bit word.
\<close>

type_synonym time = int

datatype err =
    APIRequestError string
  | YAMLFormatError string
  | FileNotFoundError string
  | projectConfigError "string list" "string list"
  | DuplicateKeyError string
  | OtherError string
  | Wrapped string err

text \<open>\<open>errors.Wrap\<close>, \<open>errors.Wrapf\<close> and \<open>errors.WithStack\<close> return nil on a nil error.\<close>

definition Wrap :: "err option \<Rightarrow> string \<Rightarrow> err option" where
  "Wrap e msg = (case e of None \<Rightarrow> None | Some x \<Rightarrow> Some (Wrapped msg x))"

definition WithStack :: "err option \<Rightarrow> err option" where
  "WithStack e = Wrap e []"

fun Cause :: "err \<Rightarrow> err" where
  "Cause (Wrapped m e) = Cause e"
| "Cause e = e"

text \<open>Modelled from the spec: \<open>db.IsDuplicateKey\<close> is missing from the source; it
  recognises the "duplicate-key condition" of a failed insert.\<close>

definition IsDuplicateKey :: "err \<Rightarrow> bool" where
  "IsDuplicateKey e = (case Cause e of DuplicateKeyError m \<Rightarrow> True | _ \<Rightarrow> False)"

datatype requester = RepotrackerVersionRequester | OtherRequester string

datatype version_status = VersionCreated | OtherStatus string

datatype level = Warning | Error | Critical

record Revision =
  rev_Author :: string
  rev_AuthorEmail :: string
  rev_AuthorGithubUID :: int
  rev_RevisionMessage :: string
  rev_Revision :: string
  rev_CreateTime :: time

record BuildStatus =
  bs_BuildVariant :: string
  bs_Activated :: bool
  bs_ActivateAt :: time
  bs_BuildId :: string

record Version =
  v_Id :: string
  v_CreateTime :: time
  v_Revision :: string
  v_Author :: string
  v_AuthorEmail :: string
  v_AuthorID :: string
  v_Message :: string
  v_Status :: version_status
  v_RevisionOrderNumber :: int
  v_Config :: string
  v_Ignored :: bool
  v_Owner :: string
  v_Repo :: string
  v_Branch :: string
  v_RepoKind :: string
  v_BuildVariants :: "BuildStatus list"
  v_BuildIds :: "string list"
  v_Identifier :: string
  v_RemotePath :: string
  v_Requester :: requester
  v_Errors :: "string list"
  v_Warnings :: "string list"

record BuildVariant =
  bv_Name :: string
  bv_Disabled :: bool
  bv_BatchTime :: "int option"
  bv_Tasks :: "string list"

record Project =
  p_Ignore :: "string list"
  p_BuildVariants :: "BuildVariant list"

record ProjectRef =
  pr_Identifier :: string
  pr_Owner :: string
  pr_Repo :: string
  pr_Branch :: string
  pr_RepoKind :: string
  pr_RemotePath :: string
  pr_LocalConfig :: string
  pr_Enabled :: bool
  pr_RepotrackerError :: "bool option"
  pr_NotifyOnBuildFailure :: bool
  pr_Admins :: "string list"
  pr_BatchTime :: int

record Settings =
  NumNewRepoRevisionsToFetch :: int
  MaxRepoRevisionsToSearch :: int

record VersionErrors =
  ve_Errors :: "string list"
  ve_Warnings :: "string list"

datatype ValidationErrorLevel = VError | VWarning

record ValidationError =
  val_Level :: ValidationErrorLevel
  val_Message :: string

record DBUser =
  u_Id :: string
  u_Email :: string
  u_SlackUsername :: string
  u_BuildBreak :: string
  u_BuildBreakID :: string

record Subscriber =
  sub_Type :: string
  sub_Target :: string

record Subscription =
  sn_Trigger :: string
  sn_Project :: string
  sn_Subscriber :: Subscriber

text \<open>Modelled from the spec: the Build and Task documents are declared outside the
  given source.  A Build belongs to one (version, build variant) pair and lists its
  tasks; a Task belongs to one (build, task name) pair.\<close>

record Build =
  b_Id :: string
  b_Version :: string
  b_BuildVariant :: string
  b_Tasks :: "string list"

record Task =
  t_Id :: string
  t_BuildId :: string
  t_BuildVariant :: string
  t_DisplayName :: string
  t_Version :: string

subsection \<open>The store and the other collaborators\<close>

text \<open>
  The state a run reads and writes: the version, build and task collections in
  insertion order, the repository documents (the watermark \<open>LastRevision\<close> by project),
  the order-number counter by project, the subscriptions, and the messages logged at
  level warning or above (\<open>grip.Info\<close> and \<open>grip.Debug\<close> lines are not recorded).
\<close>

record world =
  versions :: "Version list"
  builds :: "Build list"
  tasks :: "Task list"
  repositories :: "string \<Rightarrow> string option"
  counters :: "string \<Rightarrow> int"
  subscriptions :: "Subscription list"
  logs :: "(level \<times> string) list"

datatype query =
    ById string
  | ByProjectIdAndRevision string string
  | ByMostRecentSystemRequester string
  | ByLastVariantActivation string string

text \<open>
  Everything the pipeline calls but does not own is a field of the environment: the
  failures of the store (one oracle per operation, \<open>None\<close> meaning that the call went
  through), the validator, the YAML encoder, the user collection, the identifier
  schemes, the ignore matcher, the wall clock and the downstream activation pass.
  The clock is read once for each build, so \<open>time_Now\<close> is indexed by the version id
  and the build variant of the read; build and task ids are indexed likewise.
\<close>

record env =
  find_err :: "query \<Rightarrow> err option"
  insert_err :: "Version \<Rightarrow> err option"
  counter_err :: "string \<Rightarrow> err option"
  counter_skip :: "string \<Rightarrow> int \<Rightarrow> nat"
  create_build_err :: "string \<Rightarrow> string \<Rightarrow> err option"
  delete_build_err :: "string \<Rightarrow> err option"
  find_repository_err :: "string \<Rightarrow> err option"
  update_last_revision_err :: "string \<Rightarrow> string \<Rightarrow> err option"
  upsert_err :: "Subscription \<Rightarrow> err option"
  FindByGithubUID :: "int \<Rightarrow> DBUser option \<times> err option"
  user_FindOne :: "string \<Rightarrow> DBUser option \<times> err option"
  FindProject :: "ProjectRef \<Rightarrow> Project option \<times> err option"
  CheckProjectSyntax :: "Project \<Rightarrow> ValidationError list \<times> err option"
  yaml_Marshal :: "Project \<Rightarrow> string \<times> err option"
  CleanName :: "string \<Rightarrow> string"
  BuildId :: "string \<Rightarrow> string \<Rightarrow> string"
  TaskId :: "string \<Rightarrow> string \<Rightarrow> string \<Rightarrow> string"
  MatchesPath :: "string list \<Rightarrow> string \<Rightarrow> bool"
  time_Now :: "string \<Rightarrow> string \<Rightarrow> time"
  Fields_String :: "(string \<times> string) list \<Rightarrow> string"
  DoProjectActivation :: "string \<Rightarrow> world \<Rightarrow> err option \<times> world"

text \<open>The \<open>RepoTracker\<close> struct: settings, project reference and the embedded
  \<open>RepoPoller\<close> interface, whose four methods are fields.\<close>

record RepoTracker =
  rt_Settings :: Settings
  rt_ProjectRef :: ProjectRef
  GetRemoteConfig :: "string \<Rightarrow> Project option \<times> err option"
  GetChangedFiles :: "string \<Rightarrow> string list \<times> err option"
  GetRevisionsSince :: "string \<Rightarrow> int \<Rightarrow> Revision list \<times> err option"
  GetRecentRevisions :: "int \<Rightarrow> Revision list \<times> err option"

text \<open>\<open>grip.Error(message.WrapError(err, fields))\<close> logs nothing when \<open>err\<close> is nil.\<close>

definition grip :: "level \<Rightarrow> string \<Rightarrow> world \<Rightarrow> world" where
  "grip l msg w = w\<lparr>logs := logs w @ [(l, msg)]\<rparr>"

definition grip_WrapError :: "level \<Rightarrow> err option \<Rightarrow> string \<Rightarrow> world \<Rightarrow> world" where
  "grip_WrapError l e msg w = (case e of None \<Rightarrow> w | Some x \<Rightarrow> grip l msg w)"

subsection \<open>Version queries\<close>

text \<open>Modelled from the spec: package \<open>version\<close> (the queries, \<open>FindOne\<close> and
  \<open>Insert\<close>) is missing from the source.  The store offers point lookups by id, by
  (project, revision) and by "latest for project", the latest being the version with
  the highest order number; the activation query finds the most recent version of the
  project that recorded an activation for the build variant.\<close>

fun query_matches :: "query \<Rightarrow> Version \<Rightarrow> bool" where
  "query_matches (ById i) v = (v_Id v = i)"
| "query_matches (ByProjectIdAndRevision p r) v = (v_Identifier v = p \<and> v_Revision v = r)"
| "query_matches (ByMostRecentSystemRequester p) v = (v_Identifier v = p)"
| "query_matches (ByLastVariantActivation p n) v =
     (v_Identifier v = p \<and>
      list_ex (\<lambda>s. bs_BuildVariant s = n \<and> bs_Activated s) (v_BuildVariants v))"

fun query_sorted :: "query \<Rightarrow> bool" where
  "query_sorted (ById i) = False"
| "query_sorted (ByProjectIdAndRevision p r) = False"
| "query_sorted (ByMostRecentSystemRequester p) = True"
| "query_sorted (ByLastVariantActivation p n) = True"

fun most_recent :: "Version list \<Rightarrow> Version option" where
  "most_recent [] = None"
| "most_recent (v # vs) =
     (case most_recent vs of
        None \<Rightarrow> Some v
      | Some u \<Rightarrow> if v_RevisionOrderNumber u > v_RevisionOrderNumber v then Some u else Some v)"

definition FindOne :: "env \<Rightarrow> query \<Rightarrow> world \<Rightarrow> Version option \<times> err option" where
  "FindOne E q w =
     (case find_err E q of
        Some e \<Rightarrow> (None, Some e)
      | None \<Rightarrow>
          (if query_sorted q then most_recent (filter (query_matches q) (versions w))
           else List.find (query_matches q) (versions w), None))"

text \<open>Modelled from the spec: the insert fails with a duplicate-key condition when
  the id, the (project, revision) pair or the (project, order number) pair is taken;
  any other failure comes from the environment; otherwise the document is appended.\<close>

definition duplicate_key :: "Version \<Rightarrow> Version \<Rightarrow> bool" where
  "duplicate_key v u =
     (v_Id u = v_Id v \<or>
      (v_Identifier u = v_Identifier v \<and> v_Revision u = v_Revision v) \<or>
      (v_Identifier u = v_Identifier v \<and> v_RevisionOrderNumber u = v_RevisionOrderNumber v))"

definition Insert :: "env \<Rightarrow> Version \<Rightarrow> world \<Rightarrow> err option \<times> world" where
  "Insert E v w =
     (case insert_err E v of
        Some e \<Rightarrow> (Some e, w)
      | None \<Rightarrow>
          if list_ex (duplicate_key v) (versions w) then (Some (DuplicateKeyError (v_Id v)), w)
          else (None, w\<lparr>versions := versions w @ [v]\<rparr>))"

text \<open>Modelled from the spec: \<open>model.GetNewRevisionOrderNumber\<close> is missing from the
  source.  The counter is atomic and "gapless-or-better": it may skip, and never
  repeats or goes backward.\<close>

definition GetNewRevisionOrderNumber :: "env \<Rightarrow> string \<Rightarrow> world \<Rightarrow> (int \<times> err option) \<times> world" where
  "GetNewRevisionOrderNumber E p w =
     (case counter_err E p of
        Some e \<Rightarrow> ((0, Some e), w)
      | None \<Rightarrow>
          (let n = counters w p + 1 + int (counter_skip E p (counters w p))
           in ((n, None), w\<lparr>counters := (counters w)(p := n)\<rparr>)))"

text \<open>Modelled from the spec: \<open>ProjectRef.String\<close> is missing from the source; the
  project is named by its identifier.\<close>

definition ProjectRef_String :: "ProjectRef \<Rightarrow> string" where
  "ProjectRef_String ref = pr_Identifier ref"

section \<open>Version builder\<close>

text \<open>\<open>shellVersionFromRevision\<close> (lines 981 to 1012): metadata only, a fresh order
  number, nothing stored.  It returns either the error of the counter (with a nil
  version) or the version (with a nil error), hence a sum.\<close>

definition shellVersionFromRevision ::
  "env \<Rightarrow> ProjectRef \<Rightarrow> Revision \<Rightarrow> world \<Rightarrow> (err + Version) \<times> world" where
  "shellVersionFromRevision E ref rv w =
     (let (u, uerr) = FindByGithubUID E (rev_AuthorGithubUID rv);
          w1 = grip_WrapError Error uerr ''failed to fetch everg user with Github UID'' w;
          ((number, nerr), w2) = GetNewRevisionOrderNumber E (pr_Identifier ref) w1
      in case nerr of
           Some e \<Rightarrow> (Inl e, w2)
         | None \<Rightarrow>
             (let v = \<lparr> v_Id = CleanName E (ProjectRef_String ref @ ''_'' @ rev_Revision rv),
                        v_CreateTime = rev_CreateTime rv,
                        v_Revision = rev_Revision rv,
                        v_Author = rev_Author rv,
                        v_AuthorEmail = rev_AuthorEmail rv,
                        v_AuthorID = [],
                        v_Message = rev_RevisionMessage rv,
                        v_Status = VersionCreated,
                        v_RevisionOrderNumber = number,
                        v_Config = [],
                        v_Ignored = False,
                        v_Owner = pr_Owner ref,
                        v_Repo = pr_Repo ref,
                        v_Branch = pr_Branch ref,
                        v_RepoKind = pr_RepoKind ref,
                        v_BuildVariants = [],
                        v_BuildIds = [],
                        v_Identifier = pr_Identifier ref,
                        v_RemotePath = pr_RemotePath ref,
                        v_Requester = RepotrackerVersionRequester,
                        v_Errors = [],
                        v_Warnings = [] \<rparr>
              in (Inr (case u of None \<Rightarrow> v | Some usr \<Rightarrow> v\<lparr>v_AuthorID := u_Id usr\<rparr>), w2)))"

text \<open>\<open>sanityCheckOrderNum\<close> (lines 1015 to 1041).  When the lookup fails the error
  is returned wrapped; when there is no latest version the wrapped nil error is nil.\<close>

definition sanityCheckOrderNum :: "env \<Rightarrow> int \<Rightarrow> string \<Rightarrow> string \<Rightarrow> world \<Rightarrow> err option \<times> world" where
  "sanityCheckOrderNum E revOrderNum projectId revision w =
     (let (latest, e) = FindOne E (ByMostRecentSystemRequester projectId) w
      in if e \<noteq> None \<or> latest = None then (Wrap e ''Error getting latest version'', w)
         else case latest of
           None \<Rightarrow> (None, w)
         | Some l \<Rightarrow>
             if v_Revision l = revision then
               (Some (OtherError ''refusing to add a new version with a duplicate revision id''),
                grip Critical ''attempting to add a duplicate version'' w)
             else if revOrderNum \<le> v_RevisionOrderNumber l then
               (Some (OtherError ''Commit order number isn't greater than last stored version's''), w)
             else (None, w))"


section \<open>Config resolver\<close>

text \<open>Modelled from the spec: \<open>model.FindRepository\<close> and \<open>model.UpdateLastRevision\<close>
  are missing from the source; they read and advance the watermark of a project.\<close>

definition FindRepository :: "env \<Rightarrow> string \<Rightarrow> world \<Rightarrow> string option \<times> err option" where
  "FindRepository E p w =
     (case find_repository_err E p of
        Some e \<Rightarrow> (None, Some e)
      | None \<Rightarrow> (repositories w p, None))"

definition UpdateLastRevision :: "env \<Rightarrow> string \<Rightarrow> string \<Rightarrow> world \<Rightarrow> err option \<times> world" where
  "UpdateLastRevision E p r w =
     (case update_last_revision_err E p r of
        Some e \<Rightarrow> (Some e, w)
      | None \<Rightarrow> (None, w\<lparr>repositories := (repositories w)(p \<mapsto> r)\<rparr>))"

fun is_config_fetch_error :: "err \<Rightarrow> bool" where
  "is_config_fetch_error (APIRequestError m) = True"
| "is_config_fetch_error (FileNotFoundError m) = True"
| "is_config_fetch_error (YAMLFormatError m) = True"
| "is_config_fetch_error e = False"

text \<open>\<open>GetProjectConfig\<close> (lines 779 to 842).  The three errors of fetching a config
  become a \<open>projectConfigError\<close> with one message; every other error is returned as it
  is, after the critical log line.\<close>

definition GetProjectConfig ::
  "env \<Rightarrow> RepoTracker \<Rightarrow> string \<Rightarrow> world \<Rightarrow> (Project option \<times> err option) \<times> world" where
  "GetProjectConfig E rt revision w =
     (let projectRef = rt_ProjectRef rt
      in if pr_LocalConfig projectRef \<noteq> [] then (FindProject E projectRef, w)
         else
           (let (project, e) = GetRemoteConfig rt revision
            in case e of
                 None \<Rightarrow> ((project, None), w)
               | Some x \<Rightarrow>
                   if is_config_fetch_error x then
                     (let msg = Fields_String E
                            [(''message'', ''problem finding project configuration''),
                             (''project'', pr_Identifier projectRef),
                             (''revision'', revision),
                             (''path'', pr_RemotePath projectRef)]
                      in ((None, Some (projectConfigError [msg] [])), grip Error msg w))
                   else
                     (let (repository, fErr) = FindRepository E (pr_Identifier projectRef) w;
                          w1 = (if fErr \<noteq> None \<or> repository = None
                                then grip_WrapError Error fErr ''problem finding repository'' w
                                else w)
                      in ((None, Some x), grip Critical ''repotracker configuration problem'' w1))))"

section \<open>Build-break subscriptions\<close>

datatype 'a go = Panicked | Returned 'a

text \<open>The values of \<open>user.PreferenceEmail\<close> and \<open>user.PreferenceSlack\<close> are declared
  outside the given source.\<close>

definition PreferenceEmail :: string where
  "PreferenceEmail = ''email''"

definition PreferenceSlack :: string where
  "PreferenceSlack = ''slack''"

definition makeBuildBreakSubscriber :: "env \<Rightarrow> string \<Rightarrow> Subscriber option \<times> err option" where
  "makeBuildBreakSubscriber E userID =
     (let (u, e) = user_FindOne E userID
      in case e of
           Some x \<Rightarrow> (None, Wrap (Some x) ''unable to find user'')
         | None \<Rightarrow>
             (case u of
                None \<Rightarrow> (None, Some (OtherError ''user does not exist''))
              | Some usr \<Rightarrow>
                  (let preference = u_BuildBreak usr
                   in if preference \<noteq> [] then
                        (if preference = PreferenceEmail then
                           (Some \<lparr>sub_Type = preference, sub_Target = u_Email usr\<rparr>, None)
                         else if preference = PreferenceSlack then
                           (Some \<lparr>sub_Type = preference, sub_Target = u_SlackUsername usr\<rparr>, None)
                         else (None, Some (OtherError ''invalid subscription preference for build break'')))
                      else (None, None))))"

text \<open>The catcher collects the errors added to it; \<open>Resolve\<close> is nil when there is none.\<close>

definition catcher_Add :: "err option \<Rightarrow> err list \<Rightarrow> err list" where
  "catcher_Add e c = (case e of None \<Rightarrow> c | Some x \<Rightarrow> c @ [x])"

definition catcher_Resolve :: "err list \<Rightarrow> err option" where
  "catcher_Resolve c = (case c of [] \<Rightarrow> None | x # xs \<Rightarrow> Some (Wrapped ''catcher'' x))"

fun admin_subscribers :: "env \<Rightarrow> string list \<Rightarrow> Subscriber list \<Rightarrow> err list \<Rightarrow> Subscriber list \<times> err list" where
  "admin_subscribers E [] subscribers c = (subscribers, c)"
| "admin_subscribers E (admin # admins) subscribers c =
     (let (subscriber, e) = makeBuildBreakSubscriber E admin
      in case e of
           Some x \<Rightarrow> admin_subscribers E admins subscribers (catcher_Add (Some x) c)
         | None \<Rightarrow>
             (case subscriber of
                None \<Rightarrow> admin_subscribers E admins subscribers c
              | Some s \<Rightarrow> admin_subscribers E admins (subscribers @ [s]) c))"

definition Upsert :: "env \<Rightarrow> Subscription \<Rightarrow> world \<Rightarrow> err option \<times> world" where
  "Upsert E s w =
     (case upsert_err E s of
        Some e \<Rightarrow> (Some e, w)
      | None \<Rightarrow> (None, w\<lparr>subscriptions := subscriptions w @ [s]\<rparr>))"

fun upsert_all :: "env \<Rightarrow> string \<Rightarrow> Subscriber list \<Rightarrow> err list \<Rightarrow> world \<Rightarrow> err list \<times> world" where
  "upsert_all E p [] c w = (c, w)"
| "upsert_all E p (subscriber # subscribers) c w =
     (let (e, w1) = Upsert E \<lparr>sn_Trigger = ''build-break'', sn_Project = p, sn_Subscriber = subscriber\<rparr> w
      in upsert_all E p subscribers (catcher_Add e c) w1)"

definition notify_admins :: "env \<Rightarrow> ProjectRef \<Rightarrow> err list \<Rightarrow> world \<Rightarrow> err option go \<times> world" where
  "notify_admins E projectRef c w =
     (if \<not> pr_NotifyOnBuildFailure projectRef then (Returned None, w)
      else
        (let (subscribers, c1) = admin_subscribers E (pr_Admins projectRef) [] c;
             (c2, w1) = upsert_all E (pr_Identifier projectRef) subscribers c1 w
         in (Returned (catcher_Resolve c2), w1)))"

text \<open>\<open>addBuildBreakSubscriptions\<close> (lines 844 to 899).  A lookup of the author that
  returns neither a user nor an error makes \<open>author.Settings\<close> a nil dereference.\<close>

definition addBuildBreakSubscriptions ::
  "env \<Rightarrow> Version \<Rightarrow> ProjectRef \<Rightarrow> world \<Rightarrow> err option go \<times> world" where
  "addBuildBreakSubscriptions E v projectRef w =
     (if v_AuthorID v \<noteq> [] then
        (let (author, e) = user_FindOne E (v_AuthorID v)
         in case e of
              Some x \<Rightarrow> notify_admins E projectRef (catcher_Add (Wrap (Some x) ''unable to retrieve user'') []) w
            | None \<Rightarrow>
                (case author of
                   None \<Rightarrow> (Panicked, w)
                 | Some a \<Rightarrow>
                     if u_BuildBreakID a \<noteq> [] then (Returned None, w)
                     else notify_admins E projectRef [] w))
      else notify_admins E projectRef [] w)"

section \<open>Build and task expander\<close>

text \<open>Modelled from the spec: \<open>model.NewTaskIdTable\<close>, \<open>model.CreateBuildFromVersion\<close>,
  \<open>model.DeleteBuild\<close> and \<open>ProjectRef.GetBatchTime\<close> are missing from the source.  The
  table names every task of the enabled build variants; creating a build stores the
  Build of the named variant and one Task for each of its tasks; deleting a build
  removes it with its tasks, as a unit; the batch time of a variant is its own
  override, or else the default of the project.\<close>

definition NewTaskIdTable :: "env \<Rightarrow> Project \<Rightarrow> Version \<Rightarrow> ((string \<times> string) \<times> string) list" where
  "NewTaskIdTable E project v =
     concat (map (\<lambda>bv. map (\<lambda>tn. ((bv_Name bv, tn), TaskId E (v_Id v) (bv_Name bv) tn)) (bv_Tasks bv))
                 (filter (\<lambda>bv. \<not> bv_Disabled bv) (p_BuildVariants project)))"

definition task_id_of :: "((string \<times> string) \<times> string) list \<Rightarrow> string \<Rightarrow> string \<Rightarrow> string" where
  "task_id_of taskIds n tn = (case map_of taskIds (n, tn) of None \<Rightarrow> [] | Some i \<Rightarrow> i)"

definition CreateBuildFromVersion ::
  "env \<Rightarrow> Project \<Rightarrow> Version \<Rightarrow> ((string \<times> string) \<times> string) list \<Rightarrow> string \<Rightarrow> world
     \<Rightarrow> (string \<times> err option) \<times> world" where
  "CreateBuildFromVersion E project v taskIds buildName w =
     (case create_build_err E (v_Id v) buildName of
        Some e \<Rightarrow> (([], Some e), w)
      | None \<Rightarrow>
          (case List.find (\<lambda>bv. bv_Name bv = buildName) (p_BuildVariants project) of
             None \<Rightarrow> (([], Some (OtherError ''could not find build variant'')), w)
           | Some bv \<Rightarrow>
               (let bid = BuildId E (v_Id v) buildName;
                    ts = map (\<lambda>tn. \<lparr> t_Id = task_id_of taskIds buildName tn, t_BuildId = bid,
                                     t_BuildVariant = buildName, t_DisplayName = tn,
                                     t_Version = v_Id v \<rparr>) (bv_Tasks bv);
                    b = \<lparr> b_Id = bid, b_Version = v_Id v, b_BuildVariant = buildName,
                          b_Tasks = map t_Id ts \<rparr>
                in ((bid, None), w\<lparr>builds := builds w @ [b], tasks := tasks w @ ts\<rparr>))))"

definition DeleteBuild :: "env \<Rightarrow> string \<Rightarrow> world \<Rightarrow> err option \<times> world" where
  "DeleteBuild E bid w =
     (case delete_build_err E bid of
        Some e \<Rightarrow> (Some e, w)
      | None \<Rightarrow> (None, w\<lparr>builds := filter (\<lambda>b. b_Id b \<noteq> bid) (builds w),
                          tasks := filter (\<lambda>t. t_BuildId t \<noteq> bid) (tasks w)\<rparr>))"

definition GetBatchTime :: "ProjectRef \<Rightarrow> BuildVariant \<Rightarrow> int" where
  "GetBatchTime ref bv = (case bv_BatchTime bv of Some n \<Rightarrow> n | None \<Rightarrow> pr_BatchTime ref)"

text \<open>\<open>time.Minute * time.Duration(n)\<close>: a product of signed 64-bit integers, which
  wraps; \<open>Time.Add\<close> then moves the instant by that many nanoseconds.\<close>

definition minutes_Duration :: "int \<Rightarrow> 64 word" where
  "minutes_Duration n = (word_of_int 60000000000 :: 64 word) * word_of_int n"

definition Time_Add :: "time \<Rightarrow> 64 word \<Rightarrow> time" where
  "Time_Add t d = t + sint d"

text \<open>The scan of \<open>lastActivated.BuildVariants\<close> (lines 1065 to 1073): the first status of
  the variant that is activated.\<close>

definition lastActivation_of :: "string \<Rightarrow> Version option \<Rightarrow> time option" where
  "lastActivation_of n lastActivated =
     (case lastActivated of
        None \<Rightarrow> None
      | Some la \<Rightarrow>
          (case List.find (\<lambda>s. bs_BuildVariant s = n \<and> bs_Activated s) (v_BuildVariants la) of
             None \<Rightarrow> None
           | Some s \<Rightarrow> Some (bs_ActivateAt s)))"

definition compute_activateAt :: "env \<Rightarrow> ProjectRef \<Rightarrow> string \<Rightarrow> BuildVariant \<Rightarrow> time option \<Rightarrow> time" where
  "compute_activateAt E ref vid bv lastActivation =
     (case lastActivation of
        None \<Rightarrow> time_Now E vid (bv_Name bv)
      | Some t \<Rightarrow> Time_Add t (minutes_Duration (GetBatchTime ref bv)))"

text \<open>The loop over \<open>project.BuildVariants\<close> (lines 1050 to 1098).\<close>

fun create_builds ::
  "env \<Rightarrow> ProjectRef \<Rightarrow> Project \<Rightarrow> ((string \<times> string) \<times> string) list \<Rightarrow> BuildVariant list
     \<Rightarrow> Version \<Rightarrow> world \<Rightarrow> err option \<times> Version \<times> world" where
  "create_builds E ref project taskIds [] v w = (None, v, w)"
| "create_builds E ref project taskIds (bv # bvs) v w =
     (if bv_Disabled bv then create_builds E ref project taskIds bvs v w
      else
        (let ((buildId, e), w1) = CreateBuildFromVersion E project v taskIds (bv_Name bv) w
         in case e of
              Some x \<Rightarrow> (WithStack (Some x), v, w1)
            | None \<Rightarrow>
                (let (lastActivated, e2) =
                       FindOne E (ByLastVariantActivation (pr_Identifier ref) (bv_Name bv)) w1
                 in case e2 of
                      Some x \<Rightarrow> (Wrap (Some x) ''problem getting activatation time for variant'', v, w1)
                    | None \<Rightarrow>
                        (let activateAt = compute_activateAt E ref (v_Id v) bv
                                            (lastActivation_of (bv_Name bv) lastActivated)
                         in create_builds E ref project taskIds bvs
                              (v\<lparr> v_BuildIds := v_BuildIds v @ [buildId],
                                  v_BuildVariants := v_BuildVariants v @
                                    [\<lparr> bs_BuildVariant = bv_Name bv, bs_Activated = False,
                                       bs_ActivateAt = activateAt, bs_BuildId = buildId \<rparr>] \<rparr>)
                              w1))))"

text \<open>The compensating loop (lines 1107 to 1116): a failed delete is logged only.\<close>

fun delete_builds :: "env \<Rightarrow> BuildStatus list \<Rightarrow> world \<Rightarrow> world" where
  "delete_builds E [] w = w"
| "delete_builds E (buildStatus # rest) w =
     (let (buildErr, w1) = DeleteBuild E (bs_BuildId buildStatus) w
      in delete_builds E rest (grip_WrapError Error buildErr ''issue deleting build'' w1))"

text \<open>\<open>createVersionItems\<close> (lines 1045 to 1120).  The version is updated in place in
  the source, so the updated version is returned with the error.\<close>

definition createVersionItems ::
  "env \<Rightarrow> Version \<Rightarrow> ProjectRef \<Rightarrow> Project \<Rightarrow> world \<Rightarrow> err option \<times> Version \<times> world" where
  "createVersionItems E v ref project w =
     (let taskIds = NewTaskIdTable E project v;
          (e, v1, w1) = create_builds E ref project taskIds (p_BuildVariants project) v w
      in case e of
           Some x \<Rightarrow> (Some x, v1, w1)
         | None \<Rightarrow>
             (let (ie, w2) = Insert E v1 w1
              in case ie of
                   None \<Rightarrow> (None, v1, w2)
                 | Some x \<Rightarrow>
                     if \<not> IsDuplicateKey x then
                       (WithStack (Some x), v1,
                        delete_builds E (v_BuildVariants v1) (grip Error ''problem inserting version'' w2))
                     else (None, v1, w2)))"


section \<open>Creating a version from a resolved config\<close>

text \<open>The split of the validator's diagnostics (lines 956 to 962).\<close>

definition projectWarnings_of :: "ValidationError list \<Rightarrow> string list" where
  "projectWarnings_of verrs = map val_Message (filter (\<lambda>e. val_Level e = VWarning) verrs)"

definition projectErrors_of :: "ValidationError list \<Rightarrow> string list" where
  "projectErrors_of verrs = map val_Message (filter (\<lambda>e. val_Level e \<noteq> VWarning) verrs)"

text \<open>\<open>CreateVersionFromConfig\<close> (lines 927 to 977).  The project reference is never
  nil here (the tracker dereferences it before); the config may be.\<close>

definition CreateVersionFromConfig ::
  "env \<Rightarrow> ProjectRef \<Rightarrow> Project option \<Rightarrow> Revision \<Rightarrow> bool \<Rightarrow> VersionErrors option \<Rightarrow> world
     \<Rightarrow> (Version option \<times> err option) \<times> world" where
  "CreateVersionFromConfig E ref config rv ignore versionErrs w =
     (case config of
        None \<Rightarrow> ((None, Some (OtherError ''project ref and project cannot be nil'')), w)
      | Some cfg \<Rightarrow>
          (let (sv, w1) = shellVersionFromRevision E ref rv w
           in case sv of
                Inl x \<Rightarrow> ((None, Wrap (Some x) ''unable to create shell version''), w1)
              | Inr v0 \<Rightarrow>
                  (let (se, w2) = sanityCheckOrderNum E (v_RevisionOrderNumber v0)
                                    (pr_Identifier ref) (rev_Revision rv) w1
                   in case se of
                        Some x \<Rightarrow> ((None, Wrap (Some x) ''inconsistent version order''), w2)
                      | None \<Rightarrow>
                          (let (configYaml, ye) = yaml_Marshal E cfg
                           in case ye of
                                Some x \<Rightarrow> ((None, Wrap (Some x) ''error marshaling config''), w2)
                              | None \<Rightarrow>
                                  (let v1 = v0\<lparr>v_Config := configYaml, v_Ignored := ignore\<rparr>;
                                       (verrs, ce) = CheckProjectSyntax E cfg
                                   in case ce of
                                        Some x \<Rightarrow> ((None, Wrap (Some x) ''error validating project''), w2)
                                      | None \<Rightarrow>
                                          (let v2 =
                                             (if verrs \<noteq> [] \<or> versionErrs \<noteq> None then
                                                v1\<lparr> v_Warnings := projectWarnings_of verrs @
                                                       (case versionErrs of None \<Rightarrow> [] | Some ve \<Rightarrow> ve_Warnings ve),
                                                     v_Errors := projectErrors_of verrs @
                                                       (case versionErrs of None \<Rightarrow> [] | Some ve \<Rightarrow> ve_Errors ve) \<rparr>
                                              else v1)
                                           in if (verrs \<noteq> [] \<or> versionErrs \<noteq> None) \<and> v_Errors v2 \<noteq> [] then
                                                (let (ie, w3) = Insert E v2 w2
                                                 in ((Some v2, Wrap ie ''error inserting version''), w3))
                                              else
                                                (let (ie, v3, w3) = createVersionItems E v2 ref cfg w2
                                                 in ((Some v3, Wrap ie ''error creating version items''), w3))))))))"

section \<open>Tracker orchestrator\<close>

datatype step = Continue "Version option" | Return "Version option" "err option" | NilDereference

text \<open>The recoverable branch of the loop body (lines 698 to 719).  When the shell
  version could not be made, \<open>stubVersion\<close> is nil and the assignment to
  \<open>stubVersion.Errors\<close> is a nil dereference.\<close>

definition store_stub ::
  "env \<Rightarrow> ProjectRef \<Rightarrow> Revision \<Rightarrow> VersionErrors \<Rightarrow> world \<Rightarrow> step \<times> world" where
  "store_stub E ref rv versionErrs w =
     (let (stubVersion, w1) = shellVersionFromRevision E ref rv w
      in case stubVersion of
           Inl dbErr \<Rightarrow> (NilDereference, grip Error ''error creating shell version'' w1)
         | Inr sv \<Rightarrow>
             (let stub = sv\<lparr>v_Errors := ve_Errors versionErrs, v_Warnings := ve_Warnings versionErrs\<rparr>;
                  (ie, w2) = Insert E stub w1
              in (Continue (Some stub), grip_WrapError Error ie ''error inserting shell version'' w2)))"

text \<open>Modelled from the spec: \<open>Project.IgnoresAllFiles\<close> is missing from the source;
  it holds when every changed file matches the ignore patterns.\<close>

definition IgnoresAllFiles :: "env \<Rightarrow> Project \<Rightarrow> string list \<Rightarrow> bool" where
  "IgnoresAllFiles E project filenames = list_all (MatchesPath E (p_Ignore project)) filenames"

text \<open>The end of the loop body (lines 750 to 770).\<close>

definition store_version ::
  "env \<Rightarrow> ProjectRef \<Rightarrow> Project \<Rightarrow> Revision \<Rightarrow> bool \<Rightarrow> VersionErrors option \<Rightarrow> Version option
     \<Rightarrow> world \<Rightarrow> step \<times> world" where
  "store_version E ref project rv ignore versionErrs newestVersion w =
     (let ((v, e), w1) = CreateVersionFromConfig E ref (Some project) rv ignore versionErrs w
      in case e of
           Some x \<Rightarrow> (Continue newestVersion, grip Error ''error creating version'' w1)
         | None \<Rightarrow>
             (case v of
                None \<Rightarrow> (NilDereference, w1)
              | Some ver \<Rightarrow>
                  (case addBuildBreakSubscriptions E ver ref w1 of
                     (Panicked, w2) \<Rightarrow> (NilDereference, w2)
                   | (Returned (Some x), w2) \<Rightarrow>
                       (Continue newestVersion, grip Error ''error creating build break subscriptions'' w2)
                   | (Returned None, w2) \<Rightarrow> (Continue (Some ver), w2))))"

text \<open>The ignore check (lines 731 to 748).  \<open>project.Ignore\<close> dereferences the config.\<close>

definition check_ignore_and_store ::
  "env \<Rightarrow> RepoTracker \<Rightarrow> Project option \<Rightarrow> Revision \<Rightarrow> VersionErrors option \<Rightarrow> Version option
     \<Rightarrow> world \<Rightarrow> step \<times> world" where
  "check_ignore_and_store E rt project rv versionErrs newestVersion w =
     (case project of
        None \<Rightarrow> (NilDereference, w)
      | Some p \<Rightarrow>
          if p_Ignore p \<noteq> [] then
            (let (filenames, e) = GetChangedFiles rt (rev_Revision rv)
             in case e of
                  Some x \<Rightarrow> (Continue newestVersion, grip Error ''error checking GitHub for ignored files'' w)
                | None \<Rightarrow>
                    store_version E (rt_ProjectRef rt) p rv (IgnoresAllFiles E p filenames)
                      versionErrs newestVersion w)
          else store_version E (rt_ProjectRef rt) p rv False versionErrs newestVersion w)"

text \<open>One iteration of the loop of \<open>StoreRevisions\<close> (lines 662 to 771).\<close>

definition StoreRevisions_body ::
  "env \<Rightarrow> RepoTracker \<Rightarrow> Revision \<Rightarrow> Version option \<Rightarrow> world \<Rightarrow> step \<times> world" where
  "StoreRevisions_body E rt rv newestVersion w =
     (let ref = rt_ProjectRef rt;
          revision = rev_Revision rv;
          (existingVersion, e0) = FindOne E (ByProjectIdAndRevision (pr_Identifier ref) revision) w;
          w0 = grip_WrapError Error e0 ''problem looking up version for project'' w
      in case existingVersion of
           Some ex \<Rightarrow> (Continue (Some ex), w0)
         | None \<Rightarrow>
             (let ((project, e1), w1) = GetProjectConfig E rt revision w0
              in case e1 of
                   None \<Rightarrow> check_ignore_and_store E rt project rv None newestVersion w1
                 | Some (projectConfigError errs warns) \<Rightarrow>
                     (let versionErrs = \<lparr>ve_Errors = errs, ve_Warnings = warns\<rparr>
                      in if errs \<noteq> [] then store_stub E ref rv versionErrs w1
                         else check_ignore_and_store E rt project rv (Some versionErrs) newestVersion w1)
                 | Some x \<Rightarrow> (Return None (Some x), grip Error ''error getting project config'' w1)))"

text \<open>The loop runs from the last element of the slice to the first, so
  \<open>StoreRevisions\<close> hands the reversed list to this function.\<close>

fun StoreRevisions_loop ::
  "env \<Rightarrow> RepoTracker \<Rightarrow> Revision list \<Rightarrow> Version option \<Rightarrow> world \<Rightarrow> step \<times> world" where
  "StoreRevisions_loop E rt [] newestVersion w = (Continue newestVersion, w)"
| "StoreRevisions_loop E rt (rv # rvs) newestVersion w =
     (case StoreRevisions_body E rt rv newestVersion w of
        (Continue n, w1) \<Rightarrow> StoreRevisions_loop E rt rvs n w1
      | (Return n e, w1) \<Rightarrow> (Return n e, w1)
      | (NilDereference, w1) \<Rightarrow> (NilDereference, w1))"

text \<open>The deferred function (lines 655 to 660) replaces both results by a fresh lookup
  of the newest version by id, when there is one.\<close>

definition deferred_refetch ::
  "env \<Rightarrow> Version option \<Rightarrow> err option \<Rightarrow> world \<Rightarrow> Version option \<times> err option" where
  "deferred_refetch E newestVersion e w =
     (case newestVersion of
        None \<Rightarrow> (None, e)
      | Some n \<Rightarrow> FindOne E (ById (v_Id n)) w)"

definition StoreRevisions ::
  "env \<Rightarrow> RepoTracker \<Rightarrow> Revision list \<Rightarrow> world \<Rightarrow> (Version option \<times> err option) go \<times> world" where
  "StoreRevisions E rt revisions w =
     (case StoreRevisions_loop E rt (rev revisions) None w of
        (Continue n, w1) \<Rightarrow> (Returned (deferred_refetch E n None w1), w1)
      | (Return n e, w1) \<Rightarrow> (Returned (deferred_refetch E n e w1), w1)
      | (NilDereference, w1) \<Rightarrow> (Panicked, w1))"

definition DefaultNumNewRepoRevisionsToFetch :: int where
  "DefaultNumNewRepoRevisionsToFetch = 200"

definition DefaultMaxRepoRevisionsToSearch :: int where
  "DefaultMaxRepoRevisionsToSearch = 50"

text \<open>The poll of \<open>FetchRevisions\<close> (lines 557 to 602): \<open>None\<close> when the sticky tracker
  error makes the run stop with success.\<close>

definition poll_revisions ::
  "RepoTracker \<Rightarrow> string \<Rightarrow> (Revision list \<times> err option) option" where
  "poll_revisions rt lastRevision =
     (let settings = rt_Settings rt; projectRef = rt_ProjectRef rt
      in if lastRevision = [] then
           Some (GetRecentRevisions rt
                   (if NumNewRepoRevisionsToFetch settings \<le> 0 then DefaultNumNewRepoRevisionsToFetch
                    else NumNewRepoRevisionsToFetch settings))
         else if pr_RepotrackerError projectRef = Some True then None
         else
           Some (GetRevisionsSince rt lastRevision
                   (if MaxRepoRevisionsToSearch settings \<le> 0 then DefaultMaxRepoRevisionsToSearch
                    else MaxRepoRevisionsToSearch settings)))"

text \<open>The tail of \<open>FetchRevisions\<close> (lines 635 to 646).\<close>

definition activate_project :: "env \<Rightarrow> string \<Rightarrow> world \<Rightarrow> err option go \<times> world" where
  "activate_project E projectIdentifier w =
     (let (e, w1) = DoProjectActivation E projectIdentifier w
      in case e of
           Some x \<Rightarrow> (Returned (WithStack (Some x)),
                      grip Error ''problem activating recent commit for project'' w1)
         | None \<Rightarrow> (Returned None, w1))"

text \<open>\<open>FetchRevisions\<close> (lines 535 to 647).  \<open>StoreRevisions\<close> can return neither a
  version nor an error; \<open>lastVersion.Identifier\<close> is then a nil dereference.\<close>

definition FetchRevisions :: "env \<Rightarrow> RepoTracker \<Rightarrow> world \<Rightarrow> err option go \<times> world" where
  "FetchRevisions E rt w =
     (let projectRef = rt_ProjectRef rt;
          projectIdentifier = ProjectRef_String projectRef
      in if \<not> pr_Enabled projectRef then (Returned None, w)
         else
           (let (repository, e) = FindRepository E projectIdentifier w
            in case e of
                 Some x \<Rightarrow> (Returned (Wrap (Some x) ''error finding repository''), w)
               | None \<Rightarrow>
                   (case poll_revisions rt (case repository of None \<Rightarrow> [] | Some r \<Rightarrow> r) of
                      None \<Rightarrow> (Returned None, grip Warning ''repotracker error for base revision'' w)
                    | Some (revisions, Some x) \<Rightarrow>
                        (Returned None, grip Error ''problem fetching revisions for repository'' w)
                    | Some (revisions, None) \<Rightarrow>
                        if revisions \<noteq> [] then
                          (case StoreRevisions E rt revisions w of
                             (Panicked, w1) \<Rightarrow> (Panicked, w1)
                           | (Returned (lastVersion, Some x), w1) \<Rightarrow>
                               (Returned (WithStack (Some x)),
                                grip Error ''problem sorting revisions for repository'' w1)
                           | (Returned (None, None), w1) \<Rightarrow> (Panicked, w1)
                           | (Returned (Some lv, None), w1) \<Rightarrow>
                               (let (ue, w2) = UpdateLastRevision E (v_Identifier lv) (v_Revision lv) w1
                                in case ue of
                                     Some x \<Rightarrow>
                                       (Returned (WithStack (Some x)),
                                        grip Error ''problem updating last revision for repository'' w2)
                                   | None \<Rightarrow> activate_project E projectIdentifier w2))
                        else activate_project E projectIdentifier w)))"


section \<open>A small project, used to run the definitions\<close>

definition ex_env :: env where
  "ex_env =
     \<lparr> find_err = (\<lambda>q. None),
       insert_err = (\<lambda>v. None),
       counter_err = (\<lambda>p. None),
       counter_skip = (\<lambda>p n. 0),
       create_build_err = (\<lambda>v n. None),
       delete_build_err = (\<lambda>b. None),
       find_repository_err = (\<lambda>p. None),
       update_last_revision_err = (\<lambda>p r. None),
       upsert_err = (\<lambda>s. None),
       FindByGithubUID = (\<lambda>u. (None, None)),
       user_FindOne = (\<lambda>i. (None, None)),
       FindProject = (\<lambda>r. (None, Some (OtherError ''no local config''))),
       CheckProjectSyntax = (\<lambda>p. ([], None)),
       yaml_Marshal = (\<lambda>p. (''yaml'', None)),
       CleanName = (\<lambda>s. s),
       BuildId = (\<lambda>v n. v @ ''_'' @ n),
       TaskId = (\<lambda>v n t. v @ ''_'' @ n @ ''_'' @ t),
       MatchesPath = (\<lambda>pats f. List.member pats f),
       time_Now = (\<lambda>v n. 1000),
       Fields_String = (\<lambda>fs. concat (map snd fs)),
       DoProjectActivation = (\<lambda>p w. (None, w)) \<rparr>"

definition ex_ref :: ProjectRef where
  "ex_ref =
     \<lparr> pr_Identifier = ''p'', pr_Owner = ''o'', pr_Repo = ''r'', pr_Branch = ''main'',
       pr_RepoKind = ''github'', pr_RemotePath = ''ci.yml'', pr_LocalConfig = [],
       pr_Enabled = True, pr_RepotrackerError = None, pr_NotifyOnBuildFailure = False,
       pr_Admins = [], pr_BatchTime = 60 \<rparr>"

definition ex_project :: Project where
  "ex_project =
     \<lparr> p_Ignore = [],
       p_BuildVariants =
         [\<lparr> bv_Name = ''linux'', bv_Disabled = False, bv_BatchTime = None, bv_Tasks = [''compile''] \<rparr>,
          \<lparr> bv_Name = ''osx'', bv_Disabled = True, bv_BatchTime = Some 30, bv_Tasks = [''test''] \<rparr>] \<rparr>"

definition ex_revision :: "string \<Rightarrow> Revision" where
  "ex_revision r =
     \<lparr> rev_Author = ''a'', rev_AuthorEmail = ''a@x'', rev_AuthorGithubUID = 1,
       rev_RevisionMessage = ''m'', rev_Revision = r, rev_CreateTime = 5 \<rparr>"

definition ex_version :: "string \<Rightarrow> int \<Rightarrow> BuildStatus list \<Rightarrow> Version" where
  "ex_version r n sts =
     \<lparr> v_Id = ''p_'' @ r, v_CreateTime = 5, v_Revision = r, v_Author = ''a'',
       v_AuthorEmail = ''a@x'', v_AuthorID = [], v_Message = ''m'', v_Status = VersionCreated,
       v_RevisionOrderNumber = n, v_Config = [], v_Ignored = False, v_Owner = ''o'',
       v_Repo = ''r'', v_Branch = ''main'', v_RepoKind = ''github'', v_BuildVariants = sts,
       v_BuildIds = map bs_BuildId sts, v_Identifier = ''p'', v_RemotePath = ''ci.yml'',
       v_Requester = RepotrackerVersionRequester, v_Errors = [], v_Warnings = [] \<rparr>"

definition ex_world :: "Version list \<Rightarrow> int \<Rightarrow> world" where
  "ex_world vs n =
     \<lparr> versions = vs, builds = [], tasks = [], repositories = (\<lambda>p. None),
       counters = (\<lambda>p. n), subscriptions = [], logs = [] \<rparr>"

definition ex_tracker ::
  "(string \<Rightarrow> Project option \<times> err option) \<Rightarrow> (string \<Rightarrow> string list \<times> err option)
     \<Rightarrow> Revision list \<Rightarrow> RepoTracker" where
  "ex_tracker remote changed revisions =
     \<lparr> rt_Settings = \<lparr> NumNewRepoRevisionsToFetch = 0, MaxRepoRevisionsToSearch = 0 \<rparr>,
       rt_ProjectRef = ex_ref,
       GetRemoteConfig = remote,
       GetChangedFiles = changed,
       GetRevisionsSince = (\<lambda>r n. (revisions, None)),
       GetRecentRevisions = (\<lambda>n. (revisions, None)) \<rparr>"


section \<open>Vocabulary of the proofs\<close>

text \<open>
  What one call may do to the version collection, the counter of project \<open>p\<close> and the
  watermarks: the watermarks stay, the counter does not go back, and at most one
  version is appended, of project \<open>p\<close> and numbered after the old counter value and
  at most the new one.
\<close>

definition step_ok :: "string \<Rightarrow> world \<Rightarrow> world \<Rightarrow> bool" where
  "step_ok p w w' =
     (repositories w' = repositories w \<and> counters w p \<le> counters w' p \<and>
      (versions w' = versions w \<or>
       (\<exists>v. versions w' = versions w @ [v] \<and> v_Identifier v = p \<and>
            counters w p < v_RevisionOrderNumber v \<and> v_RevisionOrderNumber v \<le> counters w' p)))"

text \<open>The same for a whole run: the appended versions are numbered in increasing order.\<close>

definition run_ok :: "string \<Rightarrow> world \<Rightarrow> world \<Rightarrow> bool" where
  "run_ok p w w' =
     (repositories w' = repositories w \<and> counters w p \<le> counters w' p \<and>
      (\<exists>new. versions w' = versions w @ new \<and>
             list_all (\<lambda>v. v_Identifier v = p \<and> counters w p < v_RevisionOrderNumber v \<and>
                            v_RevisionOrderNumber v \<le> counters w' p) new \<and>
             sorted_wrt (<) (map v_RevisionOrderNumber new)))"

section \<open>Frame properties of the operations\<close>


lemma grip_frame [simp]:
  "versions (grip l m w) = versions w"
  "builds (grip l m w) = builds w"
  "tasks (grip l m w) = tasks w"
  "repositories (grip l m w) = repositories w"
  "counters (grip l m w) = counters w"
  "subscriptions (grip l m w) = subscriptions w"
  "logs (grip l m w) = logs w @ [(l, m)]"
  by (simp_all add: grip_def)

lemma grip_WrapError_frame [simp]:
  "versions (grip_WrapError l e m w) = versions w"
  "builds (grip_WrapError l e m w) = builds w"
  "tasks (grip_WrapError l e m w) = tasks w"
  "repositories (grip_WrapError l e m w) = repositories w"
  "counters (grip_WrapError l e m w) = counters w"
  "subscriptions (grip_WrapError l e m w) = subscriptions w"
  by (simp_all add: grip_WrapError_def split: option.splits)

lemma grip_WrapError_simps [simp]:
  "grip_WrapError l None m w = w"
  "grip_WrapError l (Some x) m w = grip l m w"
  by (simp_all add: grip_WrapError_def)

lemma Wrap_simps [simp]:
  "Wrap None m = None"
  "Wrap (Some x) m = Some (Wrapped m x)"
  "(Wrap e m = None) = (e = None)"
  by (simp_all add: Wrap_def split: option.splits)

lemma WithStack_simps [simp]:
  "WithStack None = None"
  "WithStack (Some x) = Some (Wrapped [] x)"
  by (simp_all add: WithStack_def)

lemma Insert_frame [simp]:
  "builds (snd (Insert E v w)) = builds w"
  "tasks (snd (Insert E v w)) = tasks w"
  "repositories (snd (Insert E v w)) = repositories w"
  "counters (snd (Insert E v w)) = counters w"
  "subscriptions (snd (Insert E v w)) = subscriptions w"
  "logs (snd (Insert E v w)) = logs w"
  by (simp_all add: Insert_def split: option.splits)

lemma Insert_versions:
  "versions (snd (Insert E v w)) = (if fst (Insert E v w) = None then versions w @ [v] else versions w)"
  by (simp add: Insert_def split: option.splits)

lemma Insert_failed: "fst (Insert E v w) = Some x \<Longrightarrow> snd (Insert E v w) = w"
  by (simp add: Insert_def split: option.splits if_splits)

lemma GetNewRevisionOrderNumber_frame [simp]:
  "versions (snd (GetNewRevisionOrderNumber E p w)) = versions w"
  "builds (snd (GetNewRevisionOrderNumber E p w)) = builds w"
  "tasks (snd (GetNewRevisionOrderNumber E p w)) = tasks w"
  "repositories (snd (GetNewRevisionOrderNumber E p w)) = repositories w"
  "subscriptions (snd (GetNewRevisionOrderNumber E p w)) = subscriptions w"
  "logs (snd (GetNewRevisionOrderNumber E p w)) = logs w"
  by (simp_all add: GetNewRevisionOrderNumber_def Let_def split: option.splits)

lemma shellVersionFromRevision_frame [simp]:
  "versions (snd (shellVersionFromRevision E ref rv w)) = versions w"
  "builds (snd (shellVersionFromRevision E ref rv w)) = builds w"
  "tasks (snd (shellVersionFromRevision E ref rv w)) = tasks w"
  "repositories (snd (shellVersionFromRevision E ref rv w)) = repositories w"
  "subscriptions (snd (shellVersionFromRevision E ref rv w)) = subscriptions w"
  by (simp_all add: shellVersionFromRevision_def Let_def split_def split: option.splits)

lemma shellVersionFromRevision_Inr:
  assumes "fst (shellVersionFromRevision E ref rv w) = Inr v"
  shows "v_RevisionOrderNumber v = counters (snd (shellVersionFromRevision E ref rv w)) (pr_Identifier ref)"
    and "counters w (pr_Identifier ref) < v_RevisionOrderNumber v"
    and "v_Identifier v = pr_Identifier ref"
    and "v_Revision v = rev_Revision rv"
    and "v_BuildVariants v = []"
    and "v_BuildIds v = []"
    and "v_Errors v = []"
    and "v_Ignored v = False"
  using assms
  by (auto simp add: shellVersionFromRevision_def GetNewRevisionOrderNumber_def Let_def split_def
      split: option.splits)

lemma shellVersionFromRevision_counters:
  "counters w p \<le> counters (snd (shellVersionFromRevision E ref rv w)) p"
  by (simp add: shellVersionFromRevision_def GetNewRevisionOrderNumber_def Let_def split_def
      split: option.splits)

lemma sanityCheckOrderNum_frame [simp]:
  "versions (snd (sanityCheckOrderNum E n p r w)) = versions w"
  "builds (snd (sanityCheckOrderNum E n p r w)) = builds w"
  "tasks (snd (sanityCheckOrderNum E n p r w)) = tasks w"
  "repositories (snd (sanityCheckOrderNum E n p r w)) = repositories w"
  "counters (snd (sanityCheckOrderNum E n p r w)) = counters w"
  "subscriptions (snd (sanityCheckOrderNum E n p r w)) = subscriptions w"
  by (simp_all add: sanityCheckOrderNum_def Let_def split_def split: option.splits)

lemma GetProjectConfig_frame [simp]:
  "versions (snd (GetProjectConfig E rt r w)) = versions w"
  "builds (snd (GetProjectConfig E rt r w)) = builds w"
  "tasks (snd (GetProjectConfig E rt r w)) = tasks w"
  "repositories (snd (GetProjectConfig E rt r w)) = repositories w"
  "counters (snd (GetProjectConfig E rt r w)) = counters w"
  "subscriptions (snd (GetProjectConfig E rt r w)) = subscriptions w"
  by (simp_all add: GetProjectConfig_def Let_def split_def split: option.splits)


lemma FindOne_cong: "versions w1 = versions w \<Longrightarrow> FindOne E q w1 = FindOne E q w"
  by (simp add: FindOne_def split: option.splits)

lemma CreateBuildFromVersion_frame [simp]:
  "versions (snd (CreateBuildFromVersion E project v taskIds n w)) = versions w"
  "repositories (snd (CreateBuildFromVersion E project v taskIds n w)) = repositories w"
  "counters (snd (CreateBuildFromVersion E project v taskIds n w)) = counters w"
  "subscriptions (snd (CreateBuildFromVersion E project v taskIds n w)) = subscriptions w"
  "logs (snd (CreateBuildFromVersion E project v taskIds n w)) = logs w"
  by (simp_all add: CreateBuildFromVersion_def Let_def split: option.splits)

lemma CreateBuildFromVersion_id:
  "snd (fst (CreateBuildFromVersion E project v taskIds n w)) = None \<Longrightarrow>
   fst (fst (CreateBuildFromVersion E project v taskIds n w)) = BuildId E (v_Id v) n"
  by (simp add: CreateBuildFromVersion_def Let_def split: option.splits)

lemma CreateBuildFromVersion_builds:
  "b \<in> set (builds (snd (CreateBuildFromVersion E project v taskIds n w))) \<Longrightarrow>
   b \<in> set (builds w) \<or> b_BuildVariant b = n"
  by (auto simp add: CreateBuildFromVersion_def Let_def split: option.splits)

lemma CreateBuildFromVersion_tasks:
  "t \<in> set (tasks (snd (CreateBuildFromVersion E project v taskIds n w))) \<Longrightarrow>
   t \<in> set (tasks w) \<or> t_BuildVariant t = n"
  by (auto simp add: CreateBuildFromVersion_def Let_def split: option.splits)

lemma DeleteBuild_frame [simp]:
  "versions (snd (DeleteBuild E b w)) = versions w"
  "repositories (snd (DeleteBuild E b w)) = repositories w"
  "counters (snd (DeleteBuild E b w)) = counters w"
  "subscriptions (snd (DeleteBuild E b w)) = subscriptions w"
  by (simp_all add: DeleteBuild_def split: option.splits)

lemma delete_builds_frame [simp]:
  "versions (delete_builds E sts w) = versions w"
  "repositories (delete_builds E sts w) = repositories w"
  "counters (delete_builds E sts w) = counters w"
  "subscriptions (delete_builds E sts w) = subscriptions w"
  by (induction sts arbitrary: w; simp add: split_def Let_def)+

lemma DeleteBuild_subset:
  "set (builds (snd (DeleteBuild E b w))) \<subseteq> set (builds w)"
  "set (tasks (snd (DeleteBuild E b w))) \<subseteq> set (tasks w)"
  by (auto simp add: DeleteBuild_def split: option.splits)

lemma delete_builds_subset:
  "set (builds (delete_builds E sts w)) \<subseteq> set (builds w) \<and>
   set (tasks (delete_builds E sts w)) \<subseteq> set (tasks w)"
proof (induction sts arbitrary: w)
  case Nil
  show ?case by simp
next
  case (Cons s sts)
  have "set (builds (delete_builds E sts (grip_WrapError Error (fst (DeleteBuild E (bs_BuildId s) w))
            ''issue deleting build'' (snd (DeleteBuild E (bs_BuildId s) w)))))
        \<subseteq> set (builds (snd (DeleteBuild E (bs_BuildId s) w)))"
       "set (tasks (delete_builds E sts (grip_WrapError Error (fst (DeleteBuild E (bs_BuildId s) w))
            ''issue deleting build'' (snd (DeleteBuild E (bs_BuildId s) w)))))
        \<subseteq> set (tasks (snd (DeleteBuild E (bs_BuildId s) w)))"
    using Cons.IH [of "grip_WrapError Error (fst (DeleteBuild E (bs_BuildId s) w))
            ''issue deleting build'' (snd (DeleteBuild E (bs_BuildId s) w))"] by simp_all
  then show ?case using DeleteBuild_subset [of E "bs_BuildId s" w]
    by (simp add: split_def Let_def) blast
qed

lemma delete_builds_removes:
  "s \<in> set sts \<Longrightarrow> delete_build_err E (bs_BuildId s) = None \<Longrightarrow>
   (\<forall>b \<in> set (builds (delete_builds E sts w)). b_Id b \<noteq> bs_BuildId s) \<and>
   (\<forall>t \<in> set (tasks (delete_builds E sts w)). t_BuildId t \<noteq> bs_BuildId s)"
proof (induction sts arbitrary: w)
  case Nil
  then show ?case by simp
next
  case (Cons a sts)
  let ?w1 = "grip_WrapError Error (fst (DeleteBuild E (bs_BuildId a) w))
            ''issue deleting build'' (snd (DeleteBuild E (bs_BuildId a) w))"
  have eq: "delete_builds E (a # sts) w = delete_builds E sts ?w1" by (simp add: split_def Let_def)
  show ?case
  proof (cases "bs_BuildId a = bs_BuildId s")
    case True
    have "(\<forall>b \<in> set (builds ?w1). b_Id b \<noteq> bs_BuildId s) \<and> (\<forall>t \<in> set (tasks ?w1). t_BuildId t \<noteq> bs_BuildId s)"
      using True Cons.prems(2) by (simp add: DeleteBuild_def)
    then show ?thesis using delete_builds_subset [of E sts ?w1] unfolding eq by blast
  next
    case False
    then have "s \<in> set sts" using Cons.prems(1) by auto
    then show ?thesis using Cons.IH [of ?w1] Cons.prems(2) unfolding eq by blast
  qed
qed

lemma create_builds_frame [simp]:
  "versions (snd (snd (create_builds E ref project taskIds bvs v w))) = versions w"
  "repositories (snd (snd (create_builds E ref project taskIds bvs v w))) = repositories w"
  "counters (snd (snd (create_builds E ref project taskIds bvs v w))) = counters w"
  "subscriptions (snd (snd (create_builds E ref project taskIds bvs v w))) = subscriptions w"
  "logs (snd (snd (create_builds E ref project taskIds bvs v w))) = logs w"
  by (induction bvs arbitrary: v w; simp add: split_def Let_def split: option.splits)+


lemma create_builds_statuses:
  "create_builds E ref project taskIds bvs v w = (e, v', w') \<Longrightarrow>
   set (v_BuildVariants v) \<subseteq> set (v_BuildVariants v')"
proof (induction bvs arbitrary: v w)
  case Nil
  then show ?case by simp
next
  case (Cons bv bvs)
  show ?case
  proof (cases "bv_Disabled bv")
    case True
    then show ?thesis using Cons.IH [of v w] Cons.prems by simp
  next
    case False
    obtain bid ce w1 where cb: "CreateBuildFromVersion E project v taskIds (bv_Name bv) w = ((bid, ce), w1)"
      by (metis prod.exhaust)
    obtain la fe where fo: "FindOne E (ByLastVariantActivation (pr_Identifier ref) (bv_Name bv)) w1 = (la, fe)"
      by (metis prod.exhaust)
    show ?thesis
    proof (cases "ce = None \<and> fe = None")
      case True
      then show ?thesis using Cons.prems False cb fo
        Cons.IH [of "v\<lparr> v_BuildIds := v_BuildIds v @ [bid],
                        v_BuildVariants := v_BuildVariants v @
                          [\<lparr> bs_BuildVariant = bv_Name bv, bs_Activated = False,
                             bs_ActivateAt = compute_activateAt E ref (v_Id v) bv (lastActivation_of (bv_Name bv) la),
                             bs_BuildId = bid \<rparr>] \<rparr>" w1]
        by (auto simp add: Let_def)
    next
      case False
      then show ?thesis using Cons.prems \<open>\<not> bv_Disabled bv\<close> cb fo
        by (auto simp add: Let_def split: option.splits)
    qed
  qed
qed

lemma create_builds_builds:
  "create_builds E ref project taskIds bvs v w = (None, v', w') \<Longrightarrow> b \<in> set (builds w') \<Longrightarrow>
   b \<in> set (builds w) \<or> b_Id b \<in> bs_BuildId ` set (v_BuildVariants v')"
proof (induction bvs arbitrary: v w)
  case Nil
  then show ?case by simp
next
  case (Cons bv bvs)
  show ?case
  proof (cases "bv_Disabled bv")
    case True
    then show ?thesis using Cons.IH [of v w] Cons.prems by simp
  next
    case False
    obtain bid ce w1 where cb: "CreateBuildFromVersion E project v taskIds (bv_Name bv) w = ((bid, ce), w1)"
      by (metis prod.exhaust)
    obtain la fe where fo: "FindOne E (ByLastVariantActivation (pr_Identifier ref) (bv_Name bv)) w1 = (la, fe)"
      by (metis prod.exhaust)
    let ?s = "\<lparr> bs_BuildVariant = bv_Name bv, bs_Activated = False,
               bs_ActivateAt = compute_activateAt E ref (v_Id v) bv (lastActivation_of (bv_Name bv) la),
               bs_BuildId = bid \<rparr>"
    let ?v1 = "v\<lparr> v_BuildIds := v_BuildIds v @ [bid], v_BuildVariants := v_BuildVariants v @ [?s] \<rparr>"
    from Cons.prems(1) False cb fo have ok: "ce = None" "fe = None"
      by (auto simp add: Let_def split: option.splits)
    with Cons.prems(1) False cb fo have rec: "create_builds E ref project taskIds bvs ?v1 w1 = (None, v', w')"
      by (simp add: Let_def)
    from Cons.IH [OF rec Cons.prems(2)]
    have "b \<in> set (builds w1) \<or> b_Id b \<in> bs_BuildId ` set (v_BuildVariants v')" .
    moreover have "b \<in> set (builds w1) \<Longrightarrow> b \<in> set (builds w) \<or> b_Id b = bid"
      using cb ok by (auto simp add: CreateBuildFromVersion_def Let_def split: option.splits)
    moreover have "?s \<in> set (v_BuildVariants v')"
      using create_builds_statuses [OF rec] by auto
    then have "bid \<in> bs_BuildId ` set (v_BuildVariants v')" by force
    ultimately show ?thesis by blast
  qed
qed

text \<open>
  Claim C5.  When the builds of a version have been created and the insert of the
  version fails: on a duplicate-key condition \<open>createVersionItems\<close> returns no error
  and leaves the store as it is; on any other error it returns that error, and every
  build recorded on the version is deleted with its tasks (a build stays only where
  its own delete failed), so that no build made by the call is left.
\<close>

theorem C5_version_insert_failure:
  assumes "create_builds E ref project (NewTaskIdTable E project v) (p_BuildVariants project) v w
             = (None, v1, w1)"
      and "fst (Insert E v1 w1) = Some x"
  shows "(IsDuplicateKey x \<longrightarrow> createVersionItems E v ref project w = (None, v1, w1)) \<and>
         (\<not> IsDuplicateKey x \<longrightarrow>
            (\<exists>w3. createVersionItems E v ref project w = (Some (Wrapped [] x), v1, w3) \<and>
                  versions w3 = versions w \<and>
                  (\<forall>s \<in> set (v_BuildVariants v1). delete_build_err E (bs_BuildId s) = None \<longrightarrow>
                     (\<forall>b \<in> set (builds w3). b_Id b \<noteq> bs_BuildId s) \<and>
                     (\<forall>t \<in> set (tasks w3). t_BuildId t \<noteq> bs_BuildId s)) \<and>
                  (\<forall>b \<in> set (builds w3). b \<in> set (builds w) \<or> delete_build_err E (b_Id b) \<noteq> None)))"
proof -
  have w2: "snd (Insert E v1 w1) = w1" using assms(2) by (rule Insert_failed)
  have ins: "Insert E v1 w1 = (Some x, w1)" using assms(2) w2 by (metis prod.collapse)
  let ?w3 = "delete_builds E (v_BuildVariants v1) (grip Error ''problem inserting version'' w1)"
  have dup: "IsDuplicateKey x \<Longrightarrow> createVersionItems E v ref project w = (None, v1, w1)"
    using assms(1) ins by (simp add: createVersionItems_def Let_def)
  have nodup: "\<not> IsDuplicateKey x \<Longrightarrow> createVersionItems E v ref project w = (Some (Wrapped [] x), v1, ?w3)"
    using assms(1) ins by (simp add: createVersionItems_def Let_def)
  have vs: "versions ?w3 = versions w"
    using create_builds_frame(1) [of E ref project "NewTaskIdTable E project v" "p_BuildVariants project" v w] assms(1)
    by simp
  have rm: "\<forall>s \<in> set (v_BuildVariants v1). delete_build_err E (bs_BuildId s) = None \<longrightarrow>
                     (\<forall>b \<in> set (builds ?w3). b_Id b \<noteq> bs_BuildId s) \<and>
                     (\<forall>t \<in> set (tasks ?w3). t_BuildId t \<noteq> bs_BuildId s)"
    using delete_builds_removes by blast
  have rolled: "\<forall>b \<in> set (builds ?w3). b \<in> set (builds w) \<or> delete_build_err E (b_Id b) \<noteq> None"
  proof
    fix b assume b: "b \<in> set (builds ?w3)"
    then have "b \<in> set (builds w1)"
      using delete_builds_subset [of E "v_BuildVariants v1" "grip Error ''problem inserting version'' w1"]
      by auto
    then have "b \<in> set (builds w) \<or> b_Id b \<in> bs_BuildId ` set (v_BuildVariants v1)"
      using create_builds_builds [OF assms(1)] by blast
    then show "b \<in> set (builds w) \<or> delete_build_err E (b_Id b) \<noteq> None"
    proof
      assume "b \<in> set (builds w)"
      then show ?thesis by simp
    next
      assume "b_Id b \<in> bs_BuildId ` set (v_BuildVariants v1)"
      then obtain s where s: "s \<in> set (v_BuildVariants v1)" "b_Id b = bs_BuildId s" by auto
      have "delete_build_err E (bs_BuildId s) \<noteq> None"
      proof
        assume "delete_build_err E (bs_BuildId s) = None"
        with rm s(1) have "\<forall>b \<in> set (builds ?w3). b_Id b \<noteq> bs_BuildId s" by simp
        with b s(2) show False by simp
      qed
      then show ?thesis using s(2) by simp
    qed
  qed
  show ?thesis
  proof (intro conjI impI)
    assume "IsDuplicateKey x"
    then show "createVersionItems E v ref project w = (None, v1, w1)" by (rule dup)
  next
    assume "\<not> IsDuplicateKey x"
    then have "createVersionItems E v ref project w = (Some (Wrapped [] x), v1, ?w3)" by (rule nodup)
    with vs rm rolled
    show "\<exists>w3. createVersionItems E v ref project w = (Some (Wrapped [] x), v1, w3) \<and>
                  versions w3 = versions w \<and>
                  (\<forall>s \<in> set (v_BuildVariants v1). delete_build_err E (bs_BuildId s) = None \<longrightarrow>
                     (\<forall>b \<in> set (builds w3). b_Id b \<noteq> bs_BuildId s) \<and>
                     (\<forall>t \<in> set (tasks w3). t_BuildId t \<noteq> bs_BuildId s)) \<and>
                  (\<forall>b \<in> set (builds w3). b \<in> set (builds w) \<or> delete_build_err E (b_Id b) \<noteq> None)"
      by (intro exI [of _ ?w3] conjI)
  qed
qed


lemmas ex_defs = ex_env_def ex_ref_def ex_project_def ex_revision_def ex_version_def ex_world_def ex_tracker_def


text \<open>The rollback on the small project: the insert fails, the one build is removed.\<close>

theorem C5_version_insert_failure_witness:
  "fst (create_builds (ex_env\<lparr>insert_err := (\<lambda>v. Some (OtherError ''down''))\<rparr>) ex_ref ex_project
     (NewTaskIdTable (ex_env\<lparr>insert_err := (\<lambda>v. Some (OtherError ''down''))\<rparr>) ex_project (ex_version ''r1'' 1 []))
     (p_BuildVariants ex_project) (ex_version ''r1'' 1 []) (ex_world [] 1)) = None \<and>
   \<not> IsDuplicateKey (OtherError ''down'') \<and>
   fst (createVersionItems (ex_env\<lparr>insert_err := (\<lambda>v. Some (OtherError ''down''))\<rparr>)
          (ex_version ''r1'' 1 []) ex_ref ex_project (ex_world [] 1))
     = Some (Wrapped [] (OtherError ''down'')) \<and>
   builds (snd (snd (createVersionItems (ex_env\<lparr>insert_err := (\<lambda>v. Some (OtherError ''down''))\<rparr>)
          (ex_version ''r1'' 1 []) ex_ref ex_project (ex_world [] 1)))) = []"
proof -
  let ?E = "ex_env\<lparr>insert_err := (\<lambda>v. Some (OtherError ''down''))\<rparr>"
  let ?v = "ex_version ''r1'' 1 []"
  let ?w = "ex_world [] 1"
  let ?cb = "create_builds ?E ex_ref ex_project (NewTaskIdTable ?E ex_project ?v)
               (p_BuildVariants ex_project) ?v ?w"
  have a: "fst ?cb = None"
    by (simp add: ex_defs NewTaskIdTable_def CreateBuildFromVersion_def FindOne_def Let_def
        task_id_of_def compute_activateAt_def lastActivation_of_def)
  then have h1: "?cb = (None, fst (snd ?cb), snd (snd ?cb))" by (metis prod.collapse)
  have h2: "fst (Insert ?E (fst (snd ?cb)) (snd (snd ?cb))) = Some (OtherError ''down'')"
    by (simp add: Insert_def ex_env_def)
  have nd: "\<not> IsDuplicateKey (OtherError ''down'')" by (simp add: IsDuplicateKey_def)
  from C5_version_insert_failure [OF h1 h2] nd
  obtain w3 where w3: "createVersionItems ?E ?v ex_ref ex_project ?w
                         = (Some (Wrapped [] (OtherError ''down'')), fst (snd ?cb), w3)"
    and r: "\<forall>b \<in> set (builds w3). b \<in> set (builds ?w) \<or> delete_build_err ?E (b_Id b) \<noteq> None"
    by blast
  have "set (builds w3) = {}" using r by (auto simp add: ex_env_def ex_world_def)
  then have "builds w3 = []" by simp
  then show ?thesis using a nd w3 by simp
qed


lemma sint_word_of_int_64:
  "- (2 ^ 63) \<le> x \<Longrightarrow> x < 2 ^ 63 \<Longrightarrow> sint (word_of_int x :: 64 word) = x"
  by (simp add: sint_sbintrunc' signed_take_bit_int_eq_self)

lemma minutes_Duration_exact:
  assumes "- (2 ^ 63) \<le> 60000000000 * n" and "60000000000 * n < 2 ^ 63"
  shows "sint (minutes_Duration n) = 60000000000 * n"
proof -
  have "minutes_Duration n = (word_of_int (60000000000 * n) :: 64 word)"
    unfolding minutes_Duration_def by (simp only: of_int_mult)
  then show ?thesis using sint_word_of_int_64 [OF assms] by simp
qed

lemma create_builds_success:
  "create_builds E ref project taskIds bvs v w = (None, v', w') \<Longrightarrow>
   v_Id v' = v_Id v \<and>
   (\<forall>bv \<in> set bvs. \<not> bv_Disabled bv \<longrightarrow>
      find_err E (ByLastVariantActivation (pr_Identifier ref) (bv_Name bv)) = None) \<and>
   v_BuildIds v' = v_BuildIds v @
     map (\<lambda>bv. BuildId E (v_Id v) (bv_Name bv)) (filter (\<lambda>bv. \<not> bv_Disabled bv) bvs) \<and>
   v_BuildVariants v' = v_BuildVariants v @
     map (\<lambda>bv. \<lparr> bs_BuildVariant = bv_Name bv, bs_Activated = False,
                  bs_ActivateAt = compute_activateAt E ref (v_Id v) bv
                    (lastActivation_of (bv_Name bv)
                       (fst (FindOne E (ByLastVariantActivation (pr_Identifier ref) (bv_Name bv)) w))),
                  bs_BuildId = BuildId E (v_Id v) (bv_Name bv) \<rparr>)
         (filter (\<lambda>bv. \<not> bv_Disabled bv) bvs)"
proof (induction bvs arbitrary: v w)
  case Nil
  then show ?case by simp
next
  case (Cons bv bvs)
  show ?case
  proof (cases "bv_Disabled bv")
    case True
    then show ?thesis using Cons.IH [of v w] Cons.prems by simp
  next
    case False
    let ?cb = "CreateBuildFromVersion E project v taskIds (bv_Name bv) w"
    let ?fo = "FindOne E (ByLastVariantActivation (pr_Identifier ref) (bv_Name bv)) (snd ?cb)"
    let ?s = "\<lparr> bs_BuildVariant = bv_Name bv, bs_Activated = False,
               bs_ActivateAt = compute_activateAt E ref (v_Id v) bv (lastActivation_of (bv_Name bv) (fst ?fo)),
               bs_BuildId = fst (fst ?cb) \<rparr>"
    let ?v1 = "v\<lparr> v_BuildIds := v_BuildIds v @ [fst (fst ?cb)], v_BuildVariants := v_BuildVariants v @ [?s] \<rparr>"
    from Cons.prems False have ok: "snd (fst ?cb) = None" "snd ?fo = None"
      by (auto simp add: Let_def split_def split: option.splits)
    with Cons.prems False have rc: "create_builds E ref project taskIds bvs ?v1 (snd ?cb) = (None, v', w')"
      by (simp add: Let_def split_def)
    have fo: "?fo = FindOne E (ByLastVariantActivation (pr_Identifier ref) (bv_Name bv)) w"
      by (rule FindOne_cong) simp
    have fo_all: "\<And>q. FindOne E q (snd ?cb) = FindOne E q w"
      by (rule FindOne_cong) simp
    have bid: "fst (fst ?cb) = BuildId E (v_Id v) (bv_Name bv)"
      using ok(1) by (rule CreateBuildFromVersion_id)
    have fe: "find_err E (ByLastVariantActivation (pr_Identifier ref) (bv_Name bv)) = None"
      using ok(2) by (simp add: FindOne_def split: option.splits)
    from Cons.IH [OF rc] show ?thesis using False fe
      by (simp add: fo_all bid)
  qed
qed

lemma create_builds_enabled_only:
  "create_builds E ref project taskIds bvs v w = (e, v', w') \<Longrightarrow>
   (\<forall>s \<in> set (v_BuildVariants v'). s \<in> set (v_BuildVariants v) \<or>
        (\<exists>bv \<in> set bvs. \<not> bv_Disabled bv \<and> bv_Name bv = bs_BuildVariant s)) \<and>
   (\<forall>b \<in> set (builds w'). b \<in> set (builds w) \<or>
        (\<exists>bv \<in> set bvs. \<not> bv_Disabled bv \<and> bv_Name bv = b_BuildVariant b)) \<and>
   (\<forall>t \<in> set (tasks w'). t \<in> set (tasks w) \<or>
        (\<exists>bv \<in> set bvs. \<not> bv_Disabled bv \<and> bv_Name bv = t_BuildVariant t))"
proof (induction bvs arbitrary: v w)
  case Nil
  then show ?case by simp
next
  case (Cons bv bvs)
  show ?case
  proof (cases "bv_Disabled bv")
    case True
    then have "create_builds E ref project taskIds bvs v w = (e, v', w')" using Cons.prems by simp
    from Cons.IH [OF this] show ?thesis by auto
  next
    case False
    let ?cb = "CreateBuildFromVersion E project v taskIds (bv_Name bv) w"
    let ?fo = "FindOne E (ByLastVariantActivation (pr_Identifier ref) (bv_Name bv)) (snd ?cb)"
    let ?s = "\<lparr> bs_BuildVariant = bv_Name bv, bs_Activated = False,
               bs_ActivateAt = compute_activateAt E ref (v_Id v) bv (lastActivation_of (bv_Name bv) (fst ?fo)),
               bs_BuildId = fst (fst ?cb) \<rparr>"
    let ?v1 = "v\<lparr> v_BuildIds := v_BuildIds v @ [fst (fst ?cb)], v_BuildVariants := v_BuildVariants v @ [?s] \<rparr>"
    have bs: "\<forall>b \<in> set (builds (snd ?cb)). b \<in> set (builds w) \<or> b_BuildVariant b = bv_Name bv"
      using CreateBuildFromVersion_builds by blast
    have ts: "\<forall>t \<in> set (tasks (snd ?cb)). t \<in> set (tasks w) \<or> t_BuildVariant t = bv_Name bv"
      using CreateBuildFromVersion_tasks by blast
    show ?thesis
    proof (cases "snd (fst ?cb) = None \<and> snd ?fo = None")
      case True
      with Cons.prems False have rc: "create_builds E ref project taskIds bvs ?v1 (snd ?cb) = (e, v', w')"
        by (simp add: Let_def split_def)
      from Cons.IH [OF rc] have ih:
        "\<forall>s \<in> set (v_BuildVariants v'). s \<in> set (v_BuildVariants ?v1) \<or>
            (\<exists>bv \<in> set bvs. \<not> bv_Disabled bv \<and> bv_Name bv = bs_BuildVariant s)"
        "\<forall>b \<in> set (builds w'). b \<in> set (builds (snd ?cb)) \<or>
            (\<exists>bv \<in> set bvs. \<not> bv_Disabled bv \<and> bv_Name bv = b_BuildVariant b)"
        "\<forall>t \<in> set (tasks w'). t \<in> set (tasks (snd ?cb)) \<or>
            (\<exists>bv \<in> set bvs. \<not> bv_Disabled bv \<and> bv_Name bv = t_BuildVariant t)"
        by blast+
      have a: "\<forall>s \<in> set (v_BuildVariants v'). s \<in> set (v_BuildVariants v) \<or>
        (\<exists>b \<in> set (bv # bvs). \<not> bv_Disabled b \<and> bv_Name b = bs_BuildVariant s)"
        using ih(1) False by auto
      have b: "\<forall>b \<in> set (builds w'). b \<in> set (builds w) \<or>
        (\<exists>x \<in> set (bv # bvs). \<not> bv_Disabled x \<and> bv_Name x = b_BuildVariant b)"
        using ih(2) bs False by (metis list.set_intros(1) list.set_intros(2))
      have c: "\<forall>t \<in> set (tasks w'). t \<in> set (tasks w) \<or>
        (\<exists>x \<in> set (bv # bvs). \<not> bv_Disabled x \<and> bv_Name x = t_BuildVariant t)"
        using ih(3) ts False by (metis list.set_intros(1) list.set_intros(2))
      show ?thesis using a b c by blast
    next
      case nok: False
      with Cons.prems False have "v' = v" "w' = snd ?cb"
        by (auto simp add: Let_def split_def split: option.splits)
      then show ?thesis using bs ts False by auto
    qed
  qed
qed


lemma createVersionItems_shape:
  assumes "createVersionItems E v ref project w = (e, v', w')"
  shows "\<exists>e1 w1. create_builds E ref project (NewTaskIdTable E project v) (p_BuildVariants project) v w
                    = (e1, v', w1) \<and>
           set (builds w') \<subseteq> set (builds w1) \<and> set (tasks w') \<subseteq> set (tasks w1) \<and>
           (e = None \<longrightarrow> e1 = None) \<and>
           (versions w' = versions w \<or> (versions w' = versions w @ [v'] \<and> e = None)) \<and>
           counters w' = counters w \<and> repositories w' = repositories w \<and>
           subscriptions w' = subscriptions w"
proof -
  let ?cb = "create_builds E ref project (NewTaskIdTable E project v) (p_BuildVariants project) v w"
  obtain e1 v1 w1 where cb: "?cb = (e1, v1, w1)" by (metis prod.exhaust)
  have fr: "versions w1 = versions w" "counters w1 = counters w" "repositories w1 = repositories w"
    "subscriptions w1 = subscriptions w"
    using create_builds_frame [of E ref project "NewTaskIdTable E project v" "p_BuildVariants project" v w] cb
    by simp_all
  show ?thesis
  proof (cases e1)
    case (Some x)
    then show ?thesis using assms cb fr by (simp add: createVersionItems_def Let_def)
  next
    case None
    let ?ins = "Insert E v1 w1"
    show ?thesis
    proof (cases "fst ?ins")
      case ok: None
      then have "createVersionItems E v ref project w = (None, v1, snd ?ins)"
        using cb None by (simp add: createVersionItems_def Let_def split_def)
      then show ?thesis using assms cb None fr ok Insert_versions [of E v1 w1] by auto
    next
      case (Some x)
      then have sw: "snd ?ins = w1" by (rule Insert_failed)
      show ?thesis
      proof (cases "IsDuplicateKey x")
        case True
        then have "createVersionItems E v ref project w = (None, v1, w1)"
          using cb None Some sw by (simp add: createVersionItems_def Let_def split_def)
        then show ?thesis using assms cb None fr by auto
      next
        case False
        let ?w3 = "delete_builds E (v_BuildVariants v1) (grip Error ''problem inserting version'' w1)"
        have "createVersionItems E v ref project w = (Some (Wrapped [] x), v1, ?w3)"
          using cb None Some sw False by (simp add: createVersionItems_def Let_def split_def)
        moreover have "set (builds ?w3) \<subseteq> set (builds w1) \<and> set (tasks ?w3) \<subseteq> set (tasks w1)"
          using delete_builds_subset [of E "v_BuildVariants v1" "grip Error ''problem inserting version'' w1"]
          by simp
        ultimately show ?thesis using assms cb None fr by auto
      qed
    qed
  qed
qed

text \<open>
  Claim C9.  Whatever \<open>createVersionItems\<close> returns, every build status it records
  on the version, every Build and every Task it leaves in the store carries the name of
  a build variant that is not disabled; when it returns no error, the recorded statuses
  and build ids are those of the enabled variants, one each and in the order of the
  config, so a disabled variant contributes nothing.
\<close>

theorem C9_disabled_variants_skipped:
  assumes "createVersionItems E v ref project w = (e, v', w')"
  shows "(\<forall>s \<in> set (v_BuildVariants v'). s \<in> set (v_BuildVariants v) \<or>
            (\<exists>bv \<in> set (p_BuildVariants project). \<not> bv_Disabled bv \<and> bv_Name bv = bs_BuildVariant s)) \<and>
         (\<forall>b \<in> set (builds w'). b \<in> set (builds w) \<or>
            (\<exists>bv \<in> set (p_BuildVariants project). \<not> bv_Disabled bv \<and> bv_Name bv = b_BuildVariant b)) \<and>
         (\<forall>t \<in> set (tasks w'). t \<in> set (tasks w) \<or>
            (\<exists>bv \<in> set (p_BuildVariants project). \<not> bv_Disabled bv \<and> bv_Name bv = t_BuildVariant t)) \<and>
         (e = None \<longrightarrow>
            map bs_BuildVariant (v_BuildVariants v') =
              map bs_BuildVariant (v_BuildVariants v) @
              map bv_Name (filter (\<lambda>bv. \<not> bv_Disabled bv) (p_BuildVariants project)) \<and>
            v_BuildIds v' = v_BuildIds v @
              map (\<lambda>bv. BuildId E (v_Id v) (bv_Name bv))
                  (filter (\<lambda>bv. \<not> bv_Disabled bv) (p_BuildVariants project)))"
proof -
  from createVersionItems_shape [OF assms] obtain e1 w1 where
    cb: "create_builds E ref project (NewTaskIdTable E project v) (p_BuildVariants project) v w = (e1, v', w1)"
    and sub: "set (builds w') \<subseteq> set (builds w1)" "set (tasks w') \<subseteq> set (tasks w1)"
    and ok: "e = None \<longrightarrow> e1 = None"
    by blast
  note en = create_builds_enabled_only [OF cb]
  have a: "\<forall>s \<in> set (v_BuildVariants v'). s \<in> set (v_BuildVariants v) \<or>
            (\<exists>bv \<in> set (p_BuildVariants project). \<not> bv_Disabled bv \<and> bv_Name bv = bs_BuildVariant s)"
    using en by blast
  have b: "\<forall>b \<in> set (builds w'). b \<in> set (builds w) \<or>
            (\<exists>bv \<in> set (p_BuildVariants project). \<not> bv_Disabled bv \<and> bv_Name bv = b_BuildVariant b)"
    using en sub(1) by blast
  have c: "\<forall>t \<in> set (tasks w'). t \<in> set (tasks w) \<or>
            (\<exists>bv \<in> set (p_BuildVariants project). \<not> bv_Disabled bv \<and> bv_Name bv = t_BuildVariant t)"
    using en sub(2) by blast
  have d: "e = None \<longrightarrow>
            map bs_BuildVariant (v_BuildVariants v') =
              map bs_BuildVariant (v_BuildVariants v) @
              map bv_Name (filter (\<lambda>bv. \<not> bv_Disabled bv) (p_BuildVariants project)) \<and>
            v_BuildIds v' = v_BuildIds v @
              map (\<lambda>bv. BuildId E (v_Id v) (bv_Name bv))
                  (filter (\<lambda>bv. \<not> bv_Disabled bv) (p_BuildVariants project))"
  proof
    assume "e = None"
    with ok cb have "create_builds E ref project (NewTaskIdTable E project v) (p_BuildVariants project) v w
                       = (None, v', w1)" by simp
    from create_builds_success [OF this] show
      "map bs_BuildVariant (v_BuildVariants v') =
              map bs_BuildVariant (v_BuildVariants v) @
              map bv_Name (filter (\<lambda>bv. \<not> bv_Disabled bv) (p_BuildVariants project)) \<and>
            v_BuildIds v' = v_BuildIds v @
              map (\<lambda>bv. BuildId E (v_Id v) (bv_Name bv))
                  (filter (\<lambda>bv. \<not> bv_Disabled bv) (p_BuildVariants project))"
      by (simp add: comp_def)
  qed
  show ?thesis using a b c d by (intro conjI)
qed

lemma most_recent_None: "(most_recent xs = None) = (xs = [])"
  by (induction xs) (auto split: option.splits)

lemma most_recent_in_set: "most_recent xs = Some m \<Longrightarrow> m \<in> set xs"
  by (induction xs arbitrary: m) (auto split: option.splits if_splits)

lemma most_recent_unique_max:
  "u \<in> set xs \<Longrightarrow>
   \<forall>u' \<in> set xs. u' \<noteq> u \<longrightarrow> v_RevisionOrderNumber u' < v_RevisionOrderNumber u \<Longrightarrow>
   most_recent xs = Some u"
proof (induction xs)
  case Nil
  then show ?case by simp
next
  case (Cons a xs)
  show ?case
  proof (cases "a = u")
    case True
    show ?thesis
    proof (cases "most_recent xs")
      case None
      then show ?thesis using True by simp
    next
      case (Some m)
      then have "m \<in> set xs" by (rule most_recent_in_set)
      then have "\<not> v_RevisionOrderNumber m > v_RevisionOrderNumber a"
        using Cons.prems(2) True by (cases "m = u") auto
      then show ?thesis using Some True by simp
    qed
  next
    case False
    then have "u \<in> set xs" using Cons.prems(1) by simp
    then have "most_recent xs = Some u" using Cons.IH Cons.prems(2) by simp
    moreover have "v_RevisionOrderNumber a < v_RevisionOrderNumber u" using Cons.prems(2) False by simp
    ultimately show ?thesis by simp
  qed
qed


lemma lastActivation_none:
  assumes "find_err E (ByLastVariantActivation p n) = None"
      and "\<forall>u \<in> set (versions w). v_Identifier u = p \<longrightarrow>
             \<not> list_ex (\<lambda>x. bs_BuildVariant x = n \<and> bs_Activated x) (v_BuildVariants u)"
  shows "lastActivation_of n (fst (FindOne E (ByLastVariantActivation p n) w)) = None"
proof -
  have "filter (query_matches (ByLastVariantActivation p n)) (versions w) = []"
    using assms(2) by (auto simp add: filter_empty_conv)
  then show ?thesis using assms(1) by (simp add: FindOne_def lastActivation_of_def)
qed

lemma lastActivation_some:
  assumes "find_err E (ByLastVariantActivation p n) = None"
      and "u \<in> set (versions w)" and "v_Identifier u = p"
      and "List.find (\<lambda>x. bs_BuildVariant x = n \<and> bs_Activated x) (v_BuildVariants u) = Some x"
      and "\<forall>u' \<in> set (versions w). u' \<noteq> u \<and> v_Identifier u' = p \<and>
              list_ex (\<lambda>x. bs_BuildVariant x = n \<and> bs_Activated x) (v_BuildVariants u')
              \<longrightarrow> v_RevisionOrderNumber u' < v_RevisionOrderNumber u"
  shows "lastActivation_of n (fst (FindOne E (ByLastVariantActivation p n) w)) = Some (bs_ActivateAt x)"
proof -
  let ?xs = "filter (query_matches (ByLastVariantActivation p n)) (versions w)"
  have ex: "list_ex (\<lambda>x. bs_BuildVariant x = n \<and> bs_Activated x) (v_BuildVariants u)"
    using assms(4) unfolding find_Some_iff list_ex_iff by (metis nth_mem)
  have "u \<in> set ?xs" using assms(2,3) ex by simp
  moreover have "\<forall>u' \<in> set ?xs. u' \<noteq> u \<longrightarrow> v_RevisionOrderNumber u' < v_RevisionOrderNumber u"
    using assms(5) by simp
  ultimately have "most_recent ?xs = Some u" by (rule most_recent_unique_max)
  then show ?thesis using assms(1,4) by (simp add: FindOne_def lastActivation_of_def)
qed

text \<open>
  Claim C7.  When \<open>createVersionItems\<close> succeeds, the statuses it appends to the
  version are those of the enabled build variants, in order, and for each of them:
  if no stored version of the project has an activated status for the variant, the
  build's \<open>ActivateAt\<close> is the clock reading; if the most recent such version (the one
  with the highest order number) recorded the activation time \<open>t\<close>, it is \<open>t\<close> plus the
  batch time in minutes, the variant's own or else the project's.  Go computes the
  minutes as a 64-bit \<open>time.Duration\<close>, so the batch times are taken in its range.
\<close>

theorem C7_activateAt:
  assumes "createVersionItems E v ref project w = (None, v', w')"
      and "\<forall>bv \<in> set (p_BuildVariants project).
             - (2 ^ 63) \<le> 60000000000 * GetBatchTime ref bv \<and> 60000000000 * GetBatchTime ref bv < 2 ^ 63"
  shows "\<exists>sts. v_BuildVariants v' = v_BuildVariants v @ sts \<and>
     list_all2 (\<lambda>bv s. bs_BuildVariant s = bv_Name bv \<and>
        ((\<forall>u \<in> set (versions w). v_Identifier u = pr_Identifier ref \<longrightarrow>
             \<not> list_ex (\<lambda>x. bs_BuildVariant x = bv_Name bv \<and> bs_Activated x) (v_BuildVariants u))
           \<longrightarrow> bs_ActivateAt s = time_Now E (v_Id v) (bv_Name bv)) \<and>
        (\<forall>u x. u \<in> set (versions w) \<and> v_Identifier u = pr_Identifier ref \<and>
               List.find (\<lambda>x. bs_BuildVariant x = bv_Name bv \<and> bs_Activated x) (v_BuildVariants u) = Some x \<and>
               (\<forall>u' \<in> set (versions w). u' \<noteq> u \<and> v_Identifier u' = pr_Identifier ref \<and>
                   list_ex (\<lambda>x. bs_BuildVariant x = bv_Name bv \<and> bs_Activated x) (v_BuildVariants u')
                   \<longrightarrow> v_RevisionOrderNumber u' < v_RevisionOrderNumber u)
           \<longrightarrow> bs_ActivateAt s = bs_ActivateAt x +
                  60000000000 * (case bv_BatchTime bv of Some n \<Rightarrow> n | None \<Rightarrow> pr_BatchTime ref)))
      (filter (\<lambda>bv. \<not> bv_Disabled bv) (p_BuildVariants project)) sts"
proof -
  let ?en = "filter (\<lambda>bv. \<not> bv_Disabled bv) (p_BuildVariants project)"
  let ?q = "\<lambda>bv. ByLastVariantActivation (pr_Identifier ref) (bv_Name bv)"
  let ?la = "\<lambda>bv. lastActivation_of (bv_Name bv) (fst (FindOne E (?q bv) w))"
  let ?f = "\<lambda>bv. \<lparr> bs_BuildVariant = bv_Name bv, bs_Activated = False,
                  bs_ActivateAt = compute_activateAt E ref (v_Id v) bv (?la bv),
                  bs_BuildId = BuildId E (v_Id v) (bv_Name bv) \<rparr>"
  from createVersionItems_shape [OF assms(1)] obtain w1 where
    cb: "create_builds E ref project (NewTaskIdTable E project v) (p_BuildVariants project) v w = (None, v', w1)"
    by auto
  from create_builds_success [OF cb]
  have fe: "\<forall>bv \<in> set ?en. find_err E (?q bv) = None"
    and sts: "v_BuildVariants v' = v_BuildVariants v @ map ?f ?en"
    by simp_all
  have each: "\<forall>bv \<in> set ?en. bs_BuildVariant (?f bv) = bv_Name bv \<and>
        ((\<forall>u \<in> set (versions w). v_Identifier u = pr_Identifier ref \<longrightarrow>
             \<not> list_ex (\<lambda>x. bs_BuildVariant x = bv_Name bv \<and> bs_Activated x) (v_BuildVariants u))
           \<longrightarrow> bs_ActivateAt (?f bv) = time_Now E (v_Id v) (bv_Name bv)) \<and>
        (\<forall>u x. u \<in> set (versions w) \<and> v_Identifier u = pr_Identifier ref \<and>
               List.find (\<lambda>x. bs_BuildVariant x = bv_Name bv \<and> bs_Activated x) (v_BuildVariants u) = Some x \<and>
               (\<forall>u' \<in> set (versions w). u' \<noteq> u \<and> v_Identifier u' = pr_Identifier ref \<and>
                   list_ex (\<lambda>x. bs_BuildVariant x = bv_Name bv \<and> bs_Activated x) (v_BuildVariants u')
                   \<longrightarrow> v_RevisionOrderNumber u' < v_RevisionOrderNumber u)
           \<longrightarrow> bs_ActivateAt (?f bv) = bs_ActivateAt x +
                  60000000000 * (case bv_BatchTime bv of Some n \<Rightarrow> n | None \<Rightarrow> pr_BatchTime ref))"
  proof
    fix bv assume bv: "bv \<in> set ?en"
    then have f: "find_err E (?q bv) = None" using fe by blast
    have rng: "- (2 ^ 63) \<le> 60000000000 * GetBatchTime ref bv" "60000000000 * GetBatchTime ref bv < 2 ^ 63"
      using assms(2) bv by auto
    have none: "(\<forall>u \<in> set (versions w). v_Identifier u = pr_Identifier ref \<longrightarrow>
             \<not> list_ex (\<lambda>x. bs_BuildVariant x = bv_Name bv \<and> bs_Activated x) (v_BuildVariants u))
           \<Longrightarrow> bs_ActivateAt (?f bv) = time_Now E (v_Id v) (bv_Name bv)"
      using lastActivation_none [OF f, of w] by (simp add: compute_activateAt_def)
    have some: "\<And>u x. u \<in> set (versions w) \<and> v_Identifier u = pr_Identifier ref \<and>
               List.find (\<lambda>x. bs_BuildVariant x = bv_Name bv \<and> bs_Activated x) (v_BuildVariants u) = Some x \<and>
               (\<forall>u' \<in> set (versions w). u' \<noteq> u \<and> v_Identifier u' = pr_Identifier ref \<and>
                   list_ex (\<lambda>x. bs_BuildVariant x = bv_Name bv \<and> bs_Activated x) (v_BuildVariants u')
                   \<longrightarrow> v_RevisionOrderNumber u' < v_RevisionOrderNumber u)
           \<Longrightarrow> bs_ActivateAt (?f bv) = bs_ActivateAt x +
                  60000000000 * (case bv_BatchTime bv of Some n \<Rightarrow> n | None \<Rightarrow> pr_BatchTime ref)"
    proof -
      fix u x
      assume h: "u \<in> set (versions w) \<and> v_Identifier u = pr_Identifier ref \<and>
               List.find (\<lambda>x. bs_BuildVariant x = bv_Name bv \<and> bs_Activated x) (v_BuildVariants u) = Some x \<and>
               (\<forall>u' \<in> set (versions w). u' \<noteq> u \<and> v_Identifier u' = pr_Identifier ref \<and>
                   list_ex (\<lambda>x. bs_BuildVariant x = bv_Name bv \<and> bs_Activated x) (v_BuildVariants u')
                   \<longrightarrow> v_RevisionOrderNumber u' < v_RevisionOrderNumber u)"
      then have "?la bv = Some (bs_ActivateAt x)"
        using lastActivation_some [OF f, of u w x] by blast
      then have "bs_ActivateAt (?f bv) = bs_ActivateAt x + sint (minutes_Duration (GetBatchTime ref bv))"
        by (simp add: compute_activateAt_def Time_Add_def)
      also have "sint (minutes_Duration (GetBatchTime ref bv)) = 60000000000 * GetBatchTime ref bv"
        using rng by (rule minutes_Duration_exact)
      finally show "bs_ActivateAt (?f bv) = bs_ActivateAt x +
                  60000000000 * (case bv_BatchTime bv of Some n \<Rightarrow> n | None \<Rightarrow> pr_BatchTime ref)"
        by (simp add: GetBatchTime_def)
    qed
    show "bs_BuildVariant (?f bv) = bv_Name bv \<and>
        ((\<forall>u \<in> set (versions w). v_Identifier u = pr_Identifier ref \<longrightarrow>
             \<not> list_ex (\<lambda>x. bs_BuildVariant x = bv_Name bv \<and> bs_Activated x) (v_BuildVariants u))
           \<longrightarrow> bs_ActivateAt (?f bv) = time_Now E (v_Id v) (bv_Name bv)) \<and>
        (\<forall>u x. u \<in> set (versions w) \<and> v_Identifier u = pr_Identifier ref \<and>
               List.find (\<lambda>x. bs_BuildVariant x = bv_Name bv \<and> bs_Activated x) (v_BuildVariants u) = Some x \<and>
               (\<forall>u' \<in> set (versions w). u' \<noteq> u \<and> v_Identifier u' = pr_Identifier ref \<and>
                   list_ex (\<lambda>x. bs_BuildVariant x = bv_Name bv \<and> bs_Activated x) (v_BuildVariants u')
                   \<longrightarrow> v_RevisionOrderNumber u' < v_RevisionOrderNumber u)
           \<longrightarrow> bs_ActivateAt (?f bv) = bs_ActivateAt x +
                  60000000000 * (case bv_BatchTime bv of Some n \<Rightarrow> n | None \<Rightarrow> pr_BatchTime ref))"
      using none some by (intro conjI impI allI; simp)
  qed
  show ?thesis
    by (rule exI [of _ "map ?f ?en"]) (use sts each in \<open>simp add: list_all2_map2 list_all2_same\<close>)
qed


lemmas run_defs = NewTaskIdTable_def CreateBuildFromVersion_def FindOne_def Let_def
  task_id_of_def compute_activateAt_def lastActivation_of_def createVersionItems_def Insert_def
  duplicate_key_def

text \<open>On the small project, whose variant \<open>osx\<close> is disabled, only \<open>linux\<close> is expanded.\<close>

theorem C9_disabled_variants_skipped_witness:
  "fst (createVersionItems ex_env (ex_version ''r1'' 1 []) ex_ref ex_project (ex_world [] 1)) = None \<and>
   builds (snd (snd (createVersionItems ex_env (ex_version ''r1'' 1 []) ex_ref ex_project (ex_world [] 1)))) \<noteq> [] \<and>
   list_all (\<lambda>b. b_BuildVariant b = ''linux'')
     (builds (snd (snd (createVersionItems ex_env (ex_version ''r1'' 1 []) ex_ref ex_project
                          (ex_world [] 1))))) \<and>
   list_all (\<lambda>t. t_BuildVariant t = ''linux'')
     (tasks (snd (snd (createVersionItems ex_env (ex_version ''r1'' 1 []) ex_ref ex_project
                         (ex_world [] 1))))) \<and>
   map bs_BuildVariant (v_BuildVariants (fst (snd (createVersionItems ex_env (ex_version ''r1'' 1 []) ex_ref
                                    ex_project (ex_world [] 1))))) = [''linux'']"
proof -
  let ?r = "createVersionItems ex_env (ex_version ''r1'' 1 []) ex_ref ex_project (ex_world [] 1)"
  have h: "?r = (fst ?r, fst (snd ?r), snd (snd ?r))" by simp
  have ok: "fst ?r = None" by (simp add: ex_defs run_defs)
  have ne: "builds (snd (snd ?r)) \<noteq> []" by (simp add: ex_defs run_defs)
  note c9 = C9_disabled_variants_skipped [OF h]
  have b: "list_all (\<lambda>b. b_BuildVariant b = ''linux'') (builds (snd (snd ?r)))"
    unfolding list_all_iff using c9 by (auto simp add: ex_project_def ex_world_def)
  have t: "list_all (\<lambda>t. t_BuildVariant t = ''linux'') (tasks (snd (snd ?r)))"
    unfolding list_all_iff using c9 by (auto simp add: ex_project_def ex_world_def)
  have st: "map bs_BuildVariant (v_BuildVariants (fst (snd ?r))) = [''linux'']"
    using c9 ok by (simp add: ex_project_def ex_version_def)
  show ?thesis using ok ne b t st by (intro conjI)
qed

text \<open>The staggering on the small project: the variant was last activated at 500, the
  batch time is 60 minutes, and the new build is due 60 minutes after 500.\<close>

theorem C7_activateAt_witness:
  "fst (createVersionItems ex_env (ex_version ''r1'' 2 []) ex_ref ex_project
         (ex_world [ex_version ''r0'' 1 [\<lparr> bs_BuildVariant = ''linux'', bs_Activated = True,
                                          bs_ActivateAt = 500, bs_BuildId = ''b0'' \<rparr>]] 2)) = None \<and>
   list_all (\<lambda>bv. - (2 ^ 63) \<le> 60000000000 * GetBatchTime ex_ref bv \<and>
                   60000000000 * GetBatchTime ex_ref bv < 2 ^ 63) (p_BuildVariants ex_project) \<and>
   map bs_ActivateAt (v_BuildVariants (fst (snd (createVersionItems ex_env (ex_version ''r1'' 2 []) ex_ref
         ex_project
         (ex_world [ex_version ''r0'' 1 [\<lparr> bs_BuildVariant = ''linux'', bs_Activated = True,
                                          bs_ActivateAt = 500, bs_BuildId = ''b0'' \<rparr>]] 2)))))
     = [500 + 60000000000 * 60]"
proof -
  let ?x = "\<lparr> bs_BuildVariant = ''linux'', bs_Activated = True, bs_ActivateAt = 500, bs_BuildId = ''b0'' \<rparr>"
  let ?u = "ex_version ''r0'' 1 [?x]"
  let ?w = "ex_world [?u] 2"
  let ?r = "createVersionItems ex_env (ex_version ''r1'' 2 []) ex_ref ex_project ?w"
  let ?bv = "\<lparr> bv_Name = ''linux'', bv_Disabled = False, bv_BatchTime = None, bv_Tasks = [''compile''] \<rparr>"
  have ok: "fst ?r = None" by (simp add: ex_defs run_defs)
  then have h1: "?r = (None, fst (snd ?r), snd (snd ?r))" by (metis prod.collapse)
  have h2: "\<forall>bv \<in> set (p_BuildVariants ex_project).
       - (2 ^ 63) \<le> 60000000000 * GetBatchTime ex_ref bv \<and> 60000000000 * GetBatchTime ex_ref bv < 2 ^ 63"
    by (simp add: ex_project_def ex_ref_def GetBatchTime_def)
  from C7_activateAt [OF h1 h2] obtain sts where
    sts: "v_BuildVariants (fst (snd ?r)) = v_BuildVariants (ex_version ''r1'' 2 []) @ sts"
    and all: "list_all2 (\<lambda>bv s. bs_BuildVariant s = bv_Name bv \<and>
        ((\<forall>u \<in> set (versions ?w). v_Identifier u = pr_Identifier ex_ref \<longrightarrow>
             \<not> list_ex (\<lambda>x. bs_BuildVariant x = bv_Name bv \<and> bs_Activated x) (v_BuildVariants u))
           \<longrightarrow> bs_ActivateAt s = time_Now ex_env (v_Id (ex_version ''r1'' 2 [])) (bv_Name bv)) \<and>
        (\<forall>u x. u \<in> set (versions ?w) \<and> v_Identifier u = pr_Identifier ex_ref \<and>
               List.find (\<lambda>x. bs_BuildVariant x = bv_Name bv \<and> bs_Activated x) (v_BuildVariants u) = Some x \<and>
               (\<forall>u' \<in> set (versions ?w). u' \<noteq> u \<and> v_Identifier u' = pr_Identifier ex_ref \<and>
                   list_ex (\<lambda>x. bs_BuildVariant x = bv_Name bv \<and> bs_Activated x) (v_BuildVariants u')
                   \<longrightarrow> v_RevisionOrderNumber u' < v_RevisionOrderNumber u)
           \<longrightarrow> bs_ActivateAt s = bs_ActivateAt x +
                  60000000000 * (case bv_BatchTime bv of Some n \<Rightarrow> n | None \<Rightarrow> pr_BatchTime ex_ref)))
      (filter (\<lambda>bv. \<not> bv_Disabled bv) (p_BuildVariants ex_project)) sts"
    by blast
  have en: "filter (\<lambda>bv. \<not> bv_Disabled bv) (p_BuildVariants ex_project) = [?bv]"
    by (simp add: ex_project_def)
  from all obtain s where s: "sts = [s]"
    and imp: "\<forall>u x. u \<in> set (versions ?w) \<and> v_Identifier u = pr_Identifier ex_ref \<and>
               List.find (\<lambda>x. bs_BuildVariant x = bv_Name ?bv \<and> bs_Activated x) (v_BuildVariants u) = Some x \<and>
               (\<forall>u' \<in> set (versions ?w). u' \<noteq> u \<and> v_Identifier u' = pr_Identifier ex_ref \<and>
                   list_ex (\<lambda>x. bs_BuildVariant x = bv_Name ?bv \<and> bs_Activated x) (v_BuildVariants u')
                   \<longrightarrow> v_RevisionOrderNumber u' < v_RevisionOrderNumber u)
           \<longrightarrow> bs_ActivateAt s = bs_ActivateAt x +
                  60000000000 * (case bv_BatchTime ?bv of Some n \<Rightarrow> n | None \<Rightarrow> pr_BatchTime ex_ref)"
    unfolding en by (auto simp add: list_all2_Cons1)
  have "bs_ActivateAt s = bs_ActivateAt ?x +
                  60000000000 * (case bv_BatchTime ?bv of Some n \<Rightarrow> n | None \<Rightarrow> pr_BatchTime ex_ref)"
    by (rule imp [rule_format, of ?u ?x]) (simp add: ex_world_def ex_version_def ex_ref_def)
  then have "bs_ActivateAt s = 500 + 60000000000 * 60" by (simp add: ex_ref_def)
  then have "map bs_ActivateAt (v_BuildVariants (fst (snd ?r))) = [500 + 60000000000 * 60]"
    using sts s by (simp add: ex_version_def)
  then show ?thesis using ok h2 unfolding list_all_iff by (intro conjI)
qed


lemma StoreRevisions_loop_append:
  "StoreRevisions_loop E rt (xs @ ys) n w =
     (case StoreRevisions_loop E rt xs n w of
        (Continue n1, w1) \<Rightarrow> StoreRevisions_loop E rt ys n1 w1
      | (Return m e, w1) \<Rightarrow> (Return m e, w1)
      | (NilDereference, w1) \<Rightarrow> (NilDereference, w1))"
proof (induction xs arbitrary: n w)
  case Nil
  show ?case by simp
next
  case (Cons x xs)
  show ?case
  proof (cases "StoreRevisions_body E rt x n w")
    case (Pair s w1)
    then show ?thesis using Cons.IH by (cases s) simp_all
  qed
qed

lemma step_ok_refl: "repositories w' = repositories w \<Longrightarrow> versions w' = versions w \<Longrightarrow>
  counters w p \<le> counters w' p \<Longrightarrow> step_ok p w w'"
  by (simp add: step_ok_def)

lemma step_ok_same [simp]: "step_ok p w w"
  by (simp add: step_ok_def)

lemma step_ok_grip [simp]:
  "step_ok p w (grip l m w') = step_ok p w w'"
  "step_ok p (grip l m w) w' = step_ok p w w'"
  "step_ok p w (grip_WrapError l e m w') = step_ok p w w'"
  by (simp_all add: step_ok_def)

lemma Upsert_frame [simp]:
  "versions (snd (Upsert E s w)) = versions w"
  "builds (snd (Upsert E s w)) = builds w"
  "tasks (snd (Upsert E s w)) = tasks w"
  "repositories (snd (Upsert E s w)) = repositories w"
  "counters (snd (Upsert E s w)) = counters w"
  by (simp_all add: Upsert_def split: option.splits)

lemma upsert_all_frame [simp]:
  "versions (snd (upsert_all E p ss c w)) = versions w"
  "builds (snd (upsert_all E p ss c w)) = builds w"
  "tasks (snd (upsert_all E p ss c w)) = tasks w"
  "repositories (snd (upsert_all E p ss c w)) = repositories w"
  "counters (snd (upsert_all E p ss c w)) = counters w"
  by (induction ss arbitrary: c w; simp add: split_def Let_def)+

lemma notify_admins_frame [simp]:
  "versions (snd (notify_admins E ref c w)) = versions w"
  "builds (snd (notify_admins E ref c w)) = builds w"
  "tasks (snd (notify_admins E ref c w)) = tasks w"
  "repositories (snd (notify_admins E ref c w)) = repositories w"
  "counters (snd (notify_admins E ref c w)) = counters w"
  by (simp_all add: notify_admins_def split_def Let_def)

lemma addBuildBreakSubscriptions_frame [simp]:
  "versions (snd (addBuildBreakSubscriptions E v ref w)) = versions w"
  "builds (snd (addBuildBreakSubscriptions E v ref w)) = builds w"
  "tasks (snd (addBuildBreakSubscriptions E v ref w)) = tasks w"
  "repositories (snd (addBuildBreakSubscriptions E v ref w)) = repositories w"
  "counters (snd (addBuildBreakSubscriptions E v ref w)) = counters w"
  by (simp_all add: addBuildBreakSubscriptions_def split_def Let_def split: option.splits)

lemma shellVersionFromRevision_fst_cong:
  "counters w1 = counters w \<Longrightarrow>
   fst (shellVersionFromRevision E ref rv w1) = fst (shellVersionFromRevision E ref rv w)"
  by (simp add: shellVersionFromRevision_def GetNewRevisionOrderNumber_def Let_def split_def
      split: option.splits)

lemma Insert_fst_cong:
  "versions w1 = versions w \<Longrightarrow> fst (Insert E v w1) = fst (Insert E v w)"
  by (simp add: Insert_def split: option.splits)

lemma sanityCheckOrderNum_fst_cong:
  "versions w1 = versions w \<Longrightarrow>
   fst (sanityCheckOrderNum E n p r w1) = fst (sanityCheckOrderNum E n p r w)"
  by (simp add: sanityCheckOrderNum_def FindOne_cong [of w1 w] Let_def split_def split: option.splits)

lemma store_stub_effect:
  assumes "store_stub E ref rv ve w = (s, w')"
  shows "step_ok (pr_Identifier ref) w w' \<and> builds w' = builds w \<and> tasks w' = tasks w"
proof -
  let ?sh = "shellVersionFromRevision E ref rv w"
  show ?thesis
  proof (cases "fst ?sh")
    case (Inl x)
    then have "w' = grip Error ''error creating shell version'' (snd ?sh)"
      using assms by (simp add: store_stub_def split_def)
    then show ?thesis using shellVersionFromRevision_counters [of w "pr_Identifier ref" E ref rv]
      by (simp add: step_ok_def)
  next
    case (Inr sv)
    let ?stub = "sv\<lparr>v_Errors := ve_Errors ve, v_Warnings := ve_Warnings ve\<rparr>"
    let ?ins = "Insert E ?stub (snd ?sh)"
    have w': "w' = grip_WrapError Error (fst ?ins) ''error inserting shell version'' (snd ?ins)"
      using assms Inr by (simp add: store_stub_def split_def Let_def)
    note sv = shellVersionFromRevision_Inr [OF Inr]
    have "versions w' = (if fst ?ins = None then versions w @ [?stub] else versions w)"
      unfolding w' by (simp add: Insert_versions)
    moreover have "counters w' = counters (snd ?sh)" unfolding w' by simp
    moreover have "repositories w' = repositories w" "builds w' = builds w" "tasks w' = tasks w"
      unfolding w' by simp_all
    ultimately show ?thesis using sv(1,2,3) by (auto simp add: step_ok_def)
  qed
qed


lemma CreateVersionFromConfig_cases:
  assumes "CreateVersionFromConfig E ref (Some cfg) rv ignore ve w = ((vo, e), w')"
  obtains
    (failed) "vo = None" "e \<noteq> None" "versions w' = versions w" "builds w' = builds w"
      "tasks w' = tasks w" "repositories w' = repositories w"
      "counters w (pr_Identifier ref) \<le> counters w' (pr_Identifier ref)"
  | (made) v2 w2 where
      "versions w2 = versions w" "builds w2 = builds w" "tasks w2 = tasks w"
      "repositories w2 = repositories w"
      "v_Identifier v2 = pr_Identifier ref" "v_Revision v2 = rev_Revision rv"
      "v_RevisionOrderNumber v2 = counters w2 (pr_Identifier ref)"
      "counters w (pr_Identifier ref) < v_RevisionOrderNumber v2"
      "v_Ignored v2 = ignore" "v_BuildVariants v2 = []" "v_BuildIds v2 = []"
      "fst (sanityCheckOrderNum E (v_RevisionOrderNumber v2) (pr_Identifier ref) (rev_Revision rv) w) = None"
      "(v_Errors v2 \<noteq> [] \<and> vo = Some v2 \<and> e = Wrap (fst (Insert E v2 w2)) ''error inserting version'' \<and>
        w' = snd (Insert E v2 w2)) \<or>
       (v_Errors v2 = [] \<and>
        (\<exists>ie v3. createVersionItems E v2 ref cfg w2 = (ie, v3, w') \<and> vo = Some v3 \<and>
                 e = Wrap ie ''error creating version items''))"
proof -
  let ?p = "pr_Identifier ref"
  let ?sh = "shellVersionFromRevision E ref rv w"
  show thesis
  proof (cases "fst ?sh")
    case (Inl x)
    then have "vo = None" "e \<noteq> None" "w' = snd ?sh"
      using assms by (auto simp add: CreateVersionFromConfig_def split_def)
    then show thesis using shellVersionFromRevision_counters [of w ?p E ref rv]
      by (intro failed) simp_all
  next
    case (Inr v0)
    note v0 = shellVersionFromRevision_Inr [OF Inr]
    let ?sc = "sanityCheckOrderNum E (v_RevisionOrderNumber v0) ?p (rev_Revision rv) (snd ?sh)"
    let ?w2 = "snd ?sc"
    have w2: "versions ?w2 = versions w" "builds ?w2 = builds w" "tasks ?w2 = tasks w"
      "repositories ?w2 = repositories w" "counters ?w2 = counters (snd ?sh)"
      by simp_all
    have cnt: "counters w ?p \<le> counters ?w2 ?p" using v0(1,2) w2(5) by simp
    show thesis
    proof (cases "fst ?sc")
      case (Some x)
      then have "vo = None" "e \<noteq> None" "w' = ?w2"
        using assms Inr by (auto simp add: CreateVersionFromConfig_def split_def)
      then show thesis using w2 cnt by (intro failed) simp_all
    next
      case sane: None
      have sane': "fst (sanityCheckOrderNum E (v_RevisionOrderNumber v0) ?p (rev_Revision rv) w) = None"
        using sane sanityCheckOrderNum_fst_cong [of "snd ?sh" w] by simp
      show thesis
      proof (cases "snd (yaml_Marshal E cfg)")
        case (Some x)
        then have "vo = None" "e \<noteq> None" "w' = ?w2"
          using assms Inr sane by (auto simp add: CreateVersionFromConfig_def split_def)
        then show thesis using w2 cnt by (intro failed) simp_all
      next
        case yok: None
        show thesis
        proof (cases "snd (CheckProjectSyntax E cfg)")
          case (Some x)
          then have "vo = None" "e \<noteq> None" "w' = ?w2"
            using assms Inr sane yok by (auto simp add: CreateVersionFromConfig_def split_def Let_def)
          then show thesis using w2 cnt by (intro failed) simp_all
        next
          case cok: None
          let ?verrs = "fst (CheckProjectSyntax E cfg)"
          let ?v1 = "v0\<lparr>v_Config := fst (yaml_Marshal E cfg), v_Ignored := ignore\<rparr>"
          let ?v2 = "?v1\<lparr> v_Warnings := projectWarnings_of ?verrs @
                                (case ve of None \<Rightarrow> [] | Some x \<Rightarrow> ve_Warnings x),
                            v_Errors := projectErrors_of ?verrs @
                                (case ve of None \<Rightarrow> [] | Some x \<Rightarrow> ve_Errors x) \<rparr>"
          have mk: "\<And>v2. v_Identifier v2 = ?p \<Longrightarrow> v_Revision v2 = rev_Revision rv \<Longrightarrow>
            v_RevisionOrderNumber v2 = v_RevisionOrderNumber v0 \<Longrightarrow> v_Ignored v2 = ignore \<Longrightarrow>
            v_BuildVariants v2 = [] \<Longrightarrow> v_BuildIds v2 = [] \<Longrightarrow>
            (v_Errors v2 \<noteq> [] \<and> vo = Some v2 \<and>
                    e = Wrap (fst (Insert E v2 ?w2)) ''error inserting version'' \<and>
                    w' = snd (Insert E v2 ?w2)) \<or>
                   (v_Errors v2 = [] \<and>
                    (\<exists>ie v3. createVersionItems E v2 ref cfg ?w2 = (ie, v3, w') \<and> vo = Some v3 \<and>
                       e = Wrap ie ''error creating version items'')) \<Longrightarrow> thesis"
          proof -
            fix v2
            assume a: "v_Identifier v2 = ?p" "v_Revision v2 = rev_Revision rv"
              "v_RevisionOrderNumber v2 = v_RevisionOrderNumber v0" "v_Ignored v2 = ignore"
              "v_BuildVariants v2 = []" "v_BuildIds v2 = []"
              and r: "(v_Errors v2 \<noteq> [] \<and> vo = Some v2 \<and>
                    e = Wrap (fst (Insert E v2 ?w2)) ''error inserting version'' \<and>
                    w' = snd (Insert E v2 ?w2)) \<or>
                   (v_Errors v2 = [] \<and>
                    (\<exists>ie v3. createVersionItems E v2 ref cfg ?w2 = (ie, v3, w') \<and> vo = Some v3 \<and>
                       e = Wrap ie ''error creating version items''))"
            show thesis
              by (rule made [of ?w2 v2]) (use w2 a v0(1,2) sane' r in \<open>simp_all\<close>)
          qed
          show thesis
          proof (cases "?verrs \<noteq> [] \<or> ve \<noteq> None")
            case A: True
            show ?thesis
            proof (cases "v_Errors ?v2 \<noteq> []")
              case True
              with A have "vo = Some ?v2 \<and> e = Wrap (fst (Insert E ?v2 ?w2)) ''error inserting version'' \<and>
                    w' = snd (Insert E ?v2 ?w2)"
                using assms Inr sane yok cok
                by (simp add: CreateVersionFromConfig_def split_def Let_def)
              with True show ?thesis using v0 by (intro mk [of ?v2]) simp_all
            next
              case False
              let ?ci = "createVersionItems E ?v2 ref cfg ?w2"
              from A False have "vo = Some (fst (snd ?ci)) \<and>
                    e = Wrap (fst ?ci) ''error creating version items'' \<and> w' = snd (snd ?ci)"
                using assms Inr sane yok cok
                by (simp add: CreateVersionFromConfig_def split_def Let_def)
              then have "\<exists>ie v3. ?ci = (ie, v3, w') \<and> vo = Some v3 \<and>
                    e = Wrap ie ''error creating version items''"
                by (metis prod.collapse)
              with False show ?thesis using v0 by (intro mk [of ?v2]) simp_all
            qed
          next
            case B: False
            let ?ci = "createVersionItems E ?v1 ref cfg ?w2"
            from B have "vo = Some (fst (snd ?ci)) \<and>
                    e = Wrap (fst ?ci) ''error creating version items'' \<and> w' = snd (snd ?ci)"
              using assms Inr sane yok cok
              by (simp add: CreateVersionFromConfig_def split_def Let_def)
            then have "\<exists>ie v3. ?ci = (ie, v3, w') \<and> vo = Some v3 \<and>
                    e = Wrap ie ''error creating version items''"
              by (metis prod.collapse)
            then show ?thesis using v0 by (intro mk [of ?v1]) simp_all
          qed
        qed
      qed
    qed
  qed
qed


lemma create_builds_fields:
  "create_builds E ref project taskIds bvs v w = (e, v', w') \<Longrightarrow>
   v_Identifier v' = v_Identifier v \<and> v_RevisionOrderNumber v' = v_RevisionOrderNumber v \<and>
   v_Revision v' = v_Revision v \<and> v_Ignored v' = v_Ignored v \<and> v_Errors v' = v_Errors v \<and>
   v_Id v' = v_Id v"
proof (induction bvs arbitrary: v w)
  case Nil
  then show ?case by simp
next
  case (Cons bv bvs)
  show ?case
  proof (cases "bv_Disabled bv")
    case True
    then show ?thesis using Cons.IH [of v w] Cons.prems by simp
  next
    case False
    let ?cb = "CreateBuildFromVersion E project v taskIds (bv_Name bv) w"
    let ?fo = "FindOne E (ByLastVariantActivation (pr_Identifier ref) (bv_Name bv)) (snd ?cb)"
    let ?s = "\<lparr> bs_BuildVariant = bv_Name bv, bs_Activated = False,
               bs_ActivateAt = compute_activateAt E ref (v_Id v) bv (lastActivation_of (bv_Name bv) (fst ?fo)),
               bs_BuildId = fst (fst ?cb) \<rparr>"
    let ?v1 = "v\<lparr> v_BuildIds := v_BuildIds v @ [fst (fst ?cb)], v_BuildVariants := v_BuildVariants v @ [?s] \<rparr>"
    show ?thesis
    proof (cases "snd (fst ?cb) = None \<and> snd ?fo = None")
      case True
      with Cons.prems False have rc: "create_builds E ref project taskIds bvs ?v1 (snd ?cb) = (e, v', w')"
        by (simp add: Let_def split_def)
      from Cons.IH [OF rc] show ?thesis by simp
    next
      case nok: False
      with Cons.prems False have "v' = v"
        by (auto simp add: Let_def split_def split: option.splits)
      then show ?thesis by simp
    qed
  qed
qed

lemma step_ok_cong:
  "versions w1 = versions w \<Longrightarrow> counters w1 = counters w \<Longrightarrow> repositories w1 = repositories w \<Longrightarrow>
   step_ok p w1 w' = step_ok p w w'"
  by (simp add: step_ok_def)

lemma CreateVersionFromConfig_effect:
  assumes "CreateVersionFromConfig E ref (Some cfg) rv ignore ve w = ((vo, e), w')"
  shows "step_ok (pr_Identifier ref) w w'"
  using assms
proof (cases rule: CreateVersionFromConfig_cases)
  case failed
  then show ?thesis by (simp add: step_ok_def)
next
  case (made v2 w2)
  let ?p = "pr_Identifier ref"
  from made(13) show ?thesis
  proof
    assume st: "v_Errors v2 \<noteq> [] \<and> vo = Some v2 \<and>
      e = Wrap (fst (Insert E v2 w2)) ''error inserting version'' \<and> w' = snd (Insert E v2 w2)"
    then have "versions w' = (if fst (Insert E v2 w2) = None then versions w @ [v2] else versions w)"
      "counters w' = counters w2" "repositories w' = repositories w"
      using made(1,4) by (simp_all add: Insert_versions)
    then show ?thesis using made(5,7,8) by (auto simp add: step_ok_def)
  next
    assume "v_Errors v2 = [] \<and>
        (\<exists>ie v3. createVersionItems E v2 ref cfg w2 = (ie, v3, w') \<and> vo = Some v3 \<and>
                 e = Wrap ie ''error creating version items'')"
    then obtain ie v3 where ci: "createVersionItems E v2 ref cfg w2 = (ie, v3, w')" by blast
    from createVersionItems_shape [OF ci] obtain e1 w1 where
      cb: "create_builds E ref cfg (NewTaskIdTable E cfg v2) (p_BuildVariants cfg) v2 w2 = (e1, v3, w1)"
      and vs: "versions w' = versions w2 \<or> (versions w' = versions w2 @ [v3] \<and> ie = None)"
      and fr: "counters w' = counters w2" "repositories w' = repositories w2"
      by blast
    note f = create_builds_fields [OF cb]
    show ?thesis using vs fr f made(1,4,5,7,8) by (auto simp add: step_ok_def)
  qed
qed

lemma store_version_effect:
  assumes "store_version E ref project rv ignore ve n w = (s, w')"
  shows "step_ok (pr_Identifier ref) w w'"
proof -
  let ?c = "CreateVersionFromConfig E ref (Some project) rv ignore ve w"
  have c: "?c = ((fst (fst ?c), snd (fst ?c)), snd ?c)" by simp
  note ef = CreateVersionFromConfig_effect [OF c]
  show ?thesis
  proof (cases "snd (fst ?c)")
    case (Some x)
    then have "w' = grip Error ''error creating version'' (snd ?c)"
      using assms by (simp add: store_version_def split_def)
    then show ?thesis using ef by simp
  next
    case None
    show ?thesis
    proof (cases "fst (fst ?c)")
      case nv: None
      then have "w' = snd ?c" using assms None by (simp add: store_version_def split_def)
      then show ?thesis using ef by simp
    next
      case (Some ver)
      let ?a = "addBuildBreakSubscriptions E ver ref (snd ?c)"
      have fr: "versions (snd ?a) = versions (snd ?c)" "counters (snd ?a) = counters (snd ?c)"
        "repositories (snd ?a) = repositories (snd ?c)" by simp_all
      have "w' = snd ?a \<or> w' = grip Error ''error creating build break subscriptions'' (snd ?a)"
        using assms None Some
        by (auto simp add: store_version_def split_def Let_def split: go.splits option.splits)
      then have "versions w' = versions (snd ?c)" "counters w' = counters (snd ?c)"
        "repositories w' = repositories (snd ?c)" using fr by auto
      then show ?thesis using ef by (simp add: step_ok_def)
    qed
  qed
qed

lemma check_ignore_and_store_effect:
  assumes "check_ignore_and_store E rt project rv ve n w = (s, w')"
  shows "step_ok (pr_Identifier (rt_ProjectRef rt)) w w'"
proof (cases project)
  case None
  then show ?thesis using assms by (simp add: check_ignore_and_store_def)
next
  case (Some p)
  show ?thesis
  proof (cases "p_Ignore p \<noteq> [] \<and> snd (GetChangedFiles rt (rev_Revision rv)) \<noteq> None")
    case True
    then have "w' = grip Error ''error checking GitHub for ignored files'' w"
      using assms Some by (auto simp add: check_ignore_and_store_def split_def)
    then show ?thesis by simp
  next
    case False
    then have "\<exists>ig. store_version E (rt_ProjectRef rt) p rv ig ve n w = (s, w')"
      using assms Some by (auto simp add: check_ignore_and_store_def split_def split: if_splits)
    then show ?thesis using store_version_effect by blast
  qed
qed

lemma StoreRevisions_body_unfold:
  "StoreRevisions_body E rt rv n w =
     (case fst (FindOne E (ByProjectIdAndRevision (pr_Identifier (rt_ProjectRef rt)) (rev_Revision rv)) w) of
        Some ex \<Rightarrow> (Continue (Some ex),
                    grip_WrapError Error
                      (snd (FindOne E (ByProjectIdAndRevision (pr_Identifier (rt_ProjectRef rt)) (rev_Revision rv)) w))
                      ''problem looking up version for project'' w)
      | None \<Rightarrow>
          (let g = GetProjectConfig E rt (rev_Revision rv)
                     (grip_WrapError Error
                       (snd (FindOne E (ByProjectIdAndRevision (pr_Identifier (rt_ProjectRef rt)) (rev_Revision rv)) w))
                       ''problem looking up version for project'' w)
           in case snd (fst g) of
                None \<Rightarrow> check_ignore_and_store E rt (fst (fst g)) rv None n (snd g)
              | Some x \<Rightarrow>
                  (case x of
                     projectConfigError errs warns \<Rightarrow>
                       if errs \<noteq> [] then
                         store_stub E (rt_ProjectRef rt) rv \<lparr>ve_Errors = errs, ve_Warnings = warns\<rparr> (snd g)
                       else check_ignore_and_store E rt (fst (fst g)) rv
                              (Some \<lparr>ve_Errors = errs, ve_Warnings = warns\<rparr>) n (snd g)
                   | _ \<Rightarrow> (Return None (Some x), grip Error ''error getting project config'' (snd g)))))"
  unfolding StoreRevisions_body_def Let_def split_def
  by (simp split: option.split err.split)


lemma StoreRevisions_body_fatal:
  assumes "fst (FindOne E (ByProjectIdAndRevision (pr_Identifier (rt_ProjectRef rt)) (rev_Revision rv)) w) = None"
      and "snd (fst (GetProjectConfig E rt (rev_Revision rv)
             (grip_WrapError Error
                (snd (FindOne E (ByProjectIdAndRevision (pr_Identifier (rt_ProjectRef rt)) (rev_Revision rv)) w))
                ''problem looking up version for project'' w))) = Some x"
      and "\<forall>es ws. x \<noteq> projectConfigError es ws"
  shows "StoreRevisions_body E rt rv n w =
           (Return None (Some x),
            grip Error ''error getting project config''
              (snd (GetProjectConfig E rt (rev_Revision rv)
                 (grip_WrapError Error
                   (snd (FindOne E (ByProjectIdAndRevision (pr_Identifier (rt_ProjectRef rt)) (rev_Revision rv)) w))
                   ''problem looking up version for project'' w))))"
  using assms by (cases x) (simp_all add: StoreRevisions_body_unfold Let_def)

lemma StoreRevisions_body_effect:
  assumes "StoreRevisions_body E rt rv n w = (s, w')"
  shows "step_ok (pr_Identifier (rt_ProjectRef rt)) w w'"
proof -
  let ?ref = "rt_ProjectRef rt"
  let ?fo = "FindOne E (ByProjectIdAndRevision (pr_Identifier ?ref) (rev_Revision rv)) w"
  let ?w0 = "grip_WrapError Error (snd ?fo) ''problem looking up version for project'' w"
  let ?g = "GetProjectConfig E rt (rev_Revision rv) ?w0"
  have fr: "versions (snd ?g) = versions w" "counters (snd ?g) = counters w"
    "repositories (snd ?g) = repositories w" by simp_all
  show ?thesis
  proof (cases "fst ?fo")
    case (Some ex)
    then have "w' = ?w0" using assms by (simp add: StoreRevisions_body_unfold Let_def)
    then show ?thesis by simp
  next
    case None
    show ?thesis
    proof (cases "snd (fst ?g)")
      case ok: None
      then have "check_ignore_and_store E rt (fst (fst ?g)) rv None n (snd ?g) = (s, w')"
        using assms None by (simp add: StoreRevisions_body_unfold Let_def)
      from check_ignore_and_store_effect [OF this] show ?thesis by (simp add: step_ok_cong [OF fr])
    next
      case (Some x)
      show ?thesis
      proof (cases "\<exists>errs warns. x = projectConfigError errs warns")
        case True
        then obtain errs warns where x: "x = projectConfigError errs warns" by blast
        let ?ve = "\<lparr>ve_Errors = errs, ve_Warnings = warns\<rparr>"
        show ?thesis
        proof (cases "errs \<noteq> []")
          case True
          then have "store_stub E ?ref rv ?ve (snd ?g) = (s, w')"
            using assms None Some x
            by (simp add: StoreRevisions_body_unfold Let_def)
          from store_stub_effect [OF this] show ?thesis by (simp add: step_ok_cong [OF fr])
        next
          case False
          then have "check_ignore_and_store E rt (fst (fst ?g)) rv (Some ?ve) n (snd ?g) = (s, w')"
            using assms None Some x
            by (simp add: StoreRevisions_body_unfold Let_def)
          from check_ignore_and_store_effect [OF this] show ?thesis by (simp add: step_ok_cong [OF fr])
        qed
      next
        case False
        then have "\<forall>es ws. x \<noteq> projectConfigError es ws" by blast
        from StoreRevisions_body_fatal [OF None Some this, of n] assms
        have "w' = grip Error ''error getting project config'' (snd ?g)" by simp
        then show ?thesis using fr by (simp add: step_ok_def)
      qed
    qed
  qed
qed

lemma run_ok_refl [simp]: "run_ok p w w"
  by (simp add: run_ok_def)

lemma step_run_ok:
  assumes "step_ok p w w1" and "run_ok p w1 w2"
  shows "run_ok p w w2"
proof -
  from assms(2) obtain new where
    n: "versions w2 = versions w1 @ new"
       "list_all (\<lambda>v. v_Identifier v = p \<and> counters w1 p < v_RevisionOrderNumber v \<and>
                            v_RevisionOrderNumber v \<le> counters w2 p) new"
       "sorted_wrt (<) (map v_RevisionOrderNumber new)"
    and r: "repositories w2 = repositories w1" "counters w1 p \<le> counters w2 p"
    by (auto simp add: run_ok_def)
  from assms(1) have s: "repositories w1 = repositories w" "counters w p \<le> counters w1 p"
    by (simp_all add: step_ok_def)
  have la: "list_all (\<lambda>v. v_Identifier v = p \<and> counters w p < v_RevisionOrderNumber v \<and>
                            v_RevisionOrderNumber v \<le> counters w2 p) new"
    using n(2) s(2) by (auto simp add: list_all_iff)
  from assms(1) consider (same) "versions w1 = versions w"
    | (one) v where "versions w1 = versions w @ [v]" "v_Identifier v = p"
        "counters w p < v_RevisionOrderNumber v" "v_RevisionOrderNumber v \<le> counters w1 p"
    by (auto simp add: step_ok_def)
  then show ?thesis
  proof cases
    case same
    then show ?thesis using n la r s unfolding run_ok_def by auto
  next
    case (one v)
    have "versions w2 = versions w @ (v # new)" using n(1) one(1) by simp
    moreover have "list_all (\<lambda>v. v_Identifier v = p \<and> counters w p < v_RevisionOrderNumber v \<and>
                            v_RevisionOrderNumber v \<le> counters w2 p) (v # new)"
      using la one r(2) by simp
    moreover have "sorted_wrt (<) (map v_RevisionOrderNumber (v # new))"
      using n(2,3) one(4) by (auto simp add: list_all_iff)
    ultimately show ?thesis using r s unfolding run_ok_def by (intro conjI exI [of _ "v # new"]) simp_all
  qed
qed

lemma StoreRevisions_loop_effect:
  "StoreRevisions_loop E rt rvs n w = (s, w') \<Longrightarrow> run_ok (pr_Identifier (rt_ProjectRef rt)) w w'"
proof (induction rvs arbitrary: n w)
  case Nil
  then show ?case by simp
next
  case (Cons rv rvs)
  obtain s1 w1 where b: "StoreRevisions_body E rt rv n w = (s1, w1)" by (metis prod.exhaust)
  note st = StoreRevisions_body_effect [OF b]
  show ?case
  proof (cases s1)
    case (Continue n1)
    then have "StoreRevisions_loop E rt rvs n1 w1 = (s, w')" using Cons.prems b by simp
    from step_run_ok [OF st Cons.IH [OF this]] show ?thesis .
  next
    case (Return m e)
    then have "w' = w1" using Cons.prems b by simp
    then show ?thesis using step_run_ok [OF st run_ok_refl] by simp
  next
    case NilDereference
    then have "w' = w1" using Cons.prems b by simp
    then show ?thesis using step_run_ok [OF st run_ok_refl] by simp
  qed
qed


text \<open>
  Claim C6.  Let the counter of the project be at least every order number stored for
  it, as it is when those numbers came from the counter and it never repeats or goes
  backward.  Then a run of \<open>StoreRevisions\<close>, whatever it returns, only appends
  versions; each appended version, stub or expanded, belongs to the project and has an
  order number greater than that of every version of the project stored before it; the
  counter still bounds the stored numbers; and a store whose order numbers increase in
  insertion order stays so.
\<close>

theorem C6_order_numbers_increase:
  assumes "StoreRevisions E rt revisions w = (r, w')"
      and "\<forall>u \<in> set (versions w). v_Identifier u = pr_Identifier (rt_ProjectRef rt) \<longrightarrow>
             v_RevisionOrderNumber u \<le> counters w (pr_Identifier (rt_ProjectRef rt))"
  shows "(\<exists>new. versions w' = versions w @ new \<and>
           (\<forall>i < length new. v_Identifier (new ! i) = pr_Identifier (rt_ProjectRef rt) \<and>
              (\<forall>u \<in> set (versions w @ take i new).
                  v_Identifier u = pr_Identifier (rt_ProjectRef rt) \<longrightarrow>
                  v_RevisionOrderNumber u < v_RevisionOrderNumber (new ! i)))) \<and>
         (\<forall>u \<in> set (versions w'). v_Identifier u = pr_Identifier (rt_ProjectRef rt) \<longrightarrow>
             v_RevisionOrderNumber u \<le> counters w' (pr_Identifier (rt_ProjectRef rt))) \<and>
         (sorted_wrt (<) (map v_RevisionOrderNumber
              (filter (\<lambda>u. v_Identifier u = pr_Identifier (rt_ProjectRef rt)) (versions w))) \<longrightarrow>
          sorted_wrt (<) (map v_RevisionOrderNumber
              (filter (\<lambda>u. v_Identifier u = pr_Identifier (rt_ProjectRef rt)) (versions w'))))"
proof -
  let ?p = "pr_Identifier (rt_ProjectRef rt)"
  let ?l = "StoreRevisions_loop E rt (rev revisions) None w"
  have "w' = snd ?l" using assms(1)
    by (cases "fst ?l") (auto simp add: StoreRevisions_def split_def split: step.splits)
  then have "StoreRevisions_loop E rt (rev revisions) None w = (fst ?l, w')" by simp
  from StoreRevisions_loop_effect [OF this] obtain new where
    vs: "versions w' = versions w @ new"
    and la: "list_all (\<lambda>v. v_Identifier v = ?p \<and> counters w ?p < v_RevisionOrderNumber v \<and>
                            v_RevisionOrderNumber v \<le> counters w' ?p) new"
    and so: "sorted_wrt (<) (map v_RevisionOrderNumber new)"
    and cn: "counters w ?p \<le> counters w' ?p"
    by (auto simp add: run_ok_def)
  have nw: "\<And>v. v \<in> set new \<Longrightarrow> v_Identifier v = ?p \<and> counters w ?p < v_RevisionOrderNumber v \<and>
                            v_RevisionOrderNumber v \<le> counters w' ?p"
    using la by (simp add: list_all_iff)
  have a: "\<forall>i < length new. v_Identifier (new ! i) = ?p \<and>
              (\<forall>u \<in> set (versions w @ take i new). v_Identifier u = ?p \<longrightarrow>
                  v_RevisionOrderNumber u < v_RevisionOrderNumber (new ! i))"
  proof (intro allI impI conjI ballI)
    fix i assume i: "i < length new"
    then show "v_Identifier (new ! i) = ?p" using nw by simp
    fix u assume u: "u \<in> set (versions w @ take i new)" and pu: "v_Identifier u = ?p"
    from u consider (old) "u \<in> set (versions w)" | (fresh) "u \<in> set (take i new)" by auto
    then show "v_RevisionOrderNumber u < v_RevisionOrderNumber (new ! i)"
    proof cases
      case old
      then have "v_RevisionOrderNumber u \<le> counters w ?p" using assms(2) pu by blast
      moreover have "counters w ?p < v_RevisionOrderNumber (new ! i)" using nw i by simp
      ultimately show ?thesis by simp
    next
      case fresh
      then obtain j where j: "j < i" "j < length new" "u = new ! j"
        using i by (auto simp add: in_set_conv_nth)
      then show ?thesis using so i by (simp add: sorted_wrt_iff_nth_less)
    qed
  qed
  have b: "\<forall>u \<in> set (versions w'). v_Identifier u = ?p \<longrightarrow> v_RevisionOrderNumber u \<le> counters w' ?p"
    using vs assms(2) cn nw by fastforce
  have c: "sorted_wrt (<) (map v_RevisionOrderNumber (filter (\<lambda>u. v_Identifier u = ?p) (versions w))) \<Longrightarrow>
          sorted_wrt (<) (map v_RevisionOrderNumber (filter (\<lambda>u. v_Identifier u = ?p) (versions w')))"
  proof -
    assume s: "sorted_wrt (<) (map v_RevisionOrderNumber (filter (\<lambda>u. v_Identifier u = ?p) (versions w)))"
    have f: "filter (\<lambda>u. v_Identifier u = ?p) new = new" using nw by (simp add: filter_id_conv)
    have "\<forall>x \<in> set (filter (\<lambda>u. v_Identifier u = ?p) (versions w)). \<forall>y \<in> set new.
            v_RevisionOrderNumber x < v_RevisionOrderNumber y"
      using assms(2) nw by fastforce
    then show ?thesis using s so f vs by (simp add: sorted_wrt_append)
  qed
  show ?thesis using vs a b c by blast
qed


text \<open>Two revisions stored after a version numbered 1, with the counter at 1.\<close>

theorem C6_order_numbers_increase_witness:
  "list_all (\<lambda>u. v_RevisionOrderNumber u \<le> counters (ex_world [ex_version ''r0'' 1 []] 1) ''p'')
     (versions (ex_world [ex_version ''r0'' 1 []] 1)) \<and>
   map v_RevisionOrderNumber
     (versions (snd (StoreRevisions ex_env
        (ex_tracker (\<lambda>r. (Some ex_project, None)) (\<lambda>r. ([], None)) [])
        [ex_revision ''r2'', ex_revision ''r1''] (ex_world [ex_version ''r0'' 1 []] 1)))) = [1, 2, 3] \<and>
   sorted_wrt (<) (map v_RevisionOrderNumber (filter (\<lambda>u. v_Identifier u = ''p'')
     (versions (snd (StoreRevisions ex_env
        (ex_tracker (\<lambda>r. (Some ex_project, None)) (\<lambda>r. ([], None)) [])
        [ex_revision ''r2'', ex_revision ''r1''] (ex_world [ex_version ''r0'' 1 []] 1))))))"
proof -
  let ?rt = "ex_tracker (\<lambda>r. (Some ex_project, None)) (\<lambda>r. ([], None)) []"
  let ?w = "ex_world [ex_version ''r0'' 1 []] 1"
  let ?run = "StoreRevisions ex_env ?rt [ex_revision ''r2'', ex_revision ''r1''] ?w"
  have pid: "pr_Identifier (rt_ProjectRef ?rt) = ''p''" by (simp add: ex_defs)
  have h1: "?run = (fst ?run, snd ?run)" by simp
  have h2: "\<forall>u \<in> set (versions ?w). v_Identifier u = pr_Identifier (rt_ProjectRef ?rt) \<longrightarrow>
             v_RevisionOrderNumber u \<le> counters ?w (pr_Identifier (rt_ProjectRef ?rt))"
    by (simp add: ex_defs)
  have h3: "sorted_wrt (<) (map v_RevisionOrderNumber
              (filter (\<lambda>u. v_Identifier u = pr_Identifier (rt_ProjectRef ?rt)) (versions ?w)))"
    by (simp add: ex_defs)
  from C6_order_numbers_increase [OF h1 h2] h3
  have s: "sorted_wrt (<) (map v_RevisionOrderNumber
              (filter (\<lambda>u. v_Identifier u = pr_Identifier (rt_ProjectRef ?rt)) (versions (snd ?run))))"
    by blast
  have e: "map v_RevisionOrderNumber (versions (snd ?run)) = [1, 2, 3]" by code_simp
  have b: "list_all (\<lambda>u. v_RevisionOrderNumber u \<le> counters ?w ''p'') (versions ?w)"
    by (simp add: ex_defs)
  show ?thesis using s e b unfolding pid by (intro conjI)
qed


lemma find_distinct_key:
  "distinct (map f xs) \<Longrightarrow> x \<in> set xs \<Longrightarrow> List.find (\<lambda>y. f y = f x) xs = Some x"
  by (induction xs) (auto simp add: image_iff)

lemma find_present:
  "\<exists>v \<in> set xs. P v \<Longrightarrow> \<exists>ex \<in> set xs. P ex \<and> List.find P xs = Some ex"
  by (induction xs) auto

lemma StoreRevisions_body_existing:
  assumes "find_err E (ByProjectIdAndRevision (pr_Identifier (rt_ProjectRef rt)) (rev_Revision rv)) = None"
      and "List.find (query_matches (ByProjectIdAndRevision (pr_Identifier (rt_ProjectRef rt)) (rev_Revision rv)))
             (versions w) = Some ex"
  shows "StoreRevisions_body E rt rv n w = (Continue (Some ex), w)"
  using assms by (simp add: StoreRevisions_body_unfold FindOne_def)

lemma StoreRevisions_loop_existing:
  assumes "\<forall>r. find_err E (ByProjectIdAndRevision (pr_Identifier (rt_ProjectRef rt)) r) = None"
  shows "\<forall>rv \<in> set xs. \<exists>v \<in> set (versions w).
            query_matches (ByProjectIdAndRevision (pr_Identifier (rt_ProjectRef rt)) (rev_Revision rv)) v
         \<Longrightarrow> StoreRevisions_loop E rt xs n w =
           (Continue (case xs of [] \<Rightarrow> n
                      | _ \<Rightarrow> List.find (query_matches (ByProjectIdAndRevision
                                (pr_Identifier (rt_ProjectRef rt)) (rev_Revision (last xs)))) (versions w)), w)"
proof (induction xs arbitrary: n)
  case Nil
  show ?case by simp
next
  case (Cons rv xs)
  let ?q = "\<lambda>r. ByProjectIdAndRevision (pr_Identifier (rt_ProjectRef rt)) (rev_Revision r)"
  from Cons.prems have "\<exists>v \<in> set (versions w). query_matches (?q rv) v" by simp
  from find_present [OF this] obtain ex where ex: "List.find (query_matches (?q rv)) (versions w) = Some ex"
    by blast
  have b: "StoreRevisions_body E rt rv n w = (Continue (Some ex), w)"
    using assms ex by (intro StoreRevisions_body_existing) simp_all
  have "StoreRevisions_loop E rt xs (Some ex) w =
           (Continue (case xs of [] \<Rightarrow> Some ex
                      | _ \<Rightarrow> List.find (query_matches (?q (last xs))) (versions w)), w)"
    using Cons.IH [of "Some ex"] Cons.prems by simp
  then show ?case using b ex by (cases xs) simp_all
qed

text \<open>
  Claim C1.  Let the store answer its lookups, hold no two versions with one id, and
  hold a version of the project for every revision of the batch (as after a run that
  stored them all).  Then each iteration of \<open>StoreRevisions\<close> finds the stored version
  of its revision, binds it and leaves the whole state as it is, writes and log
  included; the run returns the stored version of the newest revision and no error,
  with the state unchanged; so a second run over the list returns what the first one
  of them returned and inserts nothing.
\<close>

theorem C1_idempotent:
  assumes "\<forall>r. find_err E (ByProjectIdAndRevision (pr_Identifier (rt_ProjectRef rt)) r) = None"
      and "\<forall>i. find_err E (ById i) = None"
      and "\<forall>rv \<in> set revisions. \<exists>v \<in> set (versions w).
             v_Identifier v = pr_Identifier (rt_ProjectRef rt) \<and> v_Revision v = rev_Revision rv"
      and "distinct (map v_Id (versions w))"
  shows "(\<forall>rv \<in> set revisions. \<forall>n. \<exists>ex \<in> set (versions w).
            v_Identifier ex = pr_Identifier (rt_ProjectRef rt) \<and> v_Revision ex = rev_Revision rv \<and>
            StoreRevisions_body E rt rv n w = (Continue (Some ex), w)) \<and>
         (\<exists>res. StoreRevisions E rt revisions w = (Returned (res, None), w) \<and>
            (case revisions of
               [] \<Rightarrow> res = None
             | rv # _ \<Rightarrow> (\<exists>ex \<in> set (versions w). res = Some ex \<and>
                   v_Identifier ex = pr_Identifier (rt_ProjectRef rt) \<and>
                   v_Revision ex = rev_Revision rv))) \<and>
         StoreRevisions E rt revisions (snd (StoreRevisions E rt revisions w))
           = StoreRevisions E rt revisions w"
proof -
  let ?p = "pr_Identifier (rt_ProjectRef rt)"
  let ?q = "\<lambda>r. ByProjectIdAndRevision ?p (rev_Revision r)"
  have pres: "\<And>rv. rv \<in> set revisions \<Longrightarrow>
     \<exists>ex \<in> set (versions w). query_matches (?q rv) ex \<and> List.find (query_matches (?q rv)) (versions w) = Some ex"
    using assms(3) by (intro find_present) simp
  have a: "\<forall>rv \<in> set revisions. \<forall>n. \<exists>ex \<in> set (versions w).
            v_Identifier ex = ?p \<and> v_Revision ex = rev_Revision rv \<and>
            StoreRevisions_body E rt rv n w = (Continue (Some ex), w)"
  proof (intro ballI allI)
    fix rv n assume "rv \<in> set revisions"
    from pres [OF this] obtain ex where ex: "ex \<in> set (versions w)" "query_matches (?q rv) ex"
      "List.find (query_matches (?q rv)) (versions w) = Some ex" by blast
    have "StoreRevisions_body E rt rv n w = (Continue (Some ex), w)"
      using assms(1) ex(3) by (intro StoreRevisions_body_existing) simp_all
    then show "\<exists>ex \<in> set (versions w). v_Identifier ex = ?p \<and> v_Revision ex = rev_Revision rv \<and>
            StoreRevisions_body E rt rv n w = (Continue (Some ex), w)"
      using ex(1,2) by auto
  qed
  have all: "\<forall>rv \<in> set (rev revisions). \<exists>v \<in> set (versions w). query_matches (?q rv) v"
    using assms(3) by simp
  note lp = StoreRevisions_loop_existing [OF assms(1) all, of None]
  have b: "\<exists>res. StoreRevisions E rt revisions w = (Returned (res, None), w) \<and>
            (case revisions of
               [] \<Rightarrow> res = None
             | rv # _ \<Rightarrow> (\<exists>ex \<in> set (versions w). res = Some ex \<and> v_Identifier ex = ?p \<and>
                   v_Revision ex = rev_Revision rv))"
  proof (cases revisions)
    case Nil
    then show ?thesis by (simp add: StoreRevisions_def deferred_refetch_def)
  next
    case (Cons rv rest)
    then have "rv \<in> set revisions" by simp
    from pres [OF this] obtain ex where ex: "ex \<in> set (versions w)" "query_matches (?q rv) ex"
      "List.find (query_matches (?q rv)) (versions w) = Some ex" by blast
    have "last (rev revisions) = rv" using Cons by simp
    moreover have "rev revisions \<noteq> []" using Cons by simp
    ultimately have l: "StoreRevisions_loop E rt (rev revisions) None w = (Continue (Some ex), w)"
      using lp ex(3) by (cases "rev revisions") simp_all
    have qm: "query_matches (ById (v_Id ex)) = (\<lambda>y. v_Id y = v_Id ex)" by (rule ext) simp
    have "FindOne E (ById (v_Id ex)) w = (Some ex, None)"
      using assms(2,4) ex(1) find_distinct_key [of v_Id "versions w" ex]
      by (simp add: FindOne_def qm)
    then have "StoreRevisions E rt revisions w = (Returned (Some ex, None), w)"
      using l by (simp add: StoreRevisions_def deferred_refetch_def)
    then show ?thesis using Cons ex(1,2) by auto
  qed
  then have c: "StoreRevisions E rt revisions (snd (StoreRevisions E rt revisions w))
           = StoreRevisions E rt revisions w" by auto
  show ?thesis using a b c by (intro conjI)
qed


text \<open>The second run over two revisions that a first run stored.\<close>

theorem C1_idempotent_witness:
  "map v_Revision (versions (snd (StoreRevisions ex_env
        (ex_tracker (\<lambda>r. (Some ex_project, None)) (\<lambda>r. ([], None)) [])
        [ex_revision ''r2'', ex_revision ''r1''] (ex_world [] 0)))) = [''r1'', ''r2''] \<and>
   distinct (map v_Id (versions (snd (StoreRevisions ex_env
        (ex_tracker (\<lambda>r. (Some ex_project, None)) (\<lambda>r. ([], None)) [])
        [ex_revision ''r2'', ex_revision ''r1''] (ex_world [] 0))))) \<and>
   StoreRevisions ex_env (ex_tracker (\<lambda>r. (Some ex_project, None)) (\<lambda>r. ([], None)) [])
        [ex_revision ''r2'', ex_revision ''r1'']
        (snd (StoreRevisions ex_env
           (ex_tracker (\<lambda>r. (Some ex_project, None)) (\<lambda>r. ([], None)) [])
           [ex_revision ''r2'', ex_revision ''r1''] (ex_world [] 0)))
     = StoreRevisions ex_env (ex_tracker (\<lambda>r. (Some ex_project, None)) (\<lambda>r. ([], None)) [])
        [ex_revision ''r2'', ex_revision ''r1''] (ex_world [] 0)"
proof -
  let ?rt = "ex_tracker (\<lambda>r. (Some ex_project, None)) (\<lambda>r. ([], None)) []"
  let ?revs = "[ex_revision ''r2'', ex_revision ''r1'']"
  let ?first = "StoreRevisions ex_env ?rt ?revs (ex_world [] 0)"
  let ?w = "snd ?first"
  have h1: "\<forall>r. find_err ex_env (ByProjectIdAndRevision (pr_Identifier (rt_ProjectRef ?rt)) r) = None"
    by (simp add: ex_env_def)
  have h2: "\<forall>i. find_err ex_env (ById i) = None" by (simp add: ex_env_def)
  have vs: "map v_Revision (versions ?w) = [''r1'', ''r2'']" by code_simp
  have vi: "map v_Identifier (versions ?w) = [''p'', ''p'']" by code_simp
  have h4: "distinct (map v_Id (versions ?w))" by code_simp
  from vs vi obtain a b where ab: "versions ?w = [a, b]" "v_Revision a = ''r1''" "v_Revision b = ''r2''"
    "v_Identifier a = ''p''" "v_Identifier b = ''p''"
    by (auto simp add: map_eq_Cons_conv)
  have h3: "\<forall>rv \<in> set ?revs. \<exists>v \<in> set (versions ?w).
             v_Identifier v = pr_Identifier (rt_ProjectRef ?rt) \<and> v_Revision v = rev_Revision rv"
    using ab by (simp add: ex_defs)
  from C1_idempotent [OF h1 h2 h3 h4]
  have "\<exists>res. StoreRevisions ex_env ?rt ?revs ?w = (Returned (res, None), ?w) \<and>
            (case ?revs of
               [] \<Rightarrow> res = None
             | rv # _ \<Rightarrow> (\<exists>ex \<in> set (versions ?w). res = Some ex \<and>
                   v_Identifier ex = pr_Identifier (rt_ProjectRef ?rt) \<and>
                   v_Revision ex = rev_Revision rv))"
    by blast
  then obtain ex where second: "StoreRevisions ex_env ?rt ?revs ?w = (Returned (Some ex, None), ?w)"
    and ex: "ex \<in> set (versions ?w)" "v_Revision ex = ''r2''"
    by (auto simp add: ex_revision_def)
  from ex ab have "ex = b" by auto
  moreover have "fst ?first = Returned (Some (last (versions ?w)), None)" by code_simp
  ultimately have "?first = (Returned (Some ex, None), ?w)" using ab(1) by (simp add: prod_eq_iff)
  then show ?thesis using second vs h4 by simp
qed


lemma GetProjectConfig_infrastructural:
  assumes "pr_LocalConfig (rt_ProjectRef rt) = []"
      and "GetRemoteConfig rt revision = (cfg, Some x)"
      and "\<not> is_config_fetch_error x"
  shows "fst (GetProjectConfig E rt revision w) = (None, Some x)"
  using assms by (simp add: GetProjectConfig_def Let_def split_def)

lemma run_ok_repositories: "run_ok p w w' \<Longrightarrow> repositories w' = repositories w"
  by (simp add: run_ok_def)

text \<open>
  Claim C3.  Let the revisions older than \<open>rv\<close> be processed (the loop over them
  continues, in state \<open>w1\<close>), let no version be found for \<open>rv\<close>, and let the fetch of
  its remote config fail with an error that is none of the three config-fetch errors.
  Then \<open>StoreRevisions\<close> returns that error and no version, whatever revisions follow
  \<open>rv\<close> in the batch; versions, builds, tasks and the counter are those of \<open>w1\<close>, so
  nothing is stored for \<open>rv\<close> or for a later revision; and \<open>FetchRevisions\<close>, polling
  this batch, returns the error and leaves the watermark as it was before the run.
\<close>

theorem C3_fatal_abort:
  assumes "pr_LocalConfig (rt_ProjectRef rt) = []"
      and "GetRemoteConfig rt (rev_Revision rv) = (cfg, Some x)"
      and "\<not> is_config_fetch_error x"
      and "\<forall>es ws. x \<noteq> projectConfigError es ws"
      and "StoreRevisions_loop E rt (rev earlier) None w = (Continue n1, w1)"
      and "fst (FindOne E (ByProjectIdAndRevision (pr_Identifier (rt_ProjectRef rt)) (rev_Revision rv)) w1)
             = None"
  shows "\<exists>w2. StoreRevisions E rt (later @ rv # earlier) w = (Returned (None, Some x), w2) \<and>
           versions w2 = versions w1 \<and> builds w2 = builds w1 \<and> tasks w2 = tasks w1 \<and>
           counters w2 = counters w1 \<and> repositories w2 = repositories w \<and>
           (pr_Enabled (rt_ProjectRef rt) \<and>
            find_repository_err E (pr_Identifier (rt_ProjectRef rt)) = None \<and>
            poll_revisions rt (case repositories w (pr_Identifier (rt_ProjectRef rt)) of
                                 None \<Rightarrow> [] | Some r \<Rightarrow> r) = Some (later @ rv # earlier, None)
            \<longrightarrow> (\<exists>w3. FetchRevisions E rt w = (Returned (Some (Wrapped [] x)), w3) \<and>
                      repositories w3 = repositories w \<and> versions w3 = versions w1 \<and>
                      builds w3 = builds w1 \<and> tasks w3 = tasks w1))"
proof -
  let ?p = "pr_Identifier (rt_ProjectRef rt)"
  let ?fo = "FindOne E (ByProjectIdAndRevision ?p (rev_Revision rv)) w1"
  let ?w0 = "grip_WrapError Error (snd ?fo) ''problem looking up version for project'' w1"
  let ?g = "GetProjectConfig E rt (rev_Revision rv) ?w0"
  let ?w2 = "grip Error ''error getting project config'' (snd ?g)"
  have g: "snd (fst ?g) = Some x"
    using GetProjectConfig_infrastructural [OF assms(1,2,3), of E ?w0] by simp
  have body: "StoreRevisions_body E rt rv n1 w1 = (Return None (Some x), ?w2)"
    using StoreRevisions_body_fatal [OF assms(6) g assms(4)] .
  have "StoreRevisions_loop E rt (rev (later @ rv # earlier)) None w = (Return None (Some x), ?w2)"
    using assms(5) body by (simp add: StoreRevisions_loop_append)
  then have sr: "StoreRevisions E rt (later @ rv # earlier) w = (Returned (None, Some x), ?w2)"
    by (simp add: StoreRevisions_def deferred_refetch_def)
  have rp1: "repositories w1 = repositories w"
    using StoreRevisions_loop_effect [OF assms(5)] by (rule run_ok_repositories)
  have fr: "versions ?w2 = versions w1" "builds ?w2 = builds w1" "tasks ?w2 = tasks w1"
    "counters ?w2 = counters w1" "repositories ?w2 = repositories w"
    using rp1 by simp_all
  have fetch: "pr_Enabled (rt_ProjectRef rt) \<and> find_repository_err E ?p = None \<and>
            poll_revisions rt (case repositories w ?p of None \<Rightarrow> [] | Some r \<Rightarrow> r)
              = Some (later @ rv # earlier, None)
            \<longrightarrow> (\<exists>w3. FetchRevisions E rt w = (Returned (Some (Wrapped [] x)), w3) \<and>
                      repositories w3 = repositories w \<and> versions w3 = versions w1 \<and>
                      builds w3 = builds w1 \<and> tasks w3 = tasks w1)"
  proof
    assume h: "pr_Enabled (rt_ProjectRef rt) \<and> find_repository_err E ?p = None \<and>
            poll_revisions rt (case repositories w ?p of None \<Rightarrow> [] | Some r \<Rightarrow> r)
              = Some (later @ rv # earlier, None)"
    then have "FetchRevisions E rt w =
                 (Returned (Some (Wrapped [] x)),
                  grip Error ''problem sorting revisions for repository'' ?w2)"
      using sr by (simp add: FetchRevisions_def ProjectRef_String_def FindRepository_def Let_def)
    then show "\<exists>w3. FetchRevisions E rt w = (Returned (Some (Wrapped [] x)), w3) \<and>
                      repositories w3 = repositories w \<and> versions w3 = versions w1 \<and>
                      builds w3 = builds w1 \<and> tasks w3 = tasks w1"
      using fr by simp
  qed
  show ?thesis using sr fr fetch by (intro exI [of _ ?w2] conjI)
qed


text \<open>A batch of three whose middle revision meets a transport error: the oldest is
  stored, the error comes back, and the watermark of the project stays unset.\<close>

theorem C3_fatal_abort_witness:
  "fst (StoreRevisions ex_env
          (ex_tracker (\<lambda>r. if r = ''r2'' then (None, Some (OtherError ''timeout''))
                            else (Some ex_project, None))
             (\<lambda>r. ([], None)) [ex_revision ''r3'', ex_revision ''r2'', ex_revision ''r1''])
          ([ex_revision ''r3''] @ ex_revision ''r2'' # [ex_revision ''r1'']) (ex_world [] 0))
     = Returned (None, Some (OtherError ''timeout'')) \<and>
   map v_Revision (versions (snd (StoreRevisions ex_env
          (ex_tracker (\<lambda>r. if r = ''r2'' then (None, Some (OtherError ''timeout''))
                            else (Some ex_project, None))
             (\<lambda>r. ([], None)) [ex_revision ''r3'', ex_revision ''r2'', ex_revision ''r1''])
          ([ex_revision ''r3''] @ ex_revision ''r2'' # [ex_revision ''r1'']) (ex_world [] 0))))
     = [''r1''] \<and>
   fst (FetchRevisions ex_env
          (ex_tracker (\<lambda>r. if r = ''r2'' then (None, Some (OtherError ''timeout''))
                            else (Some ex_project, None))
             (\<lambda>r. ([], None)) [ex_revision ''r3'', ex_revision ''r2'', ex_revision ''r1''])
          (ex_world [] 0))
     = Returned (Some (Wrapped [] (OtherError ''timeout''))) \<and>
   repositories (snd (FetchRevisions ex_env
          (ex_tracker (\<lambda>r. if r = ''r2'' then (None, Some (OtherError ''timeout''))
                            else (Some ex_project, None))
             (\<lambda>r. ([], None)) [ex_revision ''r3'', ex_revision ''r2'', ex_revision ''r1''])
          (ex_world [] 0))) ''p'' = None"
proof -
  let ?rt = "ex_tracker (\<lambda>r. if r = ''r2'' then (None, Some (OtherError ''timeout''))
                            else (Some ex_project, None))
             (\<lambda>r. ([], None)) [ex_revision ''r3'', ex_revision ''r2'', ex_revision ''r1'']"
  let ?w = "ex_world [] 0"
  let ?x = "OtherError ''timeout''"
  let ?l = "StoreRevisions_loop ex_env ?rt (rev [ex_revision ''r1'']) None ?w"
  let ?n1 = "case fst ?l of Continue n \<Rightarrow> n | _ \<Rightarrow> None"
  have h1: "pr_LocalConfig (rt_ProjectRef ?rt) = []" by (simp add: ex_defs)
  have h2: "GetRemoteConfig ?rt (rev_Revision (ex_revision ''r2'')) = (None, Some ?x)"
    by (simp add: ex_defs)
  have h3: "\<not> is_config_fetch_error ?x" by simp
  have h4: "\<forall>es ws. ?x \<noteq> projectConfigError es ws" by simp
  have "fst ?l = Continue ?n1" by code_simp
  then have h5: "?l = (Continue ?n1, snd ?l)" by (metis prod.collapse)
  have h6: "fst (FindOne ex_env (ByProjectIdAndRevision (pr_Identifier (rt_ProjectRef ?rt))
                   (rev_Revision (ex_revision ''r2''))) (snd ?l)) = None"
    by code_simp
  have vs: "map v_Revision (versions (snd ?l)) = [''r1'']" by code_simp
  have pre: "pr_Enabled (rt_ProjectRef ?rt) \<and>
            find_repository_err ex_env (pr_Identifier (rt_ProjectRef ?rt)) = None \<and>
            poll_revisions ?rt (case repositories ?w (pr_Identifier (rt_ProjectRef ?rt)) of
                                 None \<Rightarrow> [] | Some r \<Rightarrow> r)
              = Some ([ex_revision ''r3''] @ ex_revision ''r2'' # [ex_revision ''r1''], None)"
    by (simp add: ex_defs poll_revisions_def)
  from C3_fatal_abort [OF h1 h2 h3 h4 h5 h6, of "[ex_revision ''r3'']"] pre
  obtain w2 w3 where
    sr: "StoreRevisions ex_env ?rt ([ex_revision ''r3''] @ ex_revision ''r2'' # [ex_revision ''r1'']) ?w
           = (Returned (None, Some ?x), w2)"
    and v2: "versions w2 = versions (snd ?l)"
    and fe: "FetchRevisions ex_env ?rt ?w = (Returned (Some (Wrapped [] ?x)), w3)"
    and r3: "repositories w3 = repositories ?w"
    by blast
  have "repositories w3 ''p'' = None" using r3 by (simp add: ex_world_def)
  then show ?thesis using sr v2 vs fe by simp
qed


lemma GetProjectConfig_recoverable:
  assumes "pr_LocalConfig (rt_ProjectRef rt) = []"
      and "GetRemoteConfig rt revision = (cfg, Some x)"
      and "is_config_fetch_error x"
  shows "fst (GetProjectConfig E rt revision w) =
           (None, Some (projectConfigError
              [Fields_String E [(''message'', ''problem finding project configuration''),
                                (''project'', pr_Identifier (rt_ProjectRef rt)),
                                (''revision'', revision),
                                (''path'', pr_RemotePath (rt_ProjectRef rt))]] []))"
  using assms by (simp add: GetProjectConfig_def Let_def split_def)

lemma StoreRevisions_body_stub:
  assumes "pr_LocalConfig (rt_ProjectRef rt) = []"
      and "GetRemoteConfig rt (rev_Revision rv) = (cfg, Some x)"
      and "is_config_fetch_error x"
      and "fst (FindOne E (ByProjectIdAndRevision (pr_Identifier (rt_ProjectRef rt)) (rev_Revision rv)) w) = None"
      and "fst (shellVersionFromRevision E (rt_ProjectRef rt) rv w) = Inr sv"
      and "stub = sv\<lparr> v_Errors := [Fields_String E
                          [(''message'', ''problem finding project configuration''),
                           (''project'', pr_Identifier (rt_ProjectRef rt)),
                           (''revision'', rev_Revision rv),
                           (''path'', pr_RemotePath (rt_ProjectRef rt))]],
                      v_Warnings := [] \<rparr>"
  shows "\<exists>w'. StoreRevisions_body E rt rv n w = (Continue (Some stub), w') \<and>
           builds w' = builds w \<and> tasks w' = tasks w \<and> repositories w' = repositories w \<and>
           versions w' = (if fst (Insert E stub w) = None then versions w @ [stub] else versions w) \<and>
           (fst (Insert E stub w) \<noteq> None \<longrightarrow> (Error, ''error inserting shell version'') \<in> set (logs w'))"
proof -
  let ?ref = "rt_ProjectRef rt"
  let ?fo = "FindOne E (ByProjectIdAndRevision (pr_Identifier ?ref) (rev_Revision rv)) w"
  let ?w0 = "grip_WrapError Error (snd ?fo) ''problem looking up version for project'' w"
  let ?g = "GetProjectConfig E rt (rev_Revision rv) ?w0"
  let ?msg = "Fields_String E [(''message'', ''problem finding project configuration''),
                           (''project'', pr_Identifier ?ref), (''revision'', rev_Revision rv),
                           (''path'', pr_RemotePath ?ref)]"
  let ?sh = "shellVersionFromRevision E ?ref rv (snd ?g)"
  let ?ins = "Insert E stub (snd ?sh)"
  let ?w' = "grip_WrapError Error (fst ?ins) ''error inserting shell version'' (snd ?ins)"
  have g: "fst ?g = (None, Some (projectConfigError [?msg] []))"
    using GetProjectConfig_recoverable [OF assms(1,2,3)] .
  have sh: "fst ?sh = Inr sv"
    using assms(5) shellVersionFromRevision_fst_cong [of "snd ?g" w E ?ref rv] by simp
  have "store_stub E ?ref rv \<lparr>ve_Errors = [?msg], ve_Warnings = []\<rparr> (snd ?g) = (Continue (Some stub), ?w')"
    using sh assms(6) by (simp add: store_stub_def split_def Let_def)
  then have body: "StoreRevisions_body E rt rv n w = (Continue (Some stub), ?w')"
    using assms(4) g by (simp add: StoreRevisions_body_unfold Let_def)
  have fi: "fst ?ins = fst (Insert E stub w)" by (rule Insert_fst_cong) simp
  have vs: "versions ?w' = (if fst (Insert E stub w) = None then versions w @ [stub] else versions w)"
    using fi by (simp add: Insert_versions)
  have lg: "fst (Insert E stub w) \<noteq> None \<longrightarrow> (Error, ''error inserting shell version'') \<in> set (logs ?w')"
    using fi by auto
  have fr: "builds ?w' = builds w" "tasks ?w' = tasks w" "repositories ?w' = repositories w"
    by simp_all
  show ?thesis using body fr vs lg by (intro exI [of _ ?w'] conjI)
qed

text \<open>
  Claim C10.  Let the fetch of the remote config of \<open>rv\<close> fail with one of the three
  config-fetch errors, let no version be found for \<open>rv\<close>, let the counter give the
  shell version \<open>sv\<close>, and let the insert of the stub fail, with any error.  Then the
  iteration returns no error: the failure is logged, no version is stored, the stub
  that was not stored is bound as newest version, and the loop goes on with the later
  revisions.  If the rest of the batch ends with a newest version that the store finds
  by id, and the watermark update and the activation pass succeed, then
  \<open>FetchRevisions\<close> returns success and has moved the watermark to the revision of that
  version, past \<open>rv\<close>.
\<close>

theorem C10_stub_insert_failure:
  assumes "pr_LocalConfig (rt_ProjectRef rt) = []"
      and "GetRemoteConfig rt (rev_Revision rv) = (cfg, Some x)"
      and "is_config_fetch_error x"
      and "StoreRevisions_loop E rt (rev earlier) None w0 = (Continue n, w)"
      and "fst (FindOne E (ByProjectIdAndRevision (pr_Identifier (rt_ProjectRef rt)) (rev_Revision rv)) w) = None"
      and "fst (shellVersionFromRevision E (rt_ProjectRef rt) rv w) = Inr sv"
      and "stub = sv\<lparr> v_Errors := [Fields_String E
                          [(''message'', ''problem finding project configuration''),
                           (''project'', pr_Identifier (rt_ProjectRef rt)),
                           (''revision'', rev_Revision rv),
                           (''path'', pr_RemotePath (rt_ProjectRef rt))]],
                      v_Warnings := [] \<rparr>"
      and "fst (Insert E stub w) = Some y"
  shows "\<exists>w'. StoreRevisions_body E rt rv n w = (Continue (Some stub), w') \<and>
           versions w' = versions w \<and> builds w' = builds w \<and> tasks w' = tasks w \<and>
           (Error, ''error inserting shell version'') \<in> set (logs w') \<and>
           StoreRevisions_loop E rt (rev (later @ rv # earlier)) None w0
             = StoreRevisions_loop E rt (rev later) (Some stub) w' \<and>
           (\<forall>nv wf lv.
              pr_Enabled (rt_ProjectRef rt) \<and>
              find_repository_err E (pr_Identifier (rt_ProjectRef rt)) = None \<and>
              poll_revisions rt (case repositories w0 (pr_Identifier (rt_ProjectRef rt)) of
                                   None \<Rightarrow> [] | Some r \<Rightarrow> r) = Some (later @ rv # earlier, None) \<and>
              StoreRevisions_loop E rt (rev later) (Some stub) w' = (Continue (Some nv), wf) \<and>
              FindOne E (ById (v_Id nv)) wf = (Some lv, None) \<and>
              update_last_revision_err E (v_Identifier lv) (v_Revision lv) = None \<and>
              (\<forall>u. fst (DoProjectActivation E (pr_Identifier (rt_ProjectRef rt)) u) = None)
              \<longrightarrow> (\<exists>wu. FetchRevisions E rt w0 =
                           (Returned None, snd (DoProjectActivation E (pr_Identifier (rt_ProjectRef rt)) wu)) \<and>
                        repositories wu = (repositories wf)(v_Identifier lv \<mapsto> v_Revision lv) \<and>
                        versions wu = versions wf))"
proof -
  let ?p = "pr_Identifier (rt_ProjectRef rt)"
  from StoreRevisions_body_stub [OF assms(1,2,3,5,6,7), of n] assms(8)
  obtain w' where body: "StoreRevisions_body E rt rv n w = (Continue (Some stub), w')"
    and fr: "builds w' = builds w" "tasks w' = tasks w" "versions w' = versions w"
      "(Error, ''error inserting shell version'') \<in> set (logs w')"
    by auto
  have lp: "StoreRevisions_loop E rt (rev (later @ rv # earlier)) None w0
             = StoreRevisions_loop E rt (rev later) (Some stub) w'"
    using assms(4) body by (simp add: StoreRevisions_loop_append)
  have fetch: "\<forall>nv wf lv.
              pr_Enabled (rt_ProjectRef rt) \<and> find_repository_err E ?p = None \<and>
              poll_revisions rt (case repositories w0 ?p of None \<Rightarrow> [] | Some r \<Rightarrow> r)
                = Some (later @ rv # earlier, None) \<and>
              StoreRevisions_loop E rt (rev later) (Some stub) w' = (Continue (Some nv), wf) \<and>
              FindOne E (ById (v_Id nv)) wf = (Some lv, None) \<and>
              update_last_revision_err E (v_Identifier lv) (v_Revision lv) = None \<and>
              (\<forall>u. fst (DoProjectActivation E ?p u) = None)
              \<longrightarrow> (\<exists>wu. FetchRevisions E rt w0 = (Returned None, snd (DoProjectActivation E ?p wu)) \<and>
                        repositories wu = (repositories wf)(v_Identifier lv \<mapsto> v_Revision lv) \<and>
                        versions wu = versions wf)"
  proof (intro allI impI)
    fix nv wf lv
    assume h: "pr_Enabled (rt_ProjectRef rt) \<and> find_repository_err E ?p = None \<and>
              poll_revisions rt (case repositories w0 ?p of None \<Rightarrow> [] | Some r \<Rightarrow> r)
                = Some (later @ rv # earlier, None) \<and>
              StoreRevisions_loop E rt (rev later) (Some stub) w' = (Continue (Some nv), wf) \<and>
              FindOne E (ById (v_Id nv)) wf = (Some lv, None) \<and>
              update_last_revision_err E (v_Identifier lv) (v_Revision lv) = None \<and>
              (\<forall>u. fst (DoProjectActivation E ?p u) = None)"
    let ?wu = "wf\<lparr>repositories := (repositories wf)(v_Identifier lv \<mapsto> v_Revision lv)\<rparr>"
    have sr: "StoreRevisions E rt (later @ rv # earlier) w0 = (Returned (Some lv, None), wf)"
      using h lp by (simp add: StoreRevisions_def deferred_refetch_def)
    have act: "activate_project E ?p ?wu = (Returned None, snd (DoProjectActivation E ?p ?wu))"
      using h by (simp add: activate_project_def split_def Let_def)
    have "FetchRevisions E rt w0 = (Returned None, snd (DoProjectActivation E ?p ?wu))"
      using h sr act
      by (simp add: FetchRevisions_def ProjectRef_String_def FindRepository_def UpdateLastRevision_def
          Let_def)
    then show "\<exists>wu. FetchRevisions E rt w0 = (Returned None, snd (DoProjectActivation E ?p wu)) \<and>
                        repositories wu = (repositories wf)(v_Identifier lv \<mapsto> v_Revision lv) \<and>
                        versions wu = versions wf"
      by (intro exI [of _ ?wu]) simp
  qed
  show ?thesis using body fr lp fetch by (intro exI [of _ w'] conjI)
qed


lemma GetProjectConfig_success:
  assumes "pr_LocalConfig (rt_ProjectRef rt) = []"
      and "GetRemoteConfig rt revision = (Some pj, None)"
  shows "GetProjectConfig E rt revision w = ((Some pj, None), w)"
  using assms by (simp add: GetProjectConfig_def Let_def split_def)

lemma sanityCheckOrderNum_violation:
  assumes "FindOne E (ByMostRecentSystemRequester p) w = (Some l, None)"
      and "v_Revision l = r \<or> k \<le> v_RevisionOrderNumber l"
  shows "fst (sanityCheckOrderNum E k p r w) \<noteq> None"
  using assms by (auto simp add: sanityCheckOrderNum_def Let_def)

lemma CreateVersionFromConfig_inconsistent:
  assumes "fst (shellVersionFromRevision E ref rv w) = Inr sv"
      and "fst (sanityCheckOrderNum E (v_RevisionOrderNumber sv) (pr_Identifier ref) (rev_Revision rv) w) = Some e"
  shows "\<exists>w'. CreateVersionFromConfig E ref (Some cfg) rv ig ve w
                = ((None, Some (Wrapped ''inconsistent version order'' e)), w') \<and>
              versions w' = versions w \<and> builds w' = builds w \<and> tasks w' = tasks w"
proof -
  let ?sh = "shellVersionFromRevision E ref rv w"
  let ?sc = "sanityCheckOrderNum E (v_RevisionOrderNumber sv) (pr_Identifier ref) (rev_Revision rv) (snd ?sh)"
  have "fst ?sc = Some e"
    using assms(2) sanityCheckOrderNum_fst_cong [of "snd ?sh" w] by simp
  then have "CreateVersionFromConfig E ref (Some cfg) rv ig ve w
               = ((None, Some (Wrapped ''inconsistent version order'' e)), snd ?sc)"
    using assms(1) by (simp add: CreateVersionFromConfig_def split_def)
  then show ?thesis by (intro exI [of _ "snd ?sc"]) simp
qed

lemma GetProjectConfig_resolved:
  assumes "fst (GetProjectConfig E rt revision w) = (Some pj, None)"
  shows "GetProjectConfig E rt revision w' = ((Some pj, None), w')"
  using assms
  by (auto simp add: GetProjectConfig_def Let_def split_def split: option.splits if_splits)

lemma GetProjectConfig_local:
  assumes "pr_LocalConfig (rt_ProjectRef rt) \<noteq> []"
  shows "GetProjectConfig E rt revision w = (FindProject E (rt_ProjectRef rt), w)"
  using assms by (simp add: GetProjectConfig_def Let_def)

text \<open>
  Claim C2, as the code has it.  Let the lookup of a stored version for \<open>rv\<close> find none,
  let \<open>GetProjectConfig\<close> resolve the config of \<open>rv\<close> without error (from the remote
  repository or from the local config of the project), let the ignore check not skip
  \<open>rv\<close>, and let the shell version \<open>sv\<close> get its order number.  If the latest stored
  version of the project has the revision id of \<open>rv\<close>, or an order number that the new
  one does not exceed, then version creation fails with the error
  \<open>inconsistent version order\<close> and no Version, Build or Task is stored for \<open>rv\<close>; the
  failure is logged, the newest version stays the one bound before, and the loop
  continues with the next revision: the error is not returned.
\<close>

theorem C2_order_violation_skips_revision:
  assumes "fst (GetProjectConfig E rt (rev_Revision rv) w) = (Some pj, None)"
      and "p_Ignore pj = [] \<or> snd (GetChangedFiles rt (rev_Revision rv)) = None"
      and "fst (FindOne E (ByProjectIdAndRevision (pr_Identifier (rt_ProjectRef rt)) (rev_Revision rv)) w) = None"
      and "fst (shellVersionFromRevision E (rt_ProjectRef rt) rv w) = Inr sv"
      and "FindOne E (ByMostRecentSystemRequester (pr_Identifier (rt_ProjectRef rt))) w = (Some l, None)"
      and "v_Revision l = rev_Revision rv \<or> v_RevisionOrderNumber sv \<le> v_RevisionOrderNumber l"
  shows "(\<forall>ig ve. \<exists>e. fst (CreateVersionFromConfig E (rt_ProjectRef rt) (Some pj) rv ig ve w)
                        = (None, Some (Wrapped ''inconsistent version order'' e))) \<and>
         (\<exists>w'. StoreRevisions_body E rt rv n w = (Continue n, w') \<and>
           versions w' = versions w \<and> builds w' = builds w \<and> tasks w' = tasks w \<and>
           (Error, ''error creating version'') \<in> set (logs w') \<and>
           StoreRevisions_loop E rt (rv # rest) n w = StoreRevisions_loop E rt rest n w')"
proof -
  let ?ref = "rt_ProjectRef rt"
  let ?fo = "FindOne E (ByProjectIdAndRevision (pr_Identifier ?ref) (rev_Revision rv)) w"
  let ?w0 = "grip_WrapError Error (snd ?fo) ''problem looking up version for project'' w"
  have g: "GetProjectConfig E rt (rev_Revision rv) ?w0 = ((Some pj, None), ?w0)"
    using assms(1) by (rule GetProjectConfig_resolved)
  have sh: "fst (shellVersionFromRevision E ?ref rv ?w0) = Inr sv"
    using assms(4) shellVersionFromRevision_fst_cong [of ?w0 w E ?ref rv] by simp
  have "fst (sanityCheckOrderNum E (v_RevisionOrderNumber sv) (pr_Identifier ?ref) (rev_Revision rv) w) \<noteq> None"
    using assms(5,6) by (rule sanityCheckOrderNum_violation)
  then obtain e where sw:
    "fst (sanityCheckOrderNum E (v_RevisionOrderNumber sv) (pr_Identifier ?ref) (rev_Revision rv) w) = Some e"
    by blast
  then have sc: "fst (sanityCheckOrderNum E (v_RevisionOrderNumber sv) (pr_Identifier ?ref) (rev_Revision rv) ?w0)
                   = Some e"
    using sanityCheckOrderNum_fst_cong [of ?w0 w] by simp
  have fails: "\<forall>ig ve. \<exists>e. fst (CreateVersionFromConfig E ?ref (Some pj) rv ig ve w)
                        = (None, Some (Wrapped ''inconsistent version order'' e))"
  proof (intro allI)
    fix ig ve
    from CreateVersionFromConfig_inconsistent [OF assms(4) sw, of pj ig ve]
    obtain w1 where "CreateVersionFromConfig E ?ref (Some pj) rv ig ve w
                = ((None, Some (Wrapped ''inconsistent version order'' e)), w1)"
      by blast
    then have "fst (CreateVersionFromConfig E ?ref (Some pj) rv ig ve w)
                = (None, Some (Wrapped ''inconsistent version order'' e))"
      by simp
    then show "\<exists>e. fst (CreateVersionFromConfig E ?ref (Some pj) rv ig ve w)
                = (None, Some (Wrapped ''inconsistent version order'' e))"
      by (rule exI)
  qed
  have sv: "\<And>ig. \<exists>w'. store_version E ?ref pj rv ig None n ?w0 = (Continue n, w') \<and>
           versions w' = versions w \<and> builds w' = builds w \<and> tasks w' = tasks w \<and>
           (Error, ''error creating version'') \<in> set (logs w')"
  proof -
    fix ig
    from CreateVersionFromConfig_inconsistent [OF sh sc, of pj ig None]
    obtain w1 where c: "CreateVersionFromConfig E ?ref (Some pj) rv ig None ?w0
                = ((None, Some (Wrapped ''inconsistent version order'' e)), w1)"
      and fr: "versions w1 = versions ?w0" "builds w1 = builds ?w0" "tasks w1 = tasks ?w0"
      by blast
    have "store_version E ?ref pj rv ig None n ?w0 = (Continue n, grip Error ''error creating version'' w1)"
      using c by (simp add: store_version_def)
    then show "\<exists>w'. store_version E ?ref pj rv ig None n ?w0 = (Continue n, w') \<and>
           versions w' = versions w \<and> builds w' = builds w \<and> tasks w' = tasks w \<and>
           (Error, ''error creating version'') \<in> set (logs w')"
      using fr by (intro exI [of _ "grip Error ''error creating version'' w1"]) simp
  qed
  have "\<exists>ig. check_ignore_and_store E rt (Some pj) rv None n ?w0 = store_version E ?ref pj rv ig None n ?w0"
    using assms(2) by (auto simp add: check_ignore_and_store_def split_def)
  then obtain ig where
    "check_ignore_and_store E rt (Some pj) rv None n ?w0 = store_version E ?ref pj rv ig None n ?w0"
    by blast
  then have "StoreRevisions_body E rt rv n w = store_version E ?ref pj rv ig None n ?w0"
    using assms(3) g by (simp add: StoreRevisions_body_unfold Let_def)
  with sv [of ig] obtain w' where body: "StoreRevisions_body E rt rv n w = (Continue n, w')"
    and fr: "versions w' = versions w" "builds w' = builds w" "tasks w' = tasks w"
      "(Error, ''error creating version'') \<in> set (logs w')"
    by auto
  have "StoreRevisions_loop E rt (rv # rest) n w = StoreRevisions_loop E rt rest n w'"
    using body by simp
  then have "\<exists>w'. StoreRevisions_body E rt rv n w = (Continue n, w') \<and>
           versions w' = versions w \<and> builds w' = builds w \<and> tasks w' = tasks w \<and>
           (Error, ''error creating version'') \<in> set (logs w') \<and>
           StoreRevisions_loop E rt (rv # rest) n w = StoreRevisions_loop E rt rest n w'"
    using body fr by (intro exI [of _ w'] conjI)
  with fails show ?thesis by (rule conjI)
qed


lemma CreateBuildFromVersion_mono:
  "set (builds w) \<subseteq> set (builds (snd (CreateBuildFromVersion E project v taskIds n w)))"
  "set (tasks w) \<subseteq> set (tasks (snd (CreateBuildFromVersion E project v taskIds n w)))"
  by (auto simp add: CreateBuildFromVersion_def Let_def split: option.splits)

lemma CreateBuildFromVersion_stores:
  assumes "snd (fst (CreateBuildFromVersion E project v taskIds n w)) = None"
  shows "\<exists>b \<in> set (builds (snd (CreateBuildFromVersion E project v taskIds n w))).
           b_Id b = BuildId E (v_Id v) n \<and> b_Version b = v_Id v \<and> b_BuildVariant b = n \<and>
           (\<forall>tid \<in> set (b_Tasks b).
              \<exists>t \<in> set (tasks (snd (CreateBuildFromVersion E project v taskIds n w))).
                 t_Id t = tid \<and> t_BuildId t = b_Id b)"
proof -
  let ?cb = "CreateBuildFromVersion E project v taskIds n w"
  from assms obtain bv where ce: "create_build_err E (v_Id v) n = None"
    and bv: "List.find (\<lambda>bv. bv_Name bv = n) (p_BuildVariants project) = Some bv"
    by (auto simp add: CreateBuildFromVersion_def Let_def split: option.splits)
  let ?bid = "BuildId E (v_Id v) n"
  let ?ts = "map (\<lambda>tn. \<lparr> t_Id = task_id_of taskIds n tn, t_BuildId = ?bid,
                          t_BuildVariant = n, t_DisplayName = tn, t_Version = v_Id v \<rparr>) (bv_Tasks bv)"
  let ?b = "\<lparr> b_Id = ?bid, b_Version = v_Id v, b_BuildVariant = n, b_Tasks = map t_Id ?ts \<rparr>"
  have w': "snd ?cb = w\<lparr>builds := builds w @ [?b], tasks := tasks w @ ?ts\<rparr>"
    using ce bv by (simp add: CreateBuildFromVersion_def Let_def)
  have "?b \<in> set (builds (snd ?cb))" unfolding w' by simp
  moreover have "\<forall>tid \<in> set (b_Tasks ?b). \<exists>t \<in> set (tasks (snd ?cb)). t_Id t = tid \<and> t_BuildId t = b_Id ?b"
  proof
    fix tid assume "tid \<in> set (b_Tasks ?b)"
    then obtain tn where tn: "tn \<in> set (bv_Tasks bv)" "tid = task_id_of taskIds n tn" by auto
    let ?t = "\<lparr> t_Id = task_id_of taskIds n tn, t_BuildId = ?bid,
                t_BuildVariant = n, t_DisplayName = tn, t_Version = v_Id v \<rparr>"
    have "?t \<in> set (tasks (snd ?cb))" unfolding w' using tn(1) by simp
    then show "\<exists>t \<in> set (tasks (snd ?cb)). t_Id t = tid \<and> t_BuildId t = b_Id ?b"
      using tn(2) by (intro bexI [of _ ?t]) simp_all
  qed
  ultimately show ?thesis by (intro bexI [of _ ?b]) simp_all
qed

lemma create_builds_mono:
  "create_builds E ref project taskIds bvs v w = (e, v', w') \<Longrightarrow>
   set (builds w) \<subseteq> set (builds w') \<and> set (tasks w) \<subseteq> set (tasks w')"
proof (induction bvs arbitrary: v w)
  case Nil
  then show ?case by simp
next
  case (Cons bv bvs)
  show ?case
  proof (cases "bv_Disabled bv")
    case True
    then show ?thesis using Cons.IH [of v w] Cons.prems by simp
  next
    case False
    let ?cb = "CreateBuildFromVersion E project v taskIds (bv_Name bv) w"
    let ?fo = "FindOne E (ByLastVariantActivation (pr_Identifier ref) (bv_Name bv)) (snd ?cb)"
    let ?s = "\<lparr> bs_BuildVariant = bv_Name bv, bs_Activated = False,
               bs_ActivateAt = compute_activateAt E ref (v_Id v) bv (lastActivation_of (bv_Name bv) (fst ?fo)),
               bs_BuildId = fst (fst ?cb) \<rparr>"
    let ?v1 = "v\<lparr> v_BuildIds := v_BuildIds v @ [fst (fst ?cb)], v_BuildVariants := v_BuildVariants v @ [?s] \<rparr>"
    note m = CreateBuildFromVersion_mono [of w E project v taskIds "bv_Name bv"]
    show ?thesis
    proof (cases "snd (fst ?cb) = None \<and> snd ?fo = None")
      case True
      with Cons.prems False have rc: "create_builds E ref project taskIds bvs ?v1 (snd ?cb) = (e, v', w')"
        by (simp add: Let_def split_def)
      from Cons.IH [OF rc] m show ?thesis by blast
    next
      case nok: False
      with Cons.prems False have "w' = snd ?cb"
        by (auto simp add: Let_def split_def split: option.splits)
      then show ?thesis using m by simp
    qed
  qed
qed

lemma create_builds_stores:
  "create_builds E ref project taskIds bvs v w = (None, v', w') \<Longrightarrow>
   \<forall>bv \<in> set bvs. \<not> bv_Disabled bv \<longrightarrow>
     (\<exists>b \<in> set (builds w'). b_Id b = BuildId E (v_Id v) (bv_Name bv) \<and> b_Version b = v_Id v \<and>
         b_BuildVariant b = bv_Name bv \<and>
         (\<forall>tid \<in> set (b_Tasks b). \<exists>t \<in> set (tasks w'). t_Id t = tid \<and> t_BuildId t = b_Id b))"
proof (induction bvs arbitrary: v w)
  case Nil
  then show ?case by simp
next
  case (Cons bv bvs)
  show ?case
  proof (cases "bv_Disabled bv")
    case True
    then show ?thesis using Cons.IH [of v w] Cons.prems by simp
  next
    case False
    let ?cb = "CreateBuildFromVersion E project v taskIds (bv_Name bv) w"
    let ?fo = "FindOne E (ByLastVariantActivation (pr_Identifier ref) (bv_Name bv)) (snd ?cb)"
    let ?s = "\<lparr> bs_BuildVariant = bv_Name bv, bs_Activated = False,
               bs_ActivateAt = compute_activateAt E ref (v_Id v) bv (lastActivation_of (bv_Name bv) (fst ?fo)),
               bs_BuildId = fst (fst ?cb) \<rparr>"
    let ?v1 = "v\<lparr> v_BuildIds := v_BuildIds v @ [fst (fst ?cb)], v_BuildVariants := v_BuildVariants v @ [?s] \<rparr>"
    from Cons.prems False have ok: "snd (fst ?cb) = None" "snd ?fo = None"
      by (auto simp add: Let_def split_def split: option.splits)
    with Cons.prems False have rc: "create_builds E ref project taskIds bvs ?v1 (snd ?cb) = (None, v', w')"
      by (simp add: Let_def split_def)
    from Cons.IH [OF rc] have rest: "\<forall>b \<in> set bvs. \<not> bv_Disabled b \<longrightarrow>
     (\<exists>x \<in> set (builds w'). b_Id x = BuildId E (v_Id v) (bv_Name b) \<and> b_Version x = v_Id v \<and>
         b_BuildVariant x = bv_Name b \<and>
         (\<forall>tid \<in> set (b_Tasks x). \<exists>t \<in> set (tasks w'). t_Id t = tid \<and> t_BuildId t = b_Id x))"
      by simp
    from CreateBuildFromVersion_stores [OF ok(1)] obtain b where
      b: "b \<in> set (builds (snd ?cb))" "b_Id b = BuildId E (v_Id v) (bv_Name bv)" "b_Version b = v_Id v"
         "b_BuildVariant b = bv_Name bv"
         "\<forall>tid \<in> set (b_Tasks b). \<exists>t \<in> set (tasks (snd ?cb)). t_Id t = tid \<and> t_BuildId t = b_Id b"
      by blast
    note m = create_builds_mono [OF rc]
    have "b \<in> set (builds w')" using b(1) m by blast
    moreover have "\<forall>tid \<in> set (b_Tasks b). \<exists>t \<in> set (tasks w'). t_Id t = tid \<and> t_BuildId t = b_Id b"
      using b(5) m by blast
    ultimately have first: "\<exists>x \<in> set (builds w'). b_Id x = BuildId E (v_Id v) (bv_Name bv) \<and>
         b_Version x = v_Id v \<and> b_BuildVariant x = bv_Name bv \<and>
         (\<forall>tid \<in> set (b_Tasks x). \<exists>t \<in> set (tasks w'). t_Id t = tid \<and> t_BuildId t = b_Id x)"
      using b(2,3,4) by blast
    show ?thesis using first rest by simp
  qed
qed

lemma createVersionItems_success:
  assumes "createVersionItems E v ref cfg w = (None, v', w')"
  shows "v_Ignored v' = v_Ignored v \<and> v_Revision v' = v_Revision v \<and>
         v_Identifier v' = v_Identifier v \<and> v_Errors v' = v_Errors v \<and> v_Id v' = v_Id v \<and>
         (versions w' = versions w @ [v'] \<or>
          (versions w' = versions w \<and> (\<exists>y. fst (Insert E v' w) = Some y \<and> IsDuplicateKey y))) \<and>
         (\<forall>bv \<in> set (p_BuildVariants cfg). \<not> bv_Disabled bv \<longrightarrow>
            (\<exists>b \<in> set (builds w'). b_Id b = BuildId E (v_Id v) (bv_Name bv) \<and> b_Version b = v_Id v \<and>
               b_BuildVariant b = bv_Name bv \<and>
               (\<forall>tid \<in> set (b_Tasks b). \<exists>t \<in> set (tasks w'). t_Id t = tid \<and> t_BuildId t = b_Id b)))"
proof -
  let ?cb = "create_builds E ref cfg (NewTaskIdTable E cfg v) (p_BuildVariants cfg) v w"
  from createVersionItems_shape [OF assms] obtain w1 where cb: "?cb = (None, v', w1)" by auto
  note f = create_builds_fields [OF cb]
  note st = create_builds_stores [OF cb]
  have v1: "versions w1 = versions w"
    using create_builds_frame(1) [of E ref cfg "NewTaskIdTable E cfg v" "p_BuildVariants cfg" v w] cb by simp
  let ?ins = "Insert E v' w1"
  have fi: "fst ?ins = fst (Insert E v' w)" using v1 by (rule Insert_fst_cong)
  show ?thesis
  proof (cases "fst ?ins")
    case None
    then have "createVersionItems E v ref cfg w = (None, v', snd ?ins)"
      using cb by (simp add: createVersionItems_def Let_def split_def)
    then have w': "w' = snd ?ins" using assms by simp
    have "versions w' = versions w @ [v']" unfolding w' using None v1 by (simp add: Insert_versions)
    moreover have "builds w' = builds w1" "tasks w' = tasks w1" unfolding w' by simp_all
    ultimately show ?thesis using f st by simp
  next
    case (Some y)
    then have sw: "snd ?ins = w1" by (rule Insert_failed)
    have dup: "IsDuplicateKey y"
    proof (rule ccontr)
      assume "\<not> IsDuplicateKey y"
      then have "fst (createVersionItems E v ref cfg w) = Some (Wrapped [] y)"
        using cb Some sw by (simp add: createVersionItems_def Let_def split_def)
      then show False using assms by simp
    qed
    then have "createVersionItems E v ref cfg w = (None, v', w1)"
      using cb Some sw by (simp add: createVersionItems_def Let_def split_def)
    then have w': "w' = w1" using assms by simp
    have "versions w' = versions w \<and> (\<exists>y. fst (Insert E v' w) = Some y \<and> IsDuplicateKey y)"
      using w' v1 Some fi dup by simp
    then show ?thesis using f st w' by simp
  qed
qed

lemma createVersionItems_names:
  assumes "createVersionItems E v ref cfg w = (None, v', w')"
  shows "map bs_BuildVariant (v_BuildVariants v') =
           map bs_BuildVariant (v_BuildVariants v) @
           map bv_Name (filter (\<lambda>bv. \<not> bv_Disabled bv) (p_BuildVariants cfg)) \<and>
         v_BuildIds v' = v_BuildIds v @
           map (\<lambda>bv. BuildId E (v_Id v) (bv_Name bv)) (filter (\<lambda>bv. \<not> bv_Disabled bv) (p_BuildVariants cfg))"
proof -
  from createVersionItems_shape [OF assms] obtain w1 where
    "create_builds E ref cfg (NewTaskIdTable E cfg v) (p_BuildVariants cfg) v w = (None, v', w1)" by auto
  from create_builds_success [OF this] show ?thesis by (simp add: comp_def)
qed

lemma CreateVersionFromConfig_success:
  assumes "CreateVersionFromConfig E ref (Some cfg) rv ignore ve w = ((Some v, None), w1)"
  shows "v_Ignored v = ignore \<and> v_Revision v = rev_Revision rv \<and> v_Identifier v = pr_Identifier ref \<and>
         (versions w1 = versions w @ [v] \<or>
          (versions w1 = versions w \<and> (\<exists>y. fst (Insert E v w) = Some y \<and> IsDuplicateKey y))) \<and>
         (v_Errors v = [] \<longrightarrow>
            (\<forall>bv \<in> set (p_BuildVariants cfg). \<not> bv_Disabled bv \<longrightarrow>
               (\<exists>b \<in> set (builds w1). b_Id b = BuildId E (v_Id v) (bv_Name bv) \<and> b_Version b = v_Id v \<and>
                  b_BuildVariant b = bv_Name bv \<and>
                  (\<forall>tid \<in> set (b_Tasks b). \<exists>t \<in> set (tasks w1). t_Id t = tid \<and> t_BuildId t = b_Id b))) \<and>
            map bs_BuildVariant (v_BuildVariants v) =
              map bv_Name (filter (\<lambda>bv. \<not> bv_Disabled bv) (p_BuildVariants cfg)) \<and>
            v_BuildIds v =
              map (\<lambda>bv. BuildId E (v_Id v) (bv_Name bv)) (filter (\<lambda>bv. \<not> bv_Disabled bv) (p_BuildVariants cfg)))"
  using assms
proof (cases rule: CreateVersionFromConfig_cases)
  case failed
  then show ?thesis by simp
next
  case (made v2 w2)
  from made(13) show ?thesis
  proof
    assume st: "v_Errors v2 \<noteq> [] \<and> Some v = Some v2 \<and>
      None = Wrap (fst (Insert E v2 w2)) ''error inserting version'' \<and> w1 = snd (Insert E v2 w2)"
    then have "v = v2" "fst (Insert E v2 w2) = None" "w1 = snd (Insert E v2 w2)"
      by (simp_all add: eq_commute [of None])
    then have "versions w1 = versions w @ [v]" using made(1) by (simp add: Insert_versions)
    then show ?thesis using \<open>v = v2\<close> st made(5,6,9) by simp
  next
    assume ex: "v_Errors v2 = [] \<and>
        (\<exists>ie v3. createVersionItems E v2 ref cfg w2 = (ie, v3, w1) \<and> Some v = Some v3 \<and>
                 None = Wrap ie ''error creating version items'')"
    then have ci: "createVersionItems E v2 ref cfg w2 = (None, v, w1)"
      by (auto simp add: eq_commute [of None])
    note s = createVersionItems_success [OF ci]
    note c9 = createVersionItems_names [OF ci]
    have ins: "fst (Insert E v w2) = fst (Insert E v w)" using made(1) by (rule Insert_fst_cong)
    have a: "v_Ignored v = ignore \<and> v_Revision v = rev_Revision rv \<and> v_Identifier v = pr_Identifier ref"
      using s made(5,6,9) by simp
    have b: "versions w1 = versions w @ [v] \<or>
          (versions w1 = versions w \<and> (\<exists>y. fst (Insert E v w) = Some y \<and> IsDuplicateKey y))"
      using s made(1) ins by auto
    have idv: "v_Id v = v_Id v2" using s by simp
    have c: "\<forall>bv \<in> set (p_BuildVariants cfg). \<not> bv_Disabled bv \<longrightarrow>
               (\<exists>b \<in> set (builds w1). b_Id b = BuildId E (v_Id v) (bv_Name bv) \<and> b_Version b = v_Id v \<and>
                  b_BuildVariant b = bv_Name bv \<and>
                  (\<forall>tid \<in> set (b_Tasks b). \<exists>t \<in> set (tasks w1). t_Id t = tid \<and> t_BuildId t = b_Id b))"
      using s unfolding idv by blast
    have d: "map bs_BuildVariant (v_BuildVariants v) =
              map bv_Name (filter (\<lambda>bv. \<not> bv_Disabled bv) (p_BuildVariants cfg)) \<and>
            v_BuildIds v =
              map (\<lambda>bv. BuildId E (v_Id v) (bv_Name bv)) (filter (\<lambda>bv. \<not> bv_Disabled bv) (p_BuildVariants cfg))"
      using c9 made(10,11) idv by simp
    show ?thesis using a b c d by blast
  qed
qed


lemma store_version_created:
  assumes "CreateVersionFromConfig E ref (Some pj) rv ig ve w = ((Some v, None), w1)"
  shows "\<exists>s w'. store_version E ref pj rv ig ve n w = (s, w') \<and>
           versions w' = versions w1 \<and> builds w' = builds w1 \<and> tasks w' = tasks w1"
proof -
  let ?a = "addBuildBreakSubscriptions E v ref w1"
  have fr: "versions (snd ?a) = versions w1" "builds (snd ?a) = builds w1" "tasks (snd ?a) = tasks w1"
    by simp_all
  show ?thesis
  proof (cases "fst ?a")
    case Panicked
    then have "store_version E ref pj rv ig ve n w = (NilDereference, snd ?a)"
      using assms by (simp add: store_version_def split_def)
    then show ?thesis using fr by simp
  next
    case (Returned e)
    show ?thesis
    proof (cases e)
      case None
      then have "store_version E ref pj rv ig ve n w = (Continue (Some v), snd ?a)"
        using assms Returned by (simp add: store_version_def split_def)
      then show ?thesis using fr by simp
    next
      case (Some x)
      then have "store_version E ref pj rv ig ve n w =
                   (Continue n, grip Error ''error creating build break subscriptions'' (snd ?a))"
        using assms Returned by (simp add: store_version_def split_def)
      then show ?thesis using fr by simp
    qed
  qed
qed

text \<open>
  Claim C8, as the code has it.  Let the config of \<open>rv\<close> resolve and declare ignore
  patterns, and let the lookup find no version for \<open>rv\<close>.  If the fetch of the changed
  files fails, the failure is logged and is not fatal, but the revision is skipped: no
  Version, Build or Task is created for it, the counter is not touched, and the loop
  continues with the next revision.  If the fetch succeeds and every changed file
  matches the patterns, the version is built with the ignore flag set; when the
  builder returns it without error, it is marked ignored, it is in the store (unless
  the store reported a duplicate key), and, having no errors, it has a build with its
  tasks in the store for every enabled variant; all of which the iteration keeps.
\<close>

theorem C8_ignore_check:
  assumes "pr_LocalConfig (rt_ProjectRef rt) = []"
      and "GetRemoteConfig rt (rev_Revision rv) = (Some pj, None)"
      and "p_Ignore pj \<noteq> []"
      and "FindOne E (ByProjectIdAndRevision (pr_Identifier (rt_ProjectRef rt)) (rev_Revision rv)) w
             = (None, None)"
  shows "(\<forall>x. snd (GetChangedFiles rt (rev_Revision rv)) = Some x \<longrightarrow>
            (\<exists>w'. StoreRevisions_body E rt rv n w = (Continue n, w') \<and>
                  versions w' = versions w \<and> builds w' = builds w \<and> tasks w' = tasks w \<and>
                  counters w' = counters w \<and>
                  (Error, ''error checking GitHub for ignored files'') \<in> set (logs w') \<and>
                  (\<forall>rest. StoreRevisions_loop E rt (rv # rest) n w = StoreRevisions_loop E rt rest n w'))) \<and>
         (\<forall>files v w1.
            GetChangedFiles rt (rev_Revision rv) = (files, None) \<and>
            list_all (MatchesPath E (p_Ignore pj)) files \<and>
            CreateVersionFromConfig E (rt_ProjectRef rt) (Some pj) rv True None w = ((Some v, None), w1) \<longrightarrow>
            StoreRevisions_body E rt rv n w = store_version E (rt_ProjectRef rt) pj rv True None n w \<and>
            v_Ignored v \<and> v_Revision v = rev_Revision rv \<and>
            (versions w1 = versions w @ [v] \<or>
             (versions w1 = versions w \<and> (\<exists>y. fst (Insert E v w) = Some y \<and> IsDuplicateKey y))) \<and>
            (v_Errors v = [] \<longrightarrow>
               (\<forall>bv \<in> set (p_BuildVariants pj). \<not> bv_Disabled bv \<longrightarrow>
                  (\<exists>b \<in> set (builds w1). b_Id b = BuildId E (v_Id v) (bv_Name bv) \<and>
                     b_Version b = v_Id v \<and> b_BuildVariant b = bv_Name bv \<and>
                     (\<forall>tid \<in> set (b_Tasks b). \<exists>t \<in> set (tasks w1). t_Id t = tid \<and> t_BuildId t = b_Id b))) \<and>
               v_BuildIds v =
                 map (\<lambda>bv. BuildId E (v_Id v) (bv_Name bv))
                     (filter (\<lambda>bv. \<not> bv_Disabled bv) (p_BuildVariants pj))) \<and>
            (\<exists>s w'. StoreRevisions_body E rt rv n w = (s, w') \<and> versions w' = versions w1 \<and>
                    builds w' = builds w1 \<and> tasks w' = tasks w1))"
proof -
  let ?ref = "rt_ProjectRef rt"
  have g: "GetProjectConfig E rt (rev_Revision rv) w = ((Some pj, None), w)"
    using assms(1,2) by (rule GetProjectConfig_success)
  have body: "StoreRevisions_body E rt rv n w = check_ignore_and_store E rt (Some pj) rv None n w"
    using assms(4) g by (simp add: StoreRevisions_body_unfold Let_def)
  have a: "\<forall>x. snd (GetChangedFiles rt (rev_Revision rv)) = Some x \<longrightarrow>
            (\<exists>w'. StoreRevisions_body E rt rv n w = (Continue n, w') \<and>
                  versions w' = versions w \<and> builds w' = builds w \<and> tasks w' = tasks w \<and>
                  counters w' = counters w \<and>
                  (Error, ''error checking GitHub for ignored files'') \<in> set (logs w') \<and>
                  (\<forall>rest. StoreRevisions_loop E rt (rv # rest) n w = StoreRevisions_loop E rt rest n w'))"
  proof (intro allI impI)
    fix x assume "snd (GetChangedFiles rt (rev_Revision rv)) = Some x"
    then have b: "StoreRevisions_body E rt rv n w =
                 (Continue n, grip Error ''error checking GitHub for ignored files'' w)"
      using body assms(3) by (simp add: check_ignore_and_store_def split_def)
    then have "\<forall>rest. StoreRevisions_loop E rt (rv # rest) n w =
                 StoreRevisions_loop E rt rest n (grip Error ''error checking GitHub for ignored files'' w)"
      by simp
    with b show "\<exists>w'. StoreRevisions_body E rt rv n w = (Continue n, w') \<and>
                  versions w' = versions w \<and> builds w' = builds w \<and> tasks w' = tasks w \<and>
                  counters w' = counters w \<and>
                  (Error, ''error checking GitHub for ignored files'') \<in> set (logs w') \<and>
                  (\<forall>rest. StoreRevisions_loop E rt (rv # rest) n w = StoreRevisions_loop E rt rest n w')"
      by (intro exI [of _ "grip Error ''error checking GitHub for ignored files'' w"]) simp
  qed
  have b: "\<forall>files v w1.
            GetChangedFiles rt (rev_Revision rv) = (files, None) \<and>
            list_all (MatchesPath E (p_Ignore pj)) files \<and>
            CreateVersionFromConfig E ?ref (Some pj) rv True None w = ((Some v, None), w1) \<longrightarrow>
            StoreRevisions_body E rt rv n w = store_version E ?ref pj rv True None n w \<and>
            v_Ignored v \<and> v_Revision v = rev_Revision rv \<and>
            (versions w1 = versions w @ [v] \<or>
             (versions w1 = versions w \<and> (\<exists>y. fst (Insert E v w) = Some y \<and> IsDuplicateKey y))) \<and>
            (v_Errors v = [] \<longrightarrow>
               (\<forall>bv \<in> set (p_BuildVariants pj). \<not> bv_Disabled bv \<longrightarrow>
                  (\<exists>b \<in> set (builds w1). b_Id b = BuildId E (v_Id v) (bv_Name bv) \<and>
                     b_Version b = v_Id v \<and> b_BuildVariant b = bv_Name bv \<and>
                     (\<forall>tid \<in> set (b_Tasks b). \<exists>t \<in> set (tasks w1). t_Id t = tid \<and> t_BuildId t = b_Id b))) \<and>
               v_BuildIds v =
                 map (\<lambda>bv. BuildId E (v_Id v) (bv_Name bv))
                     (filter (\<lambda>bv. \<not> bv_Disabled bv) (p_BuildVariants pj))) \<and>
            (\<exists>s w'. StoreRevisions_body E rt rv n w = (s, w') \<and> versions w' = versions w1 \<and>
                    builds w' = builds w1 \<and> tasks w' = tasks w1)"
  proof (intro allI impI)
    fix files v w1
    assume h: "GetChangedFiles rt (rev_Revision rv) = (files, None) \<and>
            list_all (MatchesPath E (p_Ignore pj)) files \<and>
            CreateVersionFromConfig E ?ref (Some pj) rv True None w = ((Some v, None), w1)"
    then have sv: "StoreRevisions_body E rt rv n w = store_version E ?ref pj rv True None n w"
      using body assms(3) by (simp add: check_ignore_and_store_def IgnoresAllFiles_def)
    from h have c: "CreateVersionFromConfig E ?ref (Some pj) rv True None w = ((Some v, None), w1)"
      by simp
    note s = CreateVersionFromConfig_success [OF c]
    from store_version_created [OF c, of n] sv
    have k: "\<exists>s w'. StoreRevisions_body E rt rv n w = (s, w') \<and> versions w' = versions w1 \<and>
                    builds w' = builds w1 \<and> tasks w' = tasks w1" by simp
    show "StoreRevisions_body E rt rv n w = store_version E ?ref pj rv True None n w \<and>
            v_Ignored v \<and> v_Revision v = rev_Revision rv \<and>
            (versions w1 = versions w @ [v] \<or>
             (versions w1 = versions w \<and> (\<exists>y. fst (Insert E v w) = Some y \<and> IsDuplicateKey y))) \<and>
            (v_Errors v = [] \<longrightarrow>
               (\<forall>bv \<in> set (p_BuildVariants pj). \<not> bv_Disabled bv \<longrightarrow>
                  (\<exists>b \<in> set (builds w1). b_Id b = BuildId E (v_Id v) (bv_Name bv) \<and>
                     b_Version b = v_Id v \<and> b_BuildVariant b = bv_Name bv \<and>
                     (\<forall>tid \<in> set (b_Tasks b). \<exists>t \<in> set (tasks w1). t_Id t = tid \<and> t_BuildId t = b_Id b))) \<and>
               v_BuildIds v =
                 map (\<lambda>bv. BuildId E (v_Id v) (bv_Name bv))
                     (filter (\<lambda>bv. \<not> bv_Disabled bv) (p_BuildVariants pj))) \<and>
            (\<exists>s w'. StoreRevisions_body E rt rv n w = (s, w') \<and> versions w' = versions w1 \<and>
                    builds w' = builds w1 \<and> tasks w' = tasks w1)"
      using sv s k by (intro conjI) simp_all
  qed
  show ?thesis using a b by (intro conjI)
qed


text \<open>The counter is behind the store: the latest version has number 1 and the next
  number is 1 again.  The config resolves, creation fails, the revision is skipped and
  the iteration continues.\<close>

theorem C2_order_violation_skips_revision_witness:
  "fst (GetProjectConfig ex_env (ex_tracker (\<lambda>r. (Some ex_project, None)) (\<lambda>r. ([], None)) [])
          ''r1'' (ex_world [ex_version ''r0'' 1 []] 0)) = (Some ex_project, None) \<and>
   fst (FindOne ex_env (ByMostRecentSystemRequester ''p'') (ex_world [ex_version ''r0'' 1 []] 0))
     = Some (ex_version ''r0'' 1 []) \<and>
   v_RevisionOrderNumber (projr (fst (shellVersionFromRevision ex_env ex_ref (ex_revision ''r1'')
        (ex_world [ex_version ''r0'' 1 []] 0)))) \<le> v_RevisionOrderNumber (ex_version ''r0'' 1 []) \<and>
   snd (fst (CreateVersionFromConfig ex_env ex_ref (Some ex_project) (ex_revision ''r1'') False None
          (ex_world [ex_version ''r0'' 1 []] 0))) \<noteq> None \<and>
   fst (StoreRevisions_body ex_env (ex_tracker (\<lambda>r. (Some ex_project, None)) (\<lambda>r. ([], None)) [])
          (ex_revision ''r1'') None (ex_world [ex_version ''r0'' 1 []] 0)) = Continue None \<and>
   versions (snd (StoreRevisions_body ex_env (ex_tracker (\<lambda>r. (Some ex_project, None)) (\<lambda>r. ([], None)) [])
          (ex_revision ''r1'') None (ex_world [ex_version ''r0'' 1 []] 0))) = [ex_version ''r0'' 1 []] \<and>
   builds (snd (StoreRevisions_body ex_env (ex_tracker (\<lambda>r. (Some ex_project, None)) (\<lambda>r. ([], None)) [])
          (ex_revision ''r1'') None (ex_world [ex_version ''r0'' 1 []] 0))) = []"
proof -
  let ?rt = "ex_tracker (\<lambda>r. (Some ex_project, None)) (\<lambda>r. ([], None)) []"
  let ?w = "ex_world [ex_version ''r0'' 1 []] 0"
  let ?rv = "ex_revision ''r1''"
  let ?l = "ex_version ''r0'' 1 []"
  let ?sh = "shellVersionFromRevision ex_env (rt_ProjectRef ?rt) ?rv ?w"
  have ref: "rt_ProjectRef ?rt = ex_ref" by (simp add: ex_tracker_def)
  have r1: "rev_Revision ?rv = ''r1''" by (simp add: ex_defs)
  have h1: "fst (GetProjectConfig ex_env ?rt (rev_Revision ?rv) ?w) = (Some ex_project, None)"
    by (simp add: GetProjectConfig_def ex_defs)
  have h3: "p_Ignore ex_project = [] \<or> snd (GetChangedFiles ?rt (rev_Revision ?rv)) = None"
    by (simp add: ex_defs)
  have h4: "fst (FindOne ex_env (ByProjectIdAndRevision (pr_Identifier (rt_ProjectRef ?rt))
                   (rev_Revision ?rv)) ?w) = None" by code_simp
  have "\<not> isl (fst ?sh)" by code_simp
  then have h5: "fst ?sh = Inr (projr (fst ?sh))" by simp
  have h6: "FindOne ex_env (ByMostRecentSystemRequester (pr_Identifier (rt_ProjectRef ?rt))) ?w
              = (Some ?l, None)" by code_simp
  have le: "v_RevisionOrderNumber (projr (fst ?sh)) \<le> v_RevisionOrderNumber ?l" by code_simp
  then have h7: "v_Revision ?l = rev_Revision ?rv \<or>
                  v_RevisionOrderNumber (projr (fst ?sh)) \<le> v_RevisionOrderNumber ?l" by simp
  note c2 = C2_order_violation_skips_revision [OF h1 h3 h4 h5 h6 h7, of None "[]"]
  from c2 [THEN conjunct1] obtain e where
    "fst (CreateVersionFromConfig ex_env (rt_ProjectRef ?rt) (Some ex_project) ?rv False None ?w)
       = (None, Some (Wrapped ''inconsistent version order'' e))"
    by blast
  then have cf: "snd (fst (CreateVersionFromConfig ex_env ex_ref (Some ex_project) ?rv False None ?w))
                   \<noteq> None"
    unfolding ref by simp
  from c2 [THEN conjunct2]
  obtain w' where b: "StoreRevisions_body ex_env ?rt ?rv None ?w = (Continue None, w')"
    and fr: "versions w' = versions ?w" "builds w' = builds ?w"
    by blast
  have "fst (FindOne ex_env (ByMostRecentSystemRequester ''p'') ?w) = Some ?l"
    using h6 by (simp add: ex_defs)
  then show ?thesis using b fr le cf h1 unfolding ref r1 by (simp add: ex_world_def)
qed

text \<open>
  The claim fails as stated: in a batch of two whose older revision is given an order
  number that does not exceed the latest stored one, \<open>StoreRevisions\<close> returns no error
  and goes on to store the newer revision.
\<close>

theorem C2_counterexample:
  "fst (sanityCheckOrderNum ex_env
          (v_RevisionOrderNumber (projr (fst (shellVersionFromRevision ex_env ex_ref (ex_revision ''r1'')
             (ex_world [ex_version ''r0'' 1 []] 0)))))
          ''p'' ''r1'' (ex_world [ex_version ''r0'' 1 []] 0)) \<noteq> None \<and>
   (case fst (StoreRevisions ex_env (ex_tracker (\<lambda>r. (Some ex_project, None)) (\<lambda>r. ([], None)) [])
                [ex_revision ''r2'', ex_revision ''r1''] (ex_world [ex_version ''r0'' 1 []] 0)) of
      Returned (v, e) \<Rightarrow> e = None \<and> map_option v_Revision v = Some ''r2''
    | Panicked \<Rightarrow> False) \<and>
   map v_Revision (versions (snd (StoreRevisions ex_env
        (ex_tracker (\<lambda>r. (Some ex_project, None)) (\<lambda>r. ([], None)) [])
        [ex_revision ''r2'', ex_revision ''r1''] (ex_world [ex_version ''r0'' 1 []] 0))))
     = [''r0'', ''r2'']"
  by code_simp

text \<open>
  The claim fails as stated: the config declares an ignore pattern and the fetch of the
  changed files fails, and no Version is created for the revision.
\<close>

theorem C8_counterexample:
  "p_Ignore (ex_project\<lparr>p_Ignore := [''docs'']\<rparr>) \<noteq> [] \<and>
   snd (GetChangedFiles (ex_tracker (\<lambda>r. (Some (ex_project\<lparr>p_Ignore := [''docs'']\<rparr>), None))
                           (\<lambda>r. ([], Some (OtherError ''timeout''))) []) ''r1'') \<noteq> None \<and>
   fst (StoreRevisions ex_env (ex_tracker (\<lambda>r. (Some (ex_project\<lparr>p_Ignore := [''docs'']\<rparr>), None))
                                  (\<lambda>r. ([], Some (OtherError ''timeout''))) [])
          [ex_revision ''r1''] (ex_world [] 0)) = Returned (None, None) \<and>
   versions (snd (StoreRevisions ex_env (ex_tracker (\<lambda>r. (Some (ex_project\<lparr>p_Ignore := [''docs'']\<rparr>), None))
                                  (\<lambda>r. ([], Some (OtherError ''timeout''))) [])
          [ex_revision ''r1''] (ex_world [] 0))) = []"
  by code_simp


text \<open>Both cases on the small project with the ignore pattern \<open>docs\<close>: the fetch of the
  changed files fails and the revision is skipped; the fetch gives the one file \<open>docs\<close>
  and the version is stored, ignored, with the build of \<open>linux\<close>.\<close>

theorem C8_ignore_check_witness:
  "fst (StoreRevisions_body ex_env
          (ex_tracker (\<lambda>r. (Some (ex_project\<lparr>p_Ignore := [''docs'']\<rparr>), None))
             (\<lambda>r. ([], Some (OtherError ''timeout''))) [])
          (ex_revision ''r1'') None (ex_world [] 0)) = Continue None \<and>
   versions (snd (StoreRevisions_body ex_env
          (ex_tracker (\<lambda>r. (Some (ex_project\<lparr>p_Ignore := [''docs'']\<rparr>), None))
             (\<lambda>r. ([], Some (OtherError ''timeout''))) [])
          (ex_revision ''r1'') None (ex_world [] 0))) = [] \<and>
   v_Ignored (the (fst (fst (CreateVersionFromConfig ex_env ex_ref
          (Some (ex_project\<lparr>p_Ignore := [''docs'']\<rparr>)) (ex_revision ''r1'') True None (ex_world [] 0))))) \<and>
   map v_Ignored (versions (snd (StoreRevisions_body ex_env
          (ex_tracker (\<lambda>r. (Some (ex_project\<lparr>p_Ignore := [''docs'']\<rparr>), None))
             (\<lambda>r. ([''docs''], None)) [])
          (ex_revision ''r1'') None (ex_world [] 0)))) = [True] \<and>
   map b_BuildVariant (builds (snd (StoreRevisions_body ex_env
          (ex_tracker (\<lambda>r. (Some (ex_project\<lparr>p_Ignore := [''docs'']\<rparr>), None))
             (\<lambda>r. ([''docs''], None)) [])
          (ex_revision ''r1'') None (ex_world [] 0)))) = [''linux'']"
proof -
  let ?pj = "ex_project\<lparr>p_Ignore := [''docs'']\<rparr>"
  let ?rta = "ex_tracker (\<lambda>r. (Some ?pj, None)) (\<lambda>r. ([], Some (OtherError ''timeout''))) []"
  let ?rtb = "ex_tracker (\<lambda>r. (Some ?pj, None)) (\<lambda>r. ([''docs''], None)) []"
  let ?rv = "ex_revision ''r1''"
  let ?w = "ex_world [] 0"
  let ?c = "CreateVersionFromConfig ex_env ex_ref (Some ?pj) ?rv True None ?w"
  have refb: "rt_ProjectRef ?rtb = ex_ref" by (simp add: ex_tracker_def)
  have a1: "pr_LocalConfig (rt_ProjectRef ?rta) = []" by (simp add: ex_defs)
  have a2: "GetRemoteConfig ?rta (rev_Revision ?rv) = (Some ?pj, None)" by (simp add: ex_defs)
  have h3: "p_Ignore ?pj \<noteq> []" by simp
  have a4: "FindOne ex_env (ByProjectIdAndRevision (pr_Identifier (rt_ProjectRef ?rta)) (rev_Revision ?rv)) ?w
              = (None, None)" by code_simp
  have a5: "snd (GetChangedFiles ?rta (rev_Revision ?rv)) = Some (OtherError ''timeout'')"
    by (simp add: ex_defs)
  from C8_ignore_check [OF a1 a2 h3 a4, of None] a5
  obtain wa where ba: "StoreRevisions_body ex_env ?rta ?rv None ?w = (Continue None, wa)"
    and va: "versions wa = versions ?w" by blast
  have b1: "pr_LocalConfig (rt_ProjectRef ?rtb) = []" by (simp add: ex_defs)
  have b2: "GetRemoteConfig ?rtb (rev_Revision ?rv) = (Some ?pj, None)" by (simp add: ex_defs)
  have b4: "FindOne ex_env (ByProjectIdAndRevision (pr_Identifier (rt_ProjectRef ?rtb)) (rev_Revision ?rv)) ?w
              = (None, None)" by code_simp
  have b5: "GetChangedFiles ?rtb (rev_Revision ?rv) = ([''docs''], None)" by (simp add: ex_defs)
  have b6: "list_all (MatchesPath ex_env (p_Ignore ?pj)) [''docs'']" by code_simp
  have "fst ?c = (Some (the (fst (fst ?c))), None)" by code_simp
  then have b7: "CreateVersionFromConfig ex_env (rt_ProjectRef ?rtb) (Some ?pj) ?rv True None ?w
                   = ((Some (the (fst (fst ?c))), None), snd ?c)"
    unfolding refb by (metis prod.collapse)
  from C8_ignore_check [OF b1 b2 h3 b4, of None] b5 b6 b7
  have ig: "v_Ignored (the (fst (fst ?c)))" by blast
  have e1: "map v_Ignored (versions (snd (StoreRevisions_body ex_env ?rtb ?rv None ?w))) = [True]"
    by code_simp
  have e2: "map b_BuildVariant (builds (snd (StoreRevisions_body ex_env ?rtb ?rv None ?w))) = [''linux'']"
    by code_simp
  have "versions wa = []" using va by (simp add: ex_world_def)
  then show ?thesis using ba ig e1 e2 by simp
qed


lemma StoreRevisions_body_created:
  assumes "pr_LocalConfig (rt_ProjectRef rt) = []"
      and "GetRemoteConfig rt (rev_Revision rv) = (Some pj, None)"
      and "p_Ignore pj = [] \<or> snd (GetChangedFiles rt (rev_Revision rv)) = None"
      and "FindOne E (ByProjectIdAndRevision (pr_Identifier (rt_ProjectRef rt)) (rev_Revision rv)) w
             = (None, None)"
      and "CreateVersionFromConfig E (rt_ProjectRef rt) (Some pj) rv
             (p_Ignore pj \<noteq> [] \<and> IgnoresAllFiles E pj (fst (GetChangedFiles rt (rev_Revision rv))))
             None w = ((Some v, None), w1)"
  shows "\<exists>s w'. StoreRevisions_body E rt rv n w = (s, w') \<and> versions w' = versions w1 \<and>
           builds w' = builds w1 \<and> tasks w' = tasks w1"
proof -
  let ?ig = "p_Ignore pj \<noteq> [] \<and> IgnoresAllFiles E pj (fst (GetChangedFiles rt (rev_Revision rv)))"
  have g: "GetProjectConfig E rt (rev_Revision rv) w = ((Some pj, None), w)"
    using assms(1,2) by (rule GetProjectConfig_success)
  have "check_ignore_and_store E rt (Some pj) rv None n w
          = store_version E (rt_ProjectRef rt) pj rv ?ig None n w"
    using assms(3) by (auto simp add: check_ignore_and_store_def split_def)
  then have "StoreRevisions_body E rt rv n w = store_version E (rt_ProjectRef rt) pj rv ?ig None n w"
    using assms(4) g by (simp add: StoreRevisions_body_unfold Let_def)
  then show ?thesis using store_version_created [OF assms(5), of n] by simp
qed

text \<open>
  Claim C4.  Let the fetch of the remote config of \<open>rv\<close> fail with one of the three
  config-fetch errors (API request rejected, file not found, malformed YAML), let no
  version be found for \<open>rv\<close>, let the counter give the shell version \<open>sv\<close> and let the
  insert of the stub go through.  Then the iteration stores the stub, which carries the
  message of the config error and has no builds, stores no Build and no Task, binds the
  stub as newest version and continues: the loop over the batch goes on with the later
  revisions from the state the stub was stored in.  And any revision \<open>rv2\<close> whose config
  resolves, for which no version is found and whose version the builder returns
  without error and without messages, is stored in full by its iteration, in whatever
  state \<open>w2\<close> its turn comes: the version is in the store (unless the store reported a
  duplicate key) with a build and its tasks for every enabled variant.
\<close>

theorem C4_recoverable_config_error:
  assumes "pr_LocalConfig (rt_ProjectRef rt) = []"
      and "GetRemoteConfig rt (rev_Revision rv) = (cfg, Some x)"
      and "is_config_fetch_error x"
      and "StoreRevisions_loop E rt (rev earlier) None w0 = (Continue n, w)"
      and "fst (FindOne E (ByProjectIdAndRevision (pr_Identifier (rt_ProjectRef rt)) (rev_Revision rv)) w) = None"
      and "fst (shellVersionFromRevision E (rt_ProjectRef rt) rv w) = Inr sv"
      and "stub = sv\<lparr> v_Errors := [Fields_String E
                          [(''message'', ''problem finding project configuration''),
                           (''project'', pr_Identifier (rt_ProjectRef rt)),
                           (''revision'', rev_Revision rv),
                           (''path'', pr_RemotePath (rt_ProjectRef rt))]],
                      v_Warnings := [] \<rparr>"
      and "fst (Insert E stub w) = None"
  shows "(\<exists>w'. StoreRevisions_body E rt rv n w = (Continue (Some stub), w') \<and>
           versions w' = versions w @ [stub] \<and> builds w' = builds w \<and> tasks w' = tasks w \<and>
           v_Revision stub = rev_Revision rv \<and> v_Identifier stub = pr_Identifier (rt_ProjectRef rt) \<and>
           v_Errors stub \<noteq> [] \<and> v_BuildIds stub = [] \<and> v_BuildVariants stub = [] \<and>
           StoreRevisions_loop E rt (rev (later @ rv # earlier)) None w0
             = StoreRevisions_loop E rt (rev later) (Some stub) w') \<and>
         (\<forall>rv2 pj2 w2 m v2 w3.
            GetRemoteConfig rt (rev_Revision rv2) = (Some pj2, None) \<and>
            (p_Ignore pj2 = [] \<or> snd (GetChangedFiles rt (rev_Revision rv2)) = None) \<and>
            FindOne E (ByProjectIdAndRevision (pr_Identifier (rt_ProjectRef rt)) (rev_Revision rv2)) w2
              = (None, None) \<and>
            CreateVersionFromConfig E (rt_ProjectRef rt) (Some pj2) rv2
              (p_Ignore pj2 \<noteq> [] \<and> IgnoresAllFiles E pj2 (fst (GetChangedFiles rt (rev_Revision rv2))))
              None w2 = ((Some v2, None), w3) \<and>
            v_Errors v2 = []
            \<longrightarrow> (\<exists>s w4. StoreRevisions_body E rt rv2 m w2 = (s, w4) \<and> versions w4 = versions w3 \<and>
                        builds w4 = builds w3 \<and> tasks w4 = tasks w3) \<and>
                (versions w3 = versions w2 @ [v2] \<or>
                 (versions w3 = versions w2 \<and> (\<exists>y. fst (Insert E v2 w2) = Some y \<and> IsDuplicateKey y))) \<and>
                (\<forall>bv \<in> set (p_BuildVariants pj2). \<not> bv_Disabled bv \<longrightarrow>
                   (\<exists>b \<in> set (builds w3). b_Id b = BuildId E (v_Id v2) (bv_Name bv) \<and>
                      b_Version b = v_Id v2 \<and> b_BuildVariant b = bv_Name bv \<and>
                      (\<forall>tid \<in> set (b_Tasks b). \<exists>t \<in> set (tasks w3). t_Id t = tid \<and> t_BuildId t = b_Id b))))"
proof -
  from StoreRevisions_body_stub [OF assms(1,2,3,5,6,7), of n] assms(8)
  obtain w' where body: "StoreRevisions_body E rt rv n w = (Continue (Some stub), w')"
    and fr: "builds w' = builds w" "tasks w' = tasks w" "versions w' = versions w @ [stub]"
    by auto
  note sv = shellVersionFromRevision_Inr [OF assms(6)]
  have f: "v_Revision stub = rev_Revision rv" "v_Identifier stub = pr_Identifier (rt_ProjectRef rt)"
    "v_Errors stub \<noteq> []" "v_BuildIds stub = []" "v_BuildVariants stub = []"
    using sv assms(7) by simp_all
  have "StoreRevisions_loop E rt (rev (later @ rv # earlier)) None w0
             = StoreRevisions_loop E rt (rev later) (Some stub) w'"
    using assms(4) body by (simp add: StoreRevisions_loop_append)
  then have a: "\<exists>w'. StoreRevisions_body E rt rv n w = (Continue (Some stub), w') \<and>
           versions w' = versions w @ [stub] \<and> builds w' = builds w \<and> tasks w' = tasks w \<and>
           v_Revision stub = rev_Revision rv \<and> v_Identifier stub = pr_Identifier (rt_ProjectRef rt) \<and>
           v_Errors stub \<noteq> [] \<and> v_BuildIds stub = [] \<and> v_BuildVariants stub = [] \<and>
           StoreRevisions_loop E rt (rev (later @ rv # earlier)) None w0
             = StoreRevisions_loop E rt (rev later) (Some stub) w'"
    using body fr f by (intro exI [of _ w'] conjI)
  have b: "\<forall>rv2 pj2 w2 m v2 w3.
            GetRemoteConfig rt (rev_Revision rv2) = (Some pj2, None) \<and>
            (p_Ignore pj2 = [] \<or> snd (GetChangedFiles rt (rev_Revision rv2)) = None) \<and>
            FindOne E (ByProjectIdAndRevision (pr_Identifier (rt_ProjectRef rt)) (rev_Revision rv2)) w2
              = (None, None) \<and>
            CreateVersionFromConfig E (rt_ProjectRef rt) (Some pj2) rv2
              (p_Ignore pj2 \<noteq> [] \<and> IgnoresAllFiles E pj2 (fst (GetChangedFiles rt (rev_Revision rv2))))
              None w2 = ((Some v2, None), w3) \<and>
            v_Errors v2 = []
            \<longrightarrow> (\<exists>s w4. StoreRevisions_body E rt rv2 m w2 = (s, w4) \<and> versions w4 = versions w3 \<and>
                        builds w4 = builds w3 \<and> tasks w4 = tasks w3) \<and>
                (versions w3 = versions w2 @ [v2] \<or>
                 (versions w3 = versions w2 \<and> (\<exists>y. fst (Insert E v2 w2) = Some y \<and> IsDuplicateKey y))) \<and>
                (\<forall>bv \<in> set (p_BuildVariants pj2). \<not> bv_Disabled bv \<longrightarrow>
                   (\<exists>b \<in> set (builds w3). b_Id b = BuildId E (v_Id v2) (bv_Name bv) \<and>
                      b_Version b = v_Id v2 \<and> b_BuildVariant b = bv_Name bv \<and>
                      (\<forall>tid \<in> set (b_Tasks b). \<exists>t \<in> set (tasks w3). t_Id t = tid \<and> t_BuildId t = b_Id b)))"
  proof (intro allI impI)
    fix rv2 pj2 w2 m v2 w3
    assume h: "GetRemoteConfig rt (rev_Revision rv2) = (Some pj2, None) \<and>
            (p_Ignore pj2 = [] \<or> snd (GetChangedFiles rt (rev_Revision rv2)) = None) \<and>
            FindOne E (ByProjectIdAndRevision (pr_Identifier (rt_ProjectRef rt)) (rev_Revision rv2)) w2
              = (None, None) \<and>
            CreateVersionFromConfig E (rt_ProjectRef rt) (Some pj2) rv2
              (p_Ignore pj2 \<noteq> [] \<and> IgnoresAllFiles E pj2 (fst (GetChangedFiles rt (rev_Revision rv2))))
              None w2 = ((Some v2, None), w3) \<and>
            v_Errors v2 = []"
    note h1 = h [THEN conjunct1]
    note h2 = h [THEN conjunct2, THEN conjunct1]
    note h3 = h [THEN conjunct2, THEN conjunct2, THEN conjunct1]
    note c = h [THEN conjunct2, THEN conjunct2, THEN conjunct2, THEN conjunct1]
    note h5 = h [THEN conjunct2, THEN conjunct2, THEN conjunct2, THEN conjunct2]
    have k: "\<exists>s w4. StoreRevisions_body E rt rv2 m w2 = (s, w4) \<and> versions w4 = versions w3 \<and>
                        builds w4 = builds w3 \<and> tasks w4 = tasks w3"
      using StoreRevisions_body_created [OF assms(1) h1 h2 h3 c] .
    note s = CreateVersionFromConfig_success [OF c]
    show "(\<exists>s w4. StoreRevisions_body E rt rv2 m w2 = (s, w4) \<and> versions w4 = versions w3 \<and>
                        builds w4 = builds w3 \<and> tasks w4 = tasks w3) \<and>
                (versions w3 = versions w2 @ [v2] \<or>
                 (versions w3 = versions w2 \<and> (\<exists>y. fst (Insert E v2 w2) = Some y \<and> IsDuplicateKey y))) \<and>
                (\<forall>bv \<in> set (p_BuildVariants pj2). \<not> bv_Disabled bv \<longrightarrow>
                   (\<exists>b \<in> set (builds w3). b_Id b = BuildId E (v_Id v2) (bv_Name bv) \<and>
                      b_Version b = v_Id v2 \<and> b_BuildVariant b = bv_Name bv \<and>
                      (\<forall>tid \<in> set (b_Tasks b). \<exists>t \<in> set (tasks w3). t_Id t = tid \<and> t_BuildId t = b_Id b)))"
    proof (intro conjI)
      show "\<exists>s w4. StoreRevisions_body E rt rv2 m w2 = (s, w4) \<and> versions w4 = versions w3 \<and>
                        builds w4 = builds w3 \<and> tasks w4 = tasks w3" by (rule k)
      show "versions w3 = versions w2 @ [v2] \<or>
                 (versions w3 = versions w2 \<and> (\<exists>y. fst (Insert E v2 w2) = Some y \<and> IsDuplicateKey y))"
        using s by blast
      from h5 show "\<forall>bv \<in> set (p_BuildVariants pj2). \<not> bv_Disabled bv \<longrightarrow>
                   (\<exists>b \<in> set (builds w3). b_Id b = BuildId E (v_Id v2) (bv_Name bv) \<and>
                      b_Version b = v_Id v2 \<and> b_BuildVariant b = bv_Name bv \<and>
                      (\<forall>tid \<in> set (b_Tasks b). \<exists>t \<in> set (tasks w3). t_Id t = tid \<and> t_BuildId t = b_Id b))"
        using s by blast
    qed
  qed
  show ?thesis using a b by (intro conjI)
qed


text \<open>A batch of three whose middle revision has no config file: the run stores an
  expanded version, the stub and an expanded version, in this order.\<close>

theorem C4_recoverable_config_error_witness:
  "(case fst (StoreRevisions_body ex_env
        (ex_tracker (\<lambda>r. if r = ''r2'' then (None, Some (FileNotFoundError ''ci.yml''))
                          else (Some ex_project, None)) (\<lambda>r. ([], None)) [])
        (ex_revision ''r2'')
        (case fst (StoreRevisions_loop ex_env
             (ex_tracker (\<lambda>r. if r = ''r2'' then (None, Some (FileNotFoundError ''ci.yml''))
                               else (Some ex_project, None)) (\<lambda>r. ([], None)) [])
             (rev [ex_revision ''r1'']) None (ex_world [] 0)) of Continue n \<Rightarrow> n | _ \<Rightarrow> None)
        (snd (StoreRevisions_loop ex_env
             (ex_tracker (\<lambda>r. if r = ''r2'' then (None, Some (FileNotFoundError ''ci.yml''))
                               else (Some ex_project, None)) (\<lambda>r. ([], None)) [])
             (rev [ex_revision ''r1'']) None (ex_world [] 0)))) of
      Continue (Some s) \<Rightarrow> v_Errors s \<noteq> [] \<and> v_BuildIds s = [] \<and> v_Revision s = ''r2''
    | _ \<Rightarrow> False) \<and>
   map v_Revision (versions (snd (StoreRevisions ex_env
        (ex_tracker (\<lambda>r. if r = ''r2'' then (None, Some (FileNotFoundError ''ci.yml''))
                          else (Some ex_project, None)) (\<lambda>r. ([], None)) [])
        ([ex_revision ''r3''] @ ex_revision ''r2'' # [ex_revision ''r1'']) (ex_world [] 0))))
     = [''r1'', ''r2'', ''r3''] \<and>
   map v_BuildIds (versions (snd (StoreRevisions ex_env
        (ex_tracker (\<lambda>r. if r = ''r2'' then (None, Some (FileNotFoundError ''ci.yml''))
                          else (Some ex_project, None)) (\<lambda>r. ([], None)) [])
        ([ex_revision ''r3''] @ ex_revision ''r2'' # [ex_revision ''r1'']) (ex_world [] 0))))
     = [[''p_r1_linux''], [], [''p_r3_linux'']] \<and>
   map b_Id (builds (snd (StoreRevisions ex_env
        (ex_tracker (\<lambda>r. if r = ''r2'' then (None, Some (FileNotFoundError ''ci.yml''))
                          else (Some ex_project, None)) (\<lambda>r. ([], None)) [])
        ([ex_revision ''r3''] @ ex_revision ''r2'' # [ex_revision ''r1'']) (ex_world [] 0))))
     = [''p_r1_linux'', ''p_r3_linux'']"
proof -
  let ?rt = "ex_tracker (\<lambda>r. if r = ''r2'' then (None, Some (FileNotFoundError ''ci.yml''))
                          else (Some ex_project, None)) (\<lambda>r. ([], None)) []"
  let ?init = "ex_world [] 0"
  let ?rv = "ex_revision ''r2''"
  let ?l = "StoreRevisions_loop ex_env ?rt (rev [ex_revision ''r1'']) None ?init"
  let ?n = "case fst ?l of Continue n \<Rightarrow> n | _ \<Rightarrow> None"
  let ?w = "snd ?l"
  let ?sh = "shellVersionFromRevision ex_env (rt_ProjectRef ?rt) ?rv ?w"
  let ?stub = "(projr (fst ?sh))\<lparr> v_Errors := [Fields_String ex_env
                          [(''message'', ''problem finding project configuration''),
                           (''project'', pr_Identifier (rt_ProjectRef ?rt)),
                           (''revision'', rev_Revision ?rv),
                           (''path'', pr_RemotePath (rt_ProjectRef ?rt))]],
                      v_Warnings := [] \<rparr>"
  let ?run = "StoreRevisions ex_env ?rt ([ex_revision ''r3''] @ ?rv # [ex_revision ''r1'']) ?init"
  have h1: "pr_LocalConfig (rt_ProjectRef ?rt) = []" by (simp add: ex_defs)
  have h2: "GetRemoteConfig ?rt (rev_Revision ?rv) = (None, Some (FileNotFoundError ''ci.yml''))"
    by (simp add: ex_defs)
  have h3: "is_config_fetch_error (FileNotFoundError ''ci.yml'')" by simp
  have "fst ?l = Continue ?n" by code_simp
  then have h4: "?l = (Continue ?n, ?w)" by (metis prod.collapse)
  have h5: "fst (FindOne ex_env (ByProjectIdAndRevision (pr_Identifier (rt_ProjectRef ?rt))
                   (rev_Revision ?rv)) ?w) = None" by code_simp
  have "\<not> isl (fst ?sh)" by code_simp
  then have h6: "fst ?sh = Inr (projr (fst ?sh))" by simp
  have h7: "?stub = ?stub" by (rule refl)
  have h8: "fst (Insert ex_env ?stub ?w) = None" by code_simp
  from C4_recoverable_config_error [OF h1 h2 h3 h4 h5 h6 h7 h8]
  obtain w' where b: "StoreRevisions_body ex_env ?rt ?rv ?n ?w = (Continue (Some ?stub), w')"
    and f: "v_Revision ?stub = rev_Revision ?rv" "v_Errors ?stub \<noteq> []" "v_BuildIds ?stub = []"
    by blast
  have r2: "rev_Revision ?rv = ''r2''" by (simp add: ex_revision_def)
  have c1: "case fst (StoreRevisions_body ex_env ?rt ?rv ?n ?w) of
      Continue (Some s) \<Rightarrow> v_Errors s \<noteq> [] \<and> v_BuildIds s = [] \<and> v_Revision s = ''r2''
    | _ \<Rightarrow> False"
    unfolding b using f r2 by simp
  have c2: "map v_Revision (versions (snd ?run)) = [''r1'', ''r2'', ''r3'']" by code_simp
  have c3: "map v_BuildIds (versions (snd ?run)) = [[''p_r1_linux''], [], [''p_r3_linux'']]"
    by code_simp
  have c4: "map b_Id (builds (snd ?run)) = [''p_r1_linux'', ''p_r3_linux'']" by code_simp
  show ?thesis using c1 c2 c3 c4 by (intro conjI)
qed


text \<open>A batch of two whose older revision has no config file, with a store that
  refuses the stub: the run succeeds, only the newer revision is stored, and the
  watermark is set to it.\<close>

theorem C10_stub_insert_failure_witness:
  "fst (FetchRevisions
          (ex_env\<lparr>insert_err := (\<lambda>v. if v_Revision v = ''r1'' then Some (OtherError ''down'') else None)\<rparr>)
          (ex_tracker (\<lambda>r. if r = ''r1'' then (None, Some (FileNotFoundError ''ci.yml''))
                            else (Some ex_project, None)) (\<lambda>r. ([], None))
             ([ex_revision ''r2''] @ ex_revision ''r1'' # []))
          (ex_world [] 0)) = Returned None \<and>
   repositories (snd (FetchRevisions
          (ex_env\<lparr>insert_err := (\<lambda>v. if v_Revision v = ''r1'' then Some (OtherError ''down'') else None)\<rparr>)
          (ex_tracker (\<lambda>r. if r = ''r1'' then (None, Some (FileNotFoundError ''ci.yml''))
                            else (Some ex_project, None)) (\<lambda>r. ([], None))
             ([ex_revision ''r2''] @ ex_revision ''r1'' # []))
          (ex_world [] 0))) ''p'' = Some ''r2'' \<and>
   map v_Revision (versions (snd (FetchRevisions
          (ex_env\<lparr>insert_err := (\<lambda>v. if v_Revision v = ''r1'' then Some (OtherError ''down'') else None)\<rparr>)
          (ex_tracker (\<lambda>r. if r = ''r1'' then (None, Some (FileNotFoundError ''ci.yml''))
                            else (Some ex_project, None)) (\<lambda>r. ([], None))
             ([ex_revision ''r2''] @ ex_revision ''r1'' # []))
          (ex_world [] 0)))) = [''r2'']"
proof -
  let ?E = "ex_env\<lparr>insert_err := (\<lambda>v. if v_Revision v = ''r1'' then Some (OtherError ''down'') else None)\<rparr>"
  let ?rt = "ex_tracker (\<lambda>r. if r = ''r1'' then (None, Some (FileNotFoundError ''ci.yml''))
                            else (Some ex_project, None)) (\<lambda>r. ([], None))
             ([ex_revision ''r2''] @ ex_revision ''r1'' # [])"
  let ?init = "ex_world [] 0"
  let ?rv = "ex_revision ''r1''"
  let ?p = "pr_Identifier (rt_ProjectRef ?rt)"
  let ?sh = "shellVersionFromRevision ?E (rt_ProjectRef ?rt) ?rv ?init"
  let ?stub = "(projr (fst ?sh))\<lparr> v_Errors := [Fields_String ?E
                          [(''message'', ''problem finding project configuration''),
                           (''project'', pr_Identifier (rt_ProjectRef ?rt)),
                           (''revision'', rev_Revision ?rv),
                           (''path'', pr_RemotePath (rt_ProjectRef ?rt))]],
                      v_Warnings := [] \<rparr>"
  let ?body = "StoreRevisions_body ?E ?rt ?rv None ?init"
  let ?lp = "StoreRevisions_loop ?E ?rt (rev [ex_revision ''r2'']) (Some ?stub) (snd ?body)"
  let ?nv = "the (case fst ?lp of Continue n \<Rightarrow> n | _ \<Rightarrow> None)"
  let ?fo = "FindOne ?E (ById (v_Id ?nv)) (snd ?lp)"
  let ?lv = "the (fst ?fo)"
  let ?fetch = "FetchRevisions ?E ?rt ?init"
  have ref: "rt_ProjectRef ?rt = ex_ref" by (simp add: ex_tracker_def)
  have h1: "pr_LocalConfig (rt_ProjectRef ?rt) = []" by (simp add: ex_defs)
  have h2: "GetRemoteConfig ?rt (rev_Revision ?rv) = (None, Some (FileNotFoundError ''ci.yml''))"
    by (simp add: ex_defs)
  have h3: "is_config_fetch_error (FileNotFoundError ''ci.yml'')" by simp
  have h4: "StoreRevisions_loop ?E ?rt (rev []) None ?init = (Continue None, ?init)" by simp
  have h5: "fst (FindOne ?E (ByProjectIdAndRevision ?p (rev_Revision ?rv)) ?init) = None" by code_simp
  have "\<not> isl (fst ?sh)" by code_simp
  then have h6: "fst ?sh = Inr (projr (fst ?sh))" by simp
  have h7: "?stub = ?stub" by (rule refl)
  have h8: "fst (Insert ?E ?stub ?init) = Some (OtherError ''down'')" by code_simp
  from C10_stub_insert_failure [OF h1 h2 h3 h4 h5 h6 h7 h8, of "[ex_revision ''r2'']"]
  obtain w' where b: "?body = (Continue (Some ?stub), w')"
    and fetch: "\<forall>nv wf lv.
              pr_Enabled (rt_ProjectRef ?rt) \<and> find_repository_err ?E ?p = None \<and>
              poll_revisions ?rt (case repositories ?init ?p of None \<Rightarrow> [] | Some r \<Rightarrow> r)
                = Some ([ex_revision ''r2''] @ ?rv # [], None) \<and>
              StoreRevisions_loop ?E ?rt (rev [ex_revision ''r2'']) (Some ?stub) w' = (Continue (Some nv), wf) \<and>
              FindOne ?E (ById (v_Id nv)) wf = (Some lv, None) \<and>
              update_last_revision_err ?E (v_Identifier lv) (v_Revision lv) = None \<and>
              (\<forall>u. fst (DoProjectActivation ?E ?p u) = None)
              \<longrightarrow> (\<exists>wu. FetchRevisions ?E ?rt ?init = (Returned None, snd (DoProjectActivation ?E ?p wu)) \<and>
                        repositories wu = (repositories wf)(v_Identifier lv \<mapsto> v_Revision lv) \<and>
                        versions wu = versions wf)"
    by blast
  have w': "w' = snd ?body" using b by simp
  have p1: "pr_Enabled (rt_ProjectRef ?rt) \<and> find_repository_err ?E ?p = None \<and>
              poll_revisions ?rt (case repositories ?init ?p of None \<Rightarrow> [] | Some r \<Rightarrow> r)
                = Some ([ex_revision ''r2''] @ ?rv # [], None)"
    by (simp add: ex_defs poll_revisions_def)
  have "fst ?lp = Continue (Some ?nv)" by code_simp
  then have p2: "StoreRevisions_loop ?E ?rt (rev [ex_revision ''r2'']) (Some ?stub) w' = (Continue (Some ?nv), snd ?lp)"
    unfolding w' by (metis prod.collapse)
  have "fst ?fo = Some ?lv" "snd ?fo = None" by code_simp+
  then have p3: "?fo = (Some ?lv, None)" by (metis prod.collapse)
  have p4: "update_last_revision_err ?E (v_Identifier ?lv) (v_Revision ?lv) = None"
    by (simp add: ex_env_def)
  have p5: "\<forall>u. fst (DoProjectActivation ?E ?p u) = None" by (simp add: ex_env_def)
  from fetch [rule_format, of ?nv "snd ?lp" ?lv] p1 p2 p3 p4 p5
  obtain wu where fe: "?fetch = (Returned None, snd (DoProjectActivation ?E ?p wu))"
    and ru: "repositories wu = (repositories (snd ?lp))(v_Identifier ?lv \<mapsto> v_Revision ?lv)"
    and vu: "versions wu = versions (snd ?lp)"
    by blast
  have act: "snd (DoProjectActivation ?E ?p wu) = wu" by (simp add: ex_env_def)
  have lv: "v_Identifier ?lv = ''p''" "v_Revision ?lv = ''r2''" by code_simp+
  have vs: "map v_Revision (versions (snd ?lp)) = [''r2'']" by code_simp
  have c2: "fst ?fetch = Returned None" using fe by simp
  have c3: "repositories (snd ?fetch) ''p'' = Some ''r2''" using fe act ru lv by simp
  have c4: "map v_Revision (versions (snd ?fetch)) = [''r2'']" using fe act vu vs by simp
  show ?thesis using c2 c3 c4 by (intro conjI)
qed

end
